(* ===== verification/Prelude.thy ===== *)
theory Prelude
  imports Main "HOL-Library.Word" "HOL-Library.FSet" "HOL-Library.Char_ord"
    "HOL-Library.List_Lexorder"
begin

text \<open>
  Shared vocabulary of the development: the machine integers and byte strings of the Rust code, the
  parts of the Rust standard library its functions use (saturating arithmetic, big-endian byte
  strings, white-space trimming), and the generic lemmas the component theories rely on.

  A byte is a \<^typ>\<open>char\<close> (the HOL type has exactly 256 values), so that a Rust \<open>String\<close> (its UTF-8
  bytes) and a \<open>Vec<u8>\<close> are both \<^typ>\<open>string\<close> and \<open>as_bytes\<close> is the identity. The order on \<^typ>\<open>string\<close>
  is the bytewise lexicographic one, which is the order of Rust's \<open>str\<close> and \<open>[u8]\<close>.
\<close>

named_theorems u64_simps \<open>saturating and wrapping arithmetic of u64 read as natural numbers\<close>
named_theorems bt_simps \<open>lookups after the operations of ordered maps\<close>
named_theorems step_simps \<open>equations that unfold one operation of a component\<close>

section \<open>Machine integers\<close>

type_synonym u8 = "8 word"
type_synonym u32 = "32 word"
type_synonym u64 = "64 word"
type_synonym bytes = string

abbreviation u64_max :: u64 where
  "u64_max \<equiv> - 1"

definition sat_add :: "u64 \<Rightarrow> u64 \<Rightarrow> u64" where
  "sat_add a b = (if a + b < a then u64_max else a + b)"

definition sat_sub :: "'a::len word \<Rightarrow> 'a word \<Rightarrow> 'a word" where
  "sat_sub a b = (if a < b then 0 else a - b)"

definition abs_diff :: "u64 \<Rightarrow> u64 \<Rightarrow> u64" where
  "abs_diff a b = (if a < b then b - a else a - b)"

lemma word_overflow_iff: "a + b < a \<longleftrightarrow> 2 ^ LENGTH('a) \<le> unat a + unat b"
  for a b :: "'a::len word"
proof (cases "2 ^ LENGTH('a) \<le> unat a + unat b")
  case True
  have b: "unat a < 2 ^ LENGTH('a)" "unat b < 2 ^ LENGTH('a)"
    by (rule unsigned_less)+
  have "unat (a + b) = (unat a + unat b) mod 2 ^ LENGTH('a)"
    by (rule unat_word_ariths(1))
  moreover have "unat a + unat b - 2 ^ LENGTH('a) < 2 ^ LENGTH('a)"
    using True b by linarith
  ultimately have "unat (a + b) = unat a + unat b - 2 ^ LENGTH('a)"
    using True by (simp add: le_mod_geq)
  then show ?thesis
    unfolding word_less_nat_alt using True b by linarith
next
  case False
  then have "unat (a + b) = unat a + unat b"
    using unat_add_lem [of a b] by simp
  then show ?thesis
    using False by (simp add: word_less_nat_alt)
qed

lemma unat_sat_add [u64_simps]: "unat (sat_add a b) = min (unat a + unat b) (2 ^ 64 - 1)"
proof (cases "a + b < a")
  case True
  then show ?thesis
    using word_overflow_iff [of a b] by (simp add: sat_add_def unsigned_minus_1_eq_mask mask_eq_exp_minus_1)
next
  case False
  then have "unat a + unat b < 2 ^ 64"
    using word_overflow_iff [of a b] by simp
  moreover from this have "unat (a + b) = unat a + unat b"
    using unat_add_lem [of a b] by simp
  ultimately show ?thesis
    using False by (simp add: sat_add_def)
qed

lemma sat_add_ge: "a \<le> sat_add a b"
  by (simp add: sat_add_def not_less)

lemma word_inc_gt: "a \<noteq> - 1 \<Longrightarrow> a < a + 1"
  for a :: "'a::len word"
proof -
  assume "a \<noteq> - 1"
  then have "a + 1 \<noteq> 0"
    by (simp add: eq_neg_iff_add_eq_0)
  then have "unat (a + 1) = Suc (unat a)"
    by (simp add: unatSuc add.commute)
  then show ?thesis
    by (simp add: word_less_nat_alt)
qed

lemma sat_add_one_gt: "a \<noteq> u64_max \<Longrightarrow> a < sat_add a 1"
  using word_inc_gt [of a] by (auto simp: sat_add_def)

lemma sat_add_zero [simp]: "sat_add a 0 = a"
  by (simp add: sat_add_def)

lemma unat_sat_sub [u64_simps]: "unat (sat_sub a b) = unat a - unat b"
  by (simp add: sat_sub_def word_less_nat_alt unat_sub_if_size)

lemma unat_abs_diff [u64_simps]: "unat (abs_diff a b) = (unat a - unat b) + (unat b - unat a)"
  by (auto simp: abs_diff_def word_less_nat_alt unat_sub_if_size)

lemma abs_diff_commute: "abs_diff a b = abs_diff b a"
  by (auto simp: abs_diff_def)

lemma abs_diff_self [simp]: "abs_diff a a = 0"
  by (simp add: abs_diff_def)

section \<open>Byte strings\<close>

text \<open>\<open>to_be_bytes\<close> of an integer of \<open>n\<close> bytes, and \<open>from_be_bytes\<close>.\<close>

fun be_bytes :: "nat \<Rightarrow> nat \<Rightarrow> bytes" where
  "be_bytes 0 x = []"
| "be_bytes (Suc n) x = be_bytes n (x div 256) @ [char_of x]"

definition of_be_bytes :: "bytes \<Rightarrow> nat" where
  "of_be_bytes bs = foldl (\<lambda>a c. a * 256 + of_char c) 0 bs"

lemma length_be_bytes [simp]: "length (be_bytes n x) = n"
  by (induction n arbitrary: x) auto

lemma of_be_bytes_be_bytes: "of_be_bytes (be_bytes n x) = x mod 256 ^ n"
proof (induction n arbitrary: x)
  case (Suc n)
  have "x div 256 mod 256 ^ n * 256 + x mod 256 = x mod (256 * 256 ^ n)"
    by (simp add: mod_mult2_eq)
  then show ?case
    using Suc [of "x div 256"] by (simp add: of_be_bytes_def)
qed (simp add: of_be_bytes_def)

lemma be_bytes_inject:
  assumes "x < 256 ^ n" "y < 256 ^ n"
  shows "be_bytes n x = be_bytes n y \<longleftrightarrow> x = y"
proof
  assume "be_bytes n x = be_bytes n y"
  then have "x mod 256 ^ n = y mod 256 ^ n"
    by (metis of_be_bytes_be_bytes)
  with assms show "x = y"
    by (simp only: mod_less)
qed simp

lemma append_eq_be_bytes:
  "be_bytes n x @ xs = be_bytes n y @ ys \<longleftrightarrow> be_bytes n x = be_bytes n y \<and> xs = ys"
  by (simp add: append_eq_append_conv)

text \<open>
  \<open>char::is_whitespace\<close> on UTF-8 bytes: the number of bytes of the white-space character at the front
  of the string (0 when the front is none). The characters are those of the Unicode property
  \<open>White_Space\<close>.
\<close>

fun ws_prefix :: "bytes \<Rightarrow> nat" where
  "ws_prefix (a # b # c # _) =
     (if of_char a \<in> {0x09, 0x0A, 0x0B, 0x0C, 0x0D, 0x20::nat} then 1
      else if a = CHR 0xC2 \<and> (b = CHR 0x85 \<or> b = CHR 0xA0) then 2
      else if a = CHR 0xE1 \<and> b = CHR 0x9A \<and> c = CHR 0x80 then 3
      else if a = CHR 0xE2 \<and> b = CHR 0x80 \<and>
        (of_char c \<in> {0x80..0x8A::nat} \<or> c = CHR 0xA8 \<or> c = CHR 0xA9 \<or> c = CHR 0xAF) then 3
      else if a = CHR 0xE2 \<and> b = CHR 0x81 \<and> c = CHR 0x9F then 3
      else if a = CHR 0xE3 \<and> b = CHR 0x80 \<and> c = CHR 0x80 then 3
      else 0)"
| "ws_prefix (a # b # []) =
     (if of_char a \<in> {0x09, 0x0A, 0x0B, 0x0C, 0x0D, 0x20::nat} then 1
      else if a = CHR 0xC2 \<and> (b = CHR 0x85 \<or> b = CHR 0xA0) then 2 else 0)"
| "ws_prefix [a] = (if of_char a \<in> {0x09, 0x0A, 0x0B, 0x0C, 0x0D, 0x20::nat} then 1 else 0)"
| "ws_prefix [] = 0"

lemma ws_prefix_le: "ws_prefix s \<le> length s"
  by (cases s rule: ws_prefix.cases) simp_all

function trim_start :: "string \<Rightarrow> string" where
  "trim_start s = (if ws_prefix s = 0 then s else trim_start (drop (ws_prefix s) s))"
  by auto
termination
proof (relation "measure length")
  fix s :: string
  assume "ws_prefix s \<noteq> 0"
  with ws_prefix_le [of s] show "(drop (ws_prefix s) s, s) \<in> measure length"
    by simp
qed simp

declare trim_start.simps [simp del]

text \<open>\<open>s.trim().is_empty()\<close>: every character of the string is white space.\<close>

definition is_blank :: "string \<Rightarrow> bool" where
  "is_blank s = (trim_start s = [])"

lemma is_blank_Nil [simp]: "is_blank []"
  by (simp add: is_blank_def trim_start.simps)

text \<open>The check \<open>str::from_utf8\<close> makes, by the table of well-formed byte sequences.\<close>

definition byte_in :: "char \<Rightarrow> nat \<Rightarrow> nat \<Rightarrow> bool" where
  "byte_in c lo hi \<longleftrightarrow> lo \<le> of_char c \<and> of_char c \<le> hi"

fun utf8_tail :: "bytes \<Rightarrow> nat" where
  "utf8_tail (a # b # c # d # _) =
     (if byte_in a 0xC2 0xDF \<and> byte_in b 0x80 0xBF then 2
      else if ((a = CHR 0xE0 \<and> byte_in b 0xA0 0xBF) \<or> (byte_in a 0xE1 0xEC \<and> byte_in b 0x80 0xBF)
        \<or> (a = CHR 0xED \<and> byte_in b 0x80 0x9F) \<or> (byte_in a 0xEE 0xEF \<and> byte_in b 0x80 0xBF))
        \<and> byte_in c 0x80 0xBF then 3
      else if ((a = CHR 0xF0 \<and> byte_in b 0x90 0xBF) \<or> (byte_in a 0xF1 0xF3 \<and> byte_in b 0x80 0xBF)
        \<or> (a = CHR 0xF4 \<and> byte_in b 0x80 0x8F)) \<and> byte_in c 0x80 0xBF \<and> byte_in d 0x80 0xBF then 4
      else 0)"
| "utf8_tail [a, b, c] = (if byte_in a 0xC2 0xDF \<and> byte_in b 0x80 0xBF then 2
      else if ((a = CHR 0xE0 \<and> byte_in b 0xA0 0xBF) \<or> (byte_in a 0xE1 0xEC \<and> byte_in b 0x80 0xBF)
        \<or> (a = CHR 0xED \<and> byte_in b 0x80 0x9F) \<or> (byte_in a 0xEE 0xEF \<and> byte_in b 0x80 0xBF))
        \<and> byte_in c 0x80 0xBF then 3 else 0)"
| "utf8_tail [a, b] = (if byte_in a 0xC2 0xDF \<and> byte_in b 0x80 0xBF then 2 else 0)"
| "utf8_tail _ = 0"

definition utf8_char :: "bytes \<Rightarrow> nat" where
  "utf8_char s = (case s of [] \<Rightarrow> 0 | a # _ \<Rightarrow> if byte_in a 0 0x7F then 1 else utf8_tail s)"

function valid_utf8 :: "bytes \<Rightarrow> bool" where
  "valid_utf8 s = (if s = [] then True else if utf8_char s = 0 then False
     else valid_utf8 (drop (utf8_char s) s))"
  by auto
termination
  by (relation "measure length") auto

declare valid_utf8.simps [simp del]

text \<open>A NUL byte at the end makes no difference: it is a character and continues none.\<close>

lemma utf8_char_nul: "s \<noteq> [] \<Longrightarrow> utf8_char (s @ [CHR 0x00]) = utf8_char s"
  by (cases s rule: utf8_tail.cases) (auto simp: utf8_char_def byte_in_def)

lemma utf8_char_le: "utf8_char s \<le> length s"
  by (cases s rule: utf8_tail.cases) (auto simp: utf8_char_def)

lemma valid_utf8_nul: "valid_utf8 (s @ [CHR 0x00]) \<longleftrightarrow> valid_utf8 s"
proof (induction s rule: valid_utf8.induct)
  case (1 s)
  show ?case
  proof (cases "s = [] \<or> utf8_char s = 0")
    case True
    then show ?thesis
      using utf8_char_nul [of s]
      by (auto simp: valid_utf8.simps [of s] valid_utf8.simps [of "s @ _"]) (simp_all add: valid_utf8.simps utf8_char_def byte_in_def)
  next
    case False
    then have "drop (utf8_char s) (s @ [CHR 0x00]) = drop (utf8_char s) s @ [CHR 0x00]"
      using utf8_char_le [of s] by simp
    then show ?thesis
      using 1 False utf8_char_nul [of s] by (simp add: valid_utf8.simps [of s] valid_utf8.simps [of "s @ _"])
  qed
qed

section \<open>Lists\<close>

lemma sorted_list_of_fset_inject:
  "sorted_list_of_fset A = sorted_list_of_fset B \<longleftrightarrow> A = B"
  by (metis sorted_list_of_fset_simps(2))

text \<open>Strings ended by a separator that occurs in none of them concatenate injectively.\<close>

lemma terminated_append_inject:
  assumes "c \<notin> set x" "c \<notin> set y"
  shows "x @ c # xs = y @ c # ys \<longleftrightarrow> x = y \<and> xs = ys"
  using assms
proof (induction x arbitrary: y)
  case Nil
  then show ?case by (cases y) auto
next
  case (Cons a x)
  then show ?case by (cases y) auto
qed

lemma terminated_concat_inject:
  assumes "\<forall>x \<in> set xs. c \<notin> set x" "\<forall>y \<in> set ys. c \<notin> set y"
    and "concat (map (\<lambda>x. x @ [c]) xs) = concat (map (\<lambda>y. y @ [c]) ys)"
  shows "xs = ys"
  using assms
proof (induction xs arbitrary: ys)
  case Nil
  then show ?case by (cases ys) auto
next
  case (Cons x xs)
  then obtain y zs where "ys = y # zs"
    by (cases ys) auto
  moreover from this Cons.prems
  have "x = y \<and> concat (map (\<lambda>x. x @ [c]) xs) = concat (map (\<lambda>y. y @ [c]) zs)"
    by (subst terminated_append_inject [symmetric, of c]) simp_all
  ultimately show ?case
    using Cons.IH [of zs] Cons.prems by simp
qed

end
