(* ===== verification/External.thy ===== *)
theory External
  imports Prelude
begin

text \<open>
  The third-party code the sources call: hashing (sha2, hmac), signatures (ed25519-dalek), encodings
  (base64, ciborium, serde\_json, coset) and the PeerId parser (libp2p-identity). None of it is under
  \<open>src/\<close>, so it is a parameter: a record \<open>ext\<close> of functions that the definitions take as an argument.
  What a property relies on is stated as a named law of such a record (\<open>b64url_law\<close>, \<open>sig_law\<close>, ...);
  \<open>demo_ext\<close> is a concrete record that satisfies all of them.
\<close>

section \<open>Serialised values\<close>

text \<open>
  What a Rust struct gives to a serializer: a map from field names, in declaration order, to values.
  An encoder of ciborium or serde\_json is a function on such values.
\<close>

datatype sval =
    SNull
  | SBool bool
  | SInt u64
  | SStr string
  | SBytes bytes
  | SSeq "sval list"
  | SMap "(string \<times> sval) list"

section \<open>The parameter record\<close>

record ext =
  x_sha256 :: "bytes \<Rightarrow> bytes"
  x_hmac :: "bytes \<Rightarrow> bytes \<Rightarrow> bytes"
  x_ed_pub :: "bytes \<Rightarrow> bytes"
  x_ed_sign :: "bytes \<Rightarrow> bytes \<Rightarrow> bytes"
  x_ed_verify :: "bytes \<Rightarrow> bytes \<Rightarrow> bytes \<Rightarrow> bool"
  x_ed_key_ok :: "bytes \<Rightarrow> bool"
  x_b64 :: "bytes \<Rightarrow> string"
  x_unb64 :: "string \<Rightarrow> bytes option"
  x_b64url :: "bytes \<Rightarrow> string"
  x_unb64url :: "string \<Rightarrow> bytes option"
  x_peer_ok :: "string \<Rightarrow> bool"
  x_cbor :: "sval \<Rightarrow> bytes option"
  x_json :: "sval \<Rightarrow> bytes option"
  x_cose_tbs :: "bytes \<Rightarrow> bytes \<Rightarrow> bytes"
  x_cose_enc :: "bytes \<Rightarrow> bytes \<Rightarrow> bytes option"
  x_cose_dec :: "bytes \<Rightarrow> (bool \<times> bytes option \<times> bytes) option"
  x_hkdf :: "bytes \<Rightarrow> bytes \<Rightarrow> bytes \<Rightarrow> bytes option"
  x_seal :: "bytes \<Rightarrow> bytes \<Rightarrow> bytes \<Rightarrow> bytes \<Rightarrow> bytes option"
  x_open :: "bytes \<Rightarrow> bytes \<Rightarrow> bytes \<Rightarrow> bytes \<Rightarrow> bytes option"
  x_dh_pub :: "bytes \<Rightarrow> bytes"
  x_dh :: "bytes \<Rightarrow> bytes \<Rightarrow> bytes"

text \<open>
  \<open>x_cose_tbs aad payload\<close> is the Sig\_structure coset hands to the signing closure for an EdDSA
  header; \<open>x_cose_enc payload sig\<close> the encoded COSE\_Sign1; \<open>x_cose_dec\<close> gives whether the protected
  header names EdDSA, the payload and the signature. \<open>x_hkdf salt key info\<close> is HKDF-SHA256 expanded to 32
  bytes; \<open>x_seal key nonce aad text\<close> and \<open>x_open\<close> are ChaCha20-Poly1305; \<open>x_dh\<close> is X25519.
\<close>

section \<open>Laws of the parameters\<close>

definition b64_law :: "ext \<Rightarrow> bool" where
  "b64_law X \<longleftrightarrow> (\<forall>b. x_unb64 X (x_b64 X b) = Some b)"

text \<open>Unpadded base64url is decodable and its alphabet is \<open>A-Za-z0-9-_\<close>: it has no slash.\<close>

definition b64url_law :: "ext \<Rightarrow> bool" where
  "b64url_law X \<longleftrightarrow> (\<forall>b. x_unb64url X (x_b64url X b) = Some b \<and> CHR ''/'' \<notin> set (x_b64url X b))"

definition sig_law :: "ext \<Rightarrow> bool" where
  "sig_law X \<longleftrightarrow>
     (\<forall>sk m. x_ed_verify X (x_ed_pub X sk) m (x_ed_sign X sk m) \<and> x_ed_key_ok X (x_ed_pub X sk)
        \<and> length (x_ed_sign X sk m) = 64)"

text \<open>The usual idealisation of collision resistance: no two inputs have the same digest.\<close>

definition sha256_injective :: "ext \<Rightarrow> bool" where
  "sha256_injective X \<longleftrightarrow> (\<forall>a b. x_sha256 X a = x_sha256 X b \<longrightarrow> a = b)"

definition cbor_law :: "ext \<Rightarrow> bool" where
  "cbor_law X \<longleftrightarrow> (\<forall>v. x_cbor X v \<noteq> None) \<and> (\<forall>v w. x_cbor X v = x_cbor X w \<longrightarrow> v = w)"

text \<open>Every value the program serialises has a JSON text.\<close>

definition json_law :: "ext \<Rightarrow> bool" where
  "json_law X \<longleftrightarrow> (\<forall>v. x_json X v \<noteq> None)"

definition cose_law :: "ext \<Rightarrow> bool" where
  "cose_law X \<longleftrightarrow> (\<forall>p s. \<exists>e. x_cose_enc X p s = Some e \<and> x_cose_dec X e = Some (True, Some p, s))"

text \<open>A PeerId is base58 or multibase text: it has no NUL byte.\<close>

definition peer_law :: "ext \<Rightarrow> bool" where
  "peer_law X \<longleftrightarrow> (\<forall>p. x_peer_ok X p \<longrightarrow> CHR 0x00 \<notin> set p)"

definition hkdf_law :: "ext \<Rightarrow> bool" where
  "hkdf_law X \<longleftrightarrow> (\<forall>s k i. \<exists>b. x_hkdf X s k i = Some b \<and> length b = 32)"

definition hmac_law :: "ext \<Rightarrow> bool" where
  "hmac_law X \<longleftrightarrow> (\<forall>k m. length (x_hmac X k m) = 32)"

definition aead_law :: "ext \<Rightarrow> bool" where
  "aead_law X \<longleftrightarrow> (\<forall>k n a p. \<exists>c. x_seal X k n a p = Some c \<and> x_open X k n a c = Some p)"

definition dh_law :: "ext \<Rightarrow> bool" where
  "dh_law X \<longleftrightarrow> (\<forall>a b. x_dh X a (x_dh_pub X b) = x_dh X b (x_dh_pub X a))"

text \<open>Public keys of Ed25519 and X25519 have 32 bytes.\<close>

definition key_len_law :: "ext \<Rightarrow> bool" where
  "key_len_law X \<longleftrightarrow>
     (\<forall>sk. length sk = 32 \<longrightarrow> length (x_ed_pub X sk) = 32 \<and> length (x_dh_pub X sk) = 32)"

section \<open>A concrete instance\<close>

text \<open>A length-prefixed encoding of serialised values; it is injective because it is prefix-free.\<close>

definition enc_len :: "nat \<Rightarrow> bytes" where
  "enc_len n = replicate n (CHR 0x01) @ [CHR 0x00]"

definition enc_str :: "bytes \<Rightarrow> bytes" where
  "enc_str s = enc_len (length s) @ s"

fun enc_sval :: "sval \<Rightarrow> bytes" where
  "enc_sval SNull = [CHR 0x00]"
| "enc_sval (SBool b) = [CHR 0x01, if b then CHR 0x01 else CHR 0x00]"
| "enc_sval (SInt n) = CHR 0x02 # be_bytes 8 (unat n)"
| "enc_sval (SStr s) = CHR 0x03 # enc_str s"
| "enc_sval (SBytes s) = CHR 0x04 # enc_str s"
| "enc_sval (SSeq vs) = CHR 0x05 # enc_len (length vs) @ concat (map enc_sval vs)"
| "enc_sval (SMap fs) =
     CHR 0x06 # enc_len (length fs) @ concat (map (\<lambda>(k, v). enc_str k @ enc_sval v) fs)"

lemma enc_len_prefix: "enc_len m @ xs = enc_len n @ ys \<longleftrightarrow> m = n \<and> xs = ys"
proof (induction m arbitrary: n)
  case 0
  then show ?case by (cases n) (simp_all add: enc_len_def)
next
  case (Suc m)
  then show ?case by (cases n) (simp_all add: enc_len_def)
qed

lemma enc_str_prefix: "enc_str s @ xs = enc_str t @ ys \<longleftrightarrow> s = t \<and> xs = ys"
  by (auto simp: enc_str_def enc_len_prefix)

lemma be8_prefix: "be_bytes 8 (unat a) @ xs = be_bytes 8 (unat b) @ ys \<longleftrightarrow> a = b \<and> xs = ys"
  for a b :: u64
proof -
  have "unat a < 256 ^ 8" "unat b < 256 ^ 8"
    using unsigned_less [of a, where 'a = nat] unsigned_less [of b, where 'a = nat] by simp_all
  then show ?thesis
    by (simp add: append_eq_be_bytes be_bytes_inject unsigned_word_eqI word_unat_eq_iff
        del: be_bytes.simps)
qed

lemma concat_prefix_free:
  assumes "\<And>a b xs ys. a \<in> set as \<Longrightarrow> f a @ xs = f b @ ys \<longleftrightarrow> a = b \<and> xs = ys"
    and "length as = length bs"
  shows "concat (map f as) @ xs = concat (map f bs) @ ys \<longleftrightarrow> as = bs \<and> xs = ys"
  using assms(2,1)
proof (induction as bs rule: list_induct2)
  case (Cons a as b bs)
  have "f a @ (concat (map f as) @ xs) = f b @ (concat (map f bs) @ ys) \<longleftrightarrow>
    a = b \<and> concat (map f as) @ xs = concat (map f bs) @ ys"
    using Cons.prems by simp
  then show ?case
    using Cons by simp
qed simp

lemma enc_sval_prefix: "enc_sval v @ xs = enc_sval w @ ys \<longleftrightarrow> v = w \<and> xs = ys"
proof (induction v arbitrary: w xs ys rule: enc_sval.induct)
  case 1
  then show ?case by (cases w) auto
next
  case (2 b)
  then show ?case by (cases w) (auto split: if_splits)
next
  case (3 n)
  then show ?case by (cases w) (auto simp: be8_prefix)
next
  case (4 s)
  then show ?case by (cases w) (auto simp: enc_str_prefix)
next
  case (5 s)
  then show ?case by (cases w) (auto simp: enc_str_prefix)
next
  case (6 vs)
  have "length vs = length us \<Longrightarrow> concat (map enc_sval vs) @ xs = concat (map enc_sval us) @ ys \<longleftrightarrow>
    vs = us \<and> xs = ys" for us
    by (rule concat_prefix_free) (simp_all add: 6)
  then show ?case by (cases w) (auto simp: enc_len_prefix)
next
  case (7 fs)
  have e: "(case a of (k, v) \<Rightarrow> enc_str k @ enc_sval v) @ us = (case b of (k, v) \<Rightarrow> enc_str k @ enc_sval v) @ vs
    \<longleftrightarrow> a = b \<and> us = vs" if "a \<in> set fs" for a b us vs
  proof -
    obtain k v where a: "a = (k, v)"
      by (cases a)
    with that have "(k, v) \<in> set fs"
      by simp
    then have "enc_sval v @ us = enc_sval w @ vs \<longleftrightarrow> v = w \<and> us = vs" for w us vs
      using 7 by blast
    then show ?thesis
      using a by (cases b) (simp add: enc_str_prefix)
  qed
  have "length fs = length gs \<Longrightarrow>
    concat (map (\<lambda>(k, v). enc_str k @ enc_sval v) fs) @ xs =
    concat (map (\<lambda>(k, v). enc_str k @ enc_sval v) gs) @ ys \<longleftrightarrow> fs = gs \<and> xs = ys" for gs
    by (rule concat_prefix_free [OF e]) simp_all
  then show ?case by (cases w) (auto simp: enc_len_prefix)
qed

lemma enc_sval_inject: "enc_sval v = enc_sval w \<longleftrightarrow> v = w"
  using enc_sval_prefix [of v "[]" w "[]"] by simp

text \<open>
  Base64 is written in hexadecimal digits here: any decodable text without a slash will do. A
  signature of the instance is a 64-byte digest of key and message.
\<close>

definition hex_digit :: "nat \<Rightarrow> char" where
  "hex_digit n = (if n < 10 then char_of (48 + n) else char_of (87 + n))"

definition hex_val :: "char \<Rightarrow> nat" where
  "hex_val c = (if of_char c < (58::nat) then of_char c - 48 else of_char c - 87)"

fun hex_enc :: "bytes \<Rightarrow> string" where
  "hex_enc [] = []"
| "hex_enc (c # cs) = hex_digit (of_char c div 16) # hex_digit (of_char c mod 16) # hex_enc cs"

fun hex_dec :: "string \<Rightarrow> bytes option" where
  "hex_dec [] = Some []"
| "hex_dec [_] = None"
| "hex_dec (a # b # cs) =
     (case hex_dec cs of None \<Rightarrow> None | Some r \<Rightarrow> Some (char_of (hex_val a * 16 + hex_val b) # r))"

lemma hex_val_digit: "n < 16 \<Longrightarrow> hex_val (hex_digit n) = n"
  by (simp add: hex_val_def hex_digit_def)

lemma of_char_lt: "(of_char c :: nat) < 256"
  using range_nat_of_char by (metis atLeastLessThan_iff rangeI)

lemma hex_dec_enc: "hex_dec (hex_enc s) = Some s"
proof (induction s)
  case (Cons c s)
  have "hex_val (hex_digit (of_char c div 16)) * 16 + hex_val (hex_digit (of_char c mod 16)) = of_char c"
    using of_char_lt [of c] by (simp add: hex_val_digit less_mult_imp_div_less)
  with Cons show ?case by simp
qed simp

lemma hex_digit_ne: "n < 16 \<Longrightarrow> hex_digit n \<noteq> CHR ''/''"
proof -
  have "(of_char (hex_digit n) :: nat) \<noteq> of_char (CHR ''/'')" if "n < 16"
    using that by (simp add: hex_digit_def)
  then show "n < 16 \<Longrightarrow> hex_digit n \<noteq> CHR ''/''"
    by metis
qed

lemma hex_enc_no_slash: "CHR ''/'' \<notin> set (hex_enc s)"
proof (induction s)
  case (Cons c s)
  then show ?case
    using of_char_lt [of c] hex_digit_ne [of "of_char c div 16"] hex_digit_ne [of "of_char c mod 16"]
    by (auto simp: less_mult_imp_div_less)
qed simp

definition demo_sig :: "bytes \<Rightarrow> bytes \<Rightarrow> bytes" where
  "demo_sig k m = take 64 (k @ m @ replicate 64 (CHR 0x00))"

definition demo_ext :: ext where
  "demo_ext = \<lparr>x_sha256 = id, x_hmac = (\<lambda>k m. take 32 (k @ m @ replicate 32 (CHR 0x00))), x_ed_pub = id,
     x_ed_sign = demo_sig, x_ed_verify = (\<lambda>k m s. s = demo_sig k m), x_ed_key_ok = (\<lambda>_. True),
     x_b64 = hex_enc, x_unb64 = hex_dec, x_b64url = hex_enc, x_unb64url = hex_dec,
     x_peer_ok = (\<lambda>p. p \<noteq> [] \<and> CHR 0x00 \<notin> set p),
     x_cbor = (\<lambda>v. Some (enc_sval v)), x_json = (\<lambda>v. Some (enc_sval v)),
     x_cose_tbs = (\<lambda>a p. enc_str a @ p), x_cose_enc = (\<lambda>p s. Some (enc_str p @ s)),
     x_cose_dec = (\<lambda>e. let n = length (takeWhile (\<lambda>c. c = CHR 0x01) e); r = drop (Suc n) e in
       if length r < n then None else Some (True, Some (take n r), drop n r)),
     x_hkdf = (\<lambda>s k i. Some (take 32 (s @ k @ i @ replicate 32 (CHR 0x00)))),
     x_seal = (\<lambda>k n a p. Some (k @ n @ a @ p)),
     x_open = (\<lambda>k n a c. if take (length (k @ n @ a)) c = k @ n @ a then Some (drop (length (k @ n @ a)) c) else None),
     x_dh_pub = id, x_dh = (\<lambda>a b. if a \<le> b then a @ b else b @ a)\<rparr>"

lemma demo_sig_length: "length (demo_sig k m) = 64"
  by (simp add: demo_sig_def min_def)

lemma demo_cose_law: "cose_law demo_ext"
proof -
  have "takeWhile (\<lambda>c. c = CHR 0x01) (enc_str p @ s) = replicate (length p) (CHR 0x01)" for p s
    by (simp add: enc_str_def enc_len_def takeWhile_append)
  moreover have "drop (Suc (length p)) (enc_str p @ s) = p @ s" for p s
    by (simp add: enc_str_def enc_len_def)
  ultimately show ?thesis
    by (simp add: cose_law_def demo_ext_def Let_def del: drop_append takeWhile_append)
      (simp add: enc_str_def enc_len_def)
qed

lemma demo_dh_law: "dh_law demo_ext"
  by (auto simp: dh_law_def demo_ext_def)

lemma demo_laws [simp]:
  "b64_law demo_ext" "b64url_law demo_ext" "sig_law demo_ext" "sha256_injective demo_ext"
  "cbor_law demo_ext" "json_law demo_ext" "cose_law demo_ext" "peer_law demo_ext"
  "hkdf_law demo_ext" "hmac_law demo_ext" "aead_law demo_ext" "dh_law demo_ext" "key_len_law demo_ext"
  by (simp_all add: demo_cose_law demo_dh_law)
    (simp_all add: demo_ext_def b64_law_def b64url_law_def sig_law_def sha256_injective_def
      cbor_law_def json_law_def peer_law_def hex_dec_enc hex_enc_no_slash
      enc_sval_inject demo_sig_length hkdf_law_def hmac_law_def aead_law_def min_def key_len_law_def)

end
