(* ===== verification/Fsutil.thy ===== *)
theory Fsutil
  imports Prelude
begin

text \<open>
  The file system as the code uses it, and \<open>fsutil::atomic_write\<close> (write a temporary file, set its
  mode, rename it over the target). Every system call may fail: the record \<open>io\<close> says which calls of
  one operation fail and what a failed write leaves behind. The locale \<open>atomic_cell\<close> is what the
  callers rely on (a failed write leaves the old contents, a successful one the new), interpreted on
  \<open>atomic_write\<close>.
\<close>

section \<open>Files, paths and failing calls\<close>

datatype io_error = Io_NotFound | Io_PermissionDenied | Io_Other string

text \<open>A path is its parent's components and its last component (which is not \<open>..\<close>).\<close>

type_synonym path = "string list \<times> string"

record fs_file =
  f_data :: bytes
  f_mode :: u32

record fs =
  fs_files :: "path \<Rightarrow> fs_file option"
  fs_dirs :: "string list \<Rightarrow> bool"

text \<open>
  \<open>io_write\<close> is \<open>Some (e, left)\<close> when the write fails with \<open>e\<close> after the bytes \<open>left\<close> (if any) reached
  the file; \<open>io_mode\<close> is the mode of a newly created file.
\<close>

record io =
  io_mkdir :: "io_error option"
  io_write :: "(io_error \<times> bytes option) option"
  io_chmod :: "io_error option"
  io_rename :: "io_error option"
  io_read :: "io_error option"
  io_mode :: u32

definition io_fine :: io where
  "io_fine = \<lparr>io_mkdir = None, io_write = None, io_chmod = None, io_rename = None, io_read = None,
     io_mode = 0x1A4\<rparr>"

definition file_stem :: "string \<Rightarrow> string" where
  "file_stem name =
     (case dropWhile (\<lambda>c. c \<noteq> CHR ''.'') (rev name) of
        [] \<Rightarrow> name
      | _ # st \<Rightarrow> if st = [] then name else rev st)"

definition with_extension :: "path \<Rightarrow> string \<Rightarrow> path" where
  "with_extension p ext = (fst p, file_stem (snd p) @ ''.'' @ ext)"

definition create_dir_all :: "io \<Rightarrow> string list \<Rightarrow> fs \<Rightarrow> (io_error + unit) \<times> fs" where
  "create_dir_all e d s =
     (case io_mkdir e of
        Some x \<Rightarrow> (Inl x, s)
      | None \<Rightarrow> (Inr (), s\<lparr>fs_dirs := (\<lambda>q. fs_dirs s q \<or> q = take (length q) d)\<rparr>))"

definition put_data :: "io \<Rightarrow> path \<Rightarrow> bytes \<Rightarrow> fs \<Rightarrow> fs" where
  "put_data e p d s = s\<lparr>fs_files := (fs_files s)(p := Some (case fs_files s p of
     Some f \<Rightarrow> f\<lparr>f_data := d\<rparr> | None \<Rightarrow> \<lparr>f_data = d, f_mode = io_mode e\<rparr>))\<rparr>"

definition fs_write :: "io \<Rightarrow> path \<Rightarrow> bytes \<Rightarrow> fs \<Rightarrow> (io_error + unit) \<times> fs" where
  "fs_write e p d s =
     (case io_write e of
        Some (x, left) \<Rightarrow> (Inl x, case left of None \<Rightarrow> s | Some d' \<Rightarrow> put_data e p d' s)
      | None \<Rightarrow> (Inr (), put_data e p d s))"

definition set_permissions :: "io \<Rightarrow> path \<Rightarrow> u32 \<Rightarrow> fs \<Rightarrow> (io_error + unit) \<times> fs" where
  "set_permissions e p m s =
     (case io_chmod e of
        Some x \<Rightarrow> (Inl x, s)
      | None \<Rightarrow>
          (case fs_files s p of
             None \<Rightarrow> (Inl Io_NotFound, s)
           | Some f \<Rightarrow> (Inr (), s\<lparr>fs_files := (fs_files s)(p := Some (f\<lparr>f_mode := m\<rparr>))\<rparr>)))"

definition fs_rename :: "io \<Rightarrow> path \<Rightarrow> path \<Rightarrow> fs \<Rightarrow> (io_error + unit) \<times> fs" where
  "fs_rename e p q s =
     (case io_rename e of
        Some x \<Rightarrow> (Inl x, s)
      | None \<Rightarrow>
          (case fs_files s p of
             None \<Rightarrow> (Inl Io_NotFound, s)
           | Some f \<Rightarrow> (Inr (), s\<lparr>fs_files := (fs_files s)(p := None, q := Some f)\<rparr>)))"

definition fs_read :: "io \<Rightarrow> path \<Rightarrow> fs \<Rightarrow> io_error + bytes" where
  "fs_read e p s =
     (case io_read e of
        Some x \<Rightarrow> Inl x
      | None \<Rightarrow> (case fs_files s p of None \<Rightarrow> Inl Io_NotFound | Some f \<Rightarrow> Inr (f_data f)))"

definition read_to_string :: "io \<Rightarrow> path \<Rightarrow> fs \<Rightarrow> io_error + string" where
  "read_to_string e p s =
     (case fs_read e p s of
        Inl x \<Rightarrow> Inl x
      | Inr b \<Rightarrow> if valid_utf8 b then Inr b else Inl (Io_Other ''stream did not contain valid UTF-8''))"

section \<open>atomic\_write\<close>

definition atomic_write :: "io \<Rightarrow> path \<Rightarrow> bytes \<Rightarrow> u32 option \<Rightarrow> fs \<Rightarrow> (io_error + unit) \<times> fs" where
  "atomic_write e p d mode s =
     (case (if fst p = [] then (Inr (), s) else create_dir_all e (fst p) s) of
        (Inl x, s1) \<Rightarrow> (Inl x, s1)
      | (Inr _, s1) \<Rightarrow>
          (let temp = with_extension p ''tmp'' in
           case fs_write e temp d s1 of
             (Inl x, s2) \<Rightarrow> (Inl x, s2)
           | (Inr _, s2) \<Rightarrow>
               (case (case mode of None \<Rightarrow> (Inr (), s2) | Some m \<Rightarrow> set_permissions e temp m s2) of
                  (Inl x, s3) \<Rightarrow> (Inl x, s3)
                | (Inr _, s3) \<Rightarrow> fs_rename e temp p s3)))"

lemmas fs_defs = create_dir_all_def put_data_def fs_write_def set_permissions_def fs_rename_def

text \<open>The path is not its own temporary file (no file of the program ends in \<open>.tmp\<close>).\<close>

definition has_temp :: "path \<Rightarrow> bool" where
  "has_temp p = (with_extension p ''tmp'' \<noteq> p)"

lemma atomic_write_err:
  assumes "has_temp p" "atomic_write e p d m s = (Inl x, s')"
  shows "fs_files s' p = fs_files s p"
  using assms by (cases "io_mkdir e"; cases "io_write e"; cases "io_chmod e"; cases "io_rename e"; cases m;
    auto simp: has_temp_def atomic_write_def fs_defs Let_def split: if_splits option.splits)

lemma atomic_write_ok:
  assumes "has_temp p" "atomic_write e p d m s = (Inr u, s')"
  shows "\<exists>f. fs_files s' p = Some f \<and> f_data f = d \<and> (\<forall>w. m = Some w \<longrightarrow> f_mode f = w)
    \<and> fs_files s' (with_extension p ''tmp'') = None"
  using assms by (cases "io_mkdir e"; cases "io_write e"; cases "io_chmod e"; cases "io_rename e"; cases m;
    auto simp: has_temp_def atomic_write_def fs_defs Let_def split: if_splits option.splits)

lemma atomic_write_frame:
  assumes "q \<noteq> p" "q \<noteq> with_extension p ''tmp''"
  shows "fs_files (snd (atomic_write e p d m s)) q = fs_files s q"
  using assms by (cases "io_mkdir e"; cases "io_write e"; cases "io_chmod e"; cases "io_rename e"; cases m;
    auto simp: atomic_write_def fs_defs Let_def split: if_splits option.splits)

lemma atomic_write_fine: "has_temp p \<Longrightarrow> fst (atomic_write io_fine p d m s) = Inr ()"
  by (auto simp: io_fine_def has_temp_def atomic_write_def fs_defs Let_def split: option.splits)

section \<open>The interface of a durable file\<close>

text \<open>
  A cell with a fallible write: success installs the value, failure keeps the old one. Over any
  sequence of writes the cell holds the value of the last one that succeeded.
\<close>

locale atomic_cell =
  fixes ok :: "'k \<Rightarrow> bool"
    and put :: "'env \<Rightarrow> 'k \<Rightarrow> 'v \<Rightarrow> 's \<Rightarrow> ('x + unit) \<times> 's"
    and get :: "'s \<Rightarrow> 'k \<Rightarrow> 'v option"
  assumes put_ok: "ok k \<Longrightarrow> put e k v s = (Inr u, s') \<Longrightarrow> get s' k = Some v"
    and put_err: "ok k \<Longrightarrow> put e k v s = (Inl x, s') \<Longrightarrow> get s' k = get s k"
begin

fun run :: "'k \<Rightarrow> ('env \<times> 'v) list \<Rightarrow> 's \<Rightarrow> 's" where
  "run k [] s = s"
| "run k ((e, v) # ws) s = run k ws (snd (put e k v s))"

fun last_ok :: "'k \<Rightarrow> ('env \<times> 'v) list \<Rightarrow> 's \<Rightarrow> 'v option \<Rightarrow> 'v option" where
  "last_ok k [] s old = old"
| "last_ok k ((e, v) # ws) s old =
     last_ok k ws (snd (put e k v s)) (case fst (put e k v s) of Inl _ \<Rightarrow> old | Inr _ \<Rightarrow> Some v)"

lemma get_put:
  "ok k \<Longrightarrow> get (snd (put e k v s)) k = (case fst (put e k v s) of Inl _ \<Rightarrow> get s k | Inr _ \<Rightarrow> Some v)"
  by (cases "put e k v s") (auto split: sum.splits intro: put_ok put_err)

lemma get_run: "ok k \<Longrightarrow> get (run k ws s) k = last_ok k ws s (get s k)"
  by (induction k ws s rule: run.induct) (simp_all add: get_put)

end

definition file_contents :: "fs \<Rightarrow> path \<Rightarrow> bytes option" where
  "file_contents s p = map_option f_data (fs_files s p)"

definition cell_put :: "io \<times> u32 option \<Rightarrow> path \<Rightarrow> bytes \<Rightarrow> fs \<Rightarrow> (io_error + unit) \<times> fs" where
  "cell_put em p d s = atomic_write (fst em) p d (snd em) s"

interpretation fcell: atomic_cell has_temp cell_put file_contents
proof unfold_locales
  show "has_temp k \<Longrightarrow> cell_put e k v s = (Inr u, s') \<Longrightarrow> file_contents s' k = Some v" for k e v s u s'
    using atomic_write_ok by (fastforce simp: file_contents_def cell_put_def)
  show "has_temp k \<Longrightarrow> cell_put e k v s = (Inl x, s') \<Longrightarrow> file_contents s' k = file_contents s k" for k e v s x s'
    using atomic_write_err by (fastforce simp: file_contents_def cell_put_def)
qed

section \<open>Properties\<close>

primrec write_all :: "path \<Rightarrow> (io \<times> u32 option \<times> bytes) list \<Rightarrow> fs \<Rightarrow> fs" where
  "write_all p [] s = s"
| "write_all p (w # ws) s = write_all p ws (snd (atomic_write (fst w) p (snd (snd w)) (fst (snd w)) s))"

text \<open>The data of the last write that reported success, or \<open>old\<close> when none did.\<close>

primrec last_written :: "path \<Rightarrow> (io \<times> u32 option \<times> bytes) list \<Rightarrow> fs \<Rightarrow> bytes option \<Rightarrow> bytes option" where
  "last_written p [] s old = old"
| "last_written p (w # ws) s old =
     (case atomic_write (fst w) p (snd (snd w)) (fst (snd w)) s of
        (Inl _, s') \<Rightarrow> last_written p ws s' old
      | (Inr _, s') \<Rightarrow> last_written p ws s' (Some (snd (snd w))))"

lemma write_all_run: "write_all p ws s = fcell.run p (map (\<lambda>(e, m, d). ((e, m), d)) ws) s"
  by (induction ws arbitrary: s) (simp_all add: case_prod_unfold cell_put_def)

lemma last_written_run:
  "last_written p ws s old = fcell.last_ok p (map (\<lambda>(e, m, d). ((e, m), d)) ws) s old"
  by (induction ws arbitrary: s old) (simp_all add: case_prod_unfold cell_put_def split: sum.splits)

text \<open>
  C28: A file written only with \<open>atomic_write\<close> always holds exactly the data of the last write that
  reported success (or its old contents), whichever directory, write, chmod and rename calls fail and
  whatever a failed write leaves in the temporary file; no other file than the temporary one changes.
\<close>

theorem atomic_write_safe:
  assumes "has_temp p"
  shows "file_contents (write_all p ws s) p = last_written p ws s (file_contents s p) \<and>
    (\<forall>q. q \<noteq> p \<and> q \<noteq> with_extension p ''tmp'' \<longrightarrow> fs_files (write_all p ws s) q = fs_files s q)"
proof -
  have "\<forall>q. q \<noteq> p \<and> q \<noteq> with_extension p ''tmp'' \<longrightarrow> fs_files (write_all p ws s) q = fs_files s q"
    by (induction ws arbitrary: s) (simp_all add: atomic_write_frame)
  then show ?thesis
    using fcell.get_run [OF assms] by (simp add: write_all_run last_written_run)
qed

definition demo_fs :: fs where
  "demo_fs = \<lparr>fs_files = Map.empty, fs_dirs = (\<lambda>_. False)\<rparr>"

theorem atomic_write_safe_witness:
  "file_contents (write_all ([''data''], ''state.toml'')
     [(io_fine, Some 0x180, ''one''), (io_fine\<lparr>io_write := Some (Io_Other ''full'', Some ''t'')\<rparr>, Some 0x180, ''two'')]
     demo_fs) ([''data''], ''state.toml'') = Some ''one''"
proof -
  have "has_temp ([''data''], ''state.toml'')"
    by (simp add: has_temp_def with_extension_def file_stem_def)
  from atomic_write_safe [OF this] show ?thesis
    by (simp add: demo_fs_def io_fine_def atomic_write_def fs_defs with_extension_def file_stem_def
        file_contents_def)
qed

end
