(* ===== verification/Authority.thy ===== *)
theory Authority
  imports External Fsutil
begin

text \<open>
  \<open>src/authority.rs\<close>: names and record keys, the authority's signing key and its files, the index and
  whitelist documents, and COSE\_Sign1 signing and verification. The lemmas show that the keys of
  different records never coincide and that a signed record verifies under its own key.
\<close>

section \<open>Constants, errors and documents\<close>

abbreviation RESERVED_SERVICE :: string where "RESERVED_SERVICE \<equiv> ''service''"
abbreviation AUTH_PREFIX :: string where "AUTH_PREFIX \<equiv> ''/oahd/auth''"
abbreviation SEED_LEN :: nat where "SEED_LEN \<equiv> 32"
abbreviation MAX_NAME_LEN :: nat where "MAX_NAME_LEN \<equiv> 64"

datatype authority_error = Auth_Io io_error | InvalidSeed | InvalidName | Cose

record service_entry =
  se_name :: string
  se_hash :: bytes
  se_length :: u64

record index_doc =
  ix_version :: u64
  ix_expires_at :: u64
  ix_services :: "service_entry list"

record whitelist_doc =
  wl_version :: u64
  wl_members :: "string list"

text \<open>A \<open>Vec<u8>\<close> field is serialised as a sequence of integers.\<close>

definition service_entry_sval :: "service_entry \<Rightarrow> sval" where
  "service_entry_sval e = SMap [(''name'', SStr (se_name e)),
     (''hash'', SSeq (map (\<lambda>c. SInt (of_nat (of_char c))) (se_hash e))), (''length'', SInt (se_length e))]"

definition index_doc_sval :: "index_doc \<Rightarrow> sval" where
  "index_doc_sval d = SMap [(''version'', SInt (ix_version d)), (''expires_at'', SInt (ix_expires_at d)),
     (''services'', SSeq (map service_entry_sval (ix_services d)))]"

definition whitelist_doc_sval :: "whitelist_doc \<Rightarrow> sval" where
  "whitelist_doc_sval d = SMap [(''version'', SInt (wl_version d)),
     (''members'', SSeq (map SStr (wl_members d)))]"

section \<open>Names and keys\<close>

definition is_ascii_alphanumeric :: "char \<Rightarrow> bool" where
  "is_ascii_alphanumeric c =
     (let n = of_char c :: nat in (48 \<le> n \<and> n \<le> 57) \<or> (65 \<le> n \<and> n \<le> 90) \<or> (97 \<le> n \<and> n \<le> 122))"

definition is_valid_network_name :: "string \<Rightarrow> bool" where
  "is_valid_network_name s \<longleftrightarrow>
     s \<noteq> [] \<and> length s \<le> MAX_NAME_LEN \<and>
     list_all (\<lambda>b. is_ascii_alphanumeric b \<or> b = CHR ''_'' \<or> b = CHR ''-'') s"

definition is_valid_service_name :: "string \<Rightarrow> bool" where
  "is_valid_service_name s \<longleftrightarrow> is_valid_network_name s \<and> s \<noteq> RESERVED_SERVICE"

definition is_valid_peer_id :: "ext \<Rightarrow> string \<Rightarrow> bool" where
  "is_valid_peer_id X s = x_peer_ok X s"

definition content_hash :: "ext \<Rightarrow> bytes \<Rightarrow> bytes" where
  "content_hash X v = x_sha256 X v"

definition net_hash :: "ext \<Rightarrow> string \<Rightarrow> string" where
  "net_hash X name = x_b64url X (x_sha256 X name)"

definition index_key_for :: "ext \<Rightarrow> string \<Rightarrow> string" where
  "index_key_for X network = AUTH_PREFIX @ ''/'' @ net_hash X network @ ''/'' @ RESERVED_SERVICE"

section \<open>The authority\<close>

record authority =
  au_key :: bytes
  au_network :: string
  au_net_hash :: string

definition from_seed :: "ext \<Rightarrow> bytes \<Rightarrow> string \<Rightarrow> authority_error + authority" where
  "from_seed X seed network =
     (if \<not> is_valid_network_name network then Inl InvalidName
      else Inr \<lparr>au_key = seed, au_network = network, au_net_hash = net_hash X network\<rparr>)"

definition auth_load :: "ext \<Rightarrow> io \<Rightarrow> path \<Rightarrow> string \<Rightarrow> fs \<Rightarrow> authority_error + authority" where
  "auth_load X e p network s =
     (case fs_read e p s of
        Inl x \<Rightarrow> Inl (Auth_Io x)
      | Inr b \<Rightarrow> if length b \<noteq> SEED_LEN then Inl InvalidSeed else from_seed X b network)"

text \<open>\<open>fresh\<close> is the 32 bytes drawn from the operating system's generator.\<close>

definition auth_load_or_create ::
  "ext \<Rightarrow> io \<Rightarrow> bytes \<Rightarrow> path \<Rightarrow> string \<Rightarrow> fs \<Rightarrow> (authority_error + authority) \<times> fs" where
  "auth_load_or_create X e fresh p network s =
     (case fs_read e p s of
        Inr b \<Rightarrow> if length b \<noteq> SEED_LEN then (Inl InvalidSeed, s) else (from_seed X b network, s)
      | Inl Io_NotFound \<Rightarrow>
          (case atomic_write e p fresh (Some 0x180) s of
             (Inl x, s') \<Rightarrow> (Inl (Auth_Io x), s')
           | (Inr _, s') \<Rightarrow> (from_seed X fresh network, s'))
      | Inl x \<Rightarrow> (Inl (Auth_Io x), s))"

definition public_key_bytes :: "ext \<Rightarrow> authority \<Rightarrow> bytes" where
  "public_key_bytes X a = x_ed_pub X (au_key a)"

abbreviation public_key_b64 :: "ext \<Rightarrow> authority \<Rightarrow> string" where
  "public_key_b64 X a \<equiv> x_b64 X (public_key_bytes X a)"

definition index_key :: "authority \<Rightarrow> string" where
  "index_key a = AUTH_PREFIX @ ''/'' @ au_net_hash a @ ''/'' @ RESERVED_SERVICE"

definition service_key :: "authority \<Rightarrow> string \<Rightarrow> authority_error + string" where
  "service_key a service =
     (if \<not> is_valid_service_name service then Inl InvalidName
      else Inr (AUTH_PREFIX @ ''/'' @ au_net_hash a @ ''/'' @ service))"

definition cbor_encode :: "ext \<Rightarrow> sval \<Rightarrow> authority_error + bytes" where
  "cbor_encode X v = (case x_cbor X v of None \<Rightarrow> Inl Cose | Some b \<Rightarrow> Inr b)"

definition sign_payload :: "ext \<Rightarrow> authority \<Rightarrow> bytes \<Rightarrow> bytes \<Rightarrow> authority_error + bytes" where
  "sign_payload X a aad payload =
     (case x_cose_enc X payload (x_ed_sign X (au_key a) (x_cose_tbs X aad payload)) of
        None \<Rightarrow> Inl Cose | Some e \<Rightarrow> Inr e)"

definition sign_index :: "ext \<Rightarrow> authority \<Rightarrow> index_doc \<Rightarrow> authority_error + bytes" where
  "sign_index X a doc =
     (case cbor_encode X (index_doc_sval doc) of
        Inl e \<Rightarrow> Inl e | Inr payload \<Rightarrow> sign_payload X a (index_key a) payload)"

definition sign_whitelist :: "ext \<Rightarrow> authority \<Rightarrow> string \<Rightarrow> whitelist_doc \<Rightarrow> authority_error + bytes" where
  "sign_whitelist X a service doc =
     (case service_key a service of
        Inl e \<Rightarrow> Inl e
      | Inr key \<Rightarrow>
          (case cbor_encode X (whitelist_doc_sval doc) of
             Inl e \<Rightarrow> Inl e | Inr payload \<Rightarrow> sign_payload X a key payload))"

text \<open>A signature of the wrong length is refused before the curve check.\<close>

definition verify_cose_sign1 :: "ext \<Rightarrow> bytes \<Rightarrow> bytes \<Rightarrow> bytes \<Rightarrow> authority_error + bytes" where
  "verify_cose_sign1 X pk aad val =
     (case x_cose_dec X val of
        None \<Rightarrow> Inl Cose
      | Some (eddsa, payload, sig) \<Rightarrow>
          if \<not> eddsa then Inl Cose
          else if \<not> x_ed_key_ok X pk then Inl Cose
          else if length sig \<noteq> 64
            \<or> \<not> x_ed_verify X pk (x_cose_tbs X aad (case payload of None \<Rightarrow> [] | Some p \<Rightarrow> p)) sig then Inl Cose
          else (case payload of None \<Rightarrow> Inl Cose | Some p \<Rightarrow> Inr p))"

section \<open>Lemmas\<close>

lemma valid_name_no_slash: "is_valid_network_name s \<Longrightarrow> CHR ''/'' \<notin> set s"
  by (auto simp: is_valid_network_name_def is_ascii_alphanumeric_def list_all_iff)

text \<open>An authority's stored hash is that of its network; \<open>from_seed\<close> is its only constructor.\<close>

definition auth_wf :: "ext \<Rightarrow> authority \<Rightarrow> bool" where
  "auth_wf X a \<longleftrightarrow> is_valid_network_name (au_network a) \<and> au_net_hash a = net_hash X (au_network a)"

lemma from_seed_wf: "from_seed X seed n = Inr a \<Longrightarrow> auth_wf X a \<and> au_network a = n \<and> au_key a = seed"
  by (auto simp: from_seed_def auth_wf_def split: if_splits)

lemma service_key_ok:
  "service_key a s = Inr k \<longleftrightarrow>
   is_valid_service_name s \<and> k = AUTH_PREFIX @ ''/'' @ au_net_hash a @ ''/'' @ s"
  by (auto simp: service_key_def)

lemma record_key_inject:
  assumes "CHR ''/'' \<notin> set h" "CHR ''/'' \<notin> set h'"
  shows "AUTH_PREFIX @ ''/'' @ h @ ''/'' @ s = AUTH_PREFIX @ ''/'' @ h' @ ''/'' @ s' \<longleftrightarrow> h = h' \<and> s = s'"
  using terminated_append_inject [OF assms] by simp

lemma net_hash_inject:
  assumes "b64url_law X" "sha256_injective X"
  shows "net_hash X n = net_hash X m \<longleftrightarrow> n = m"
proof
  assume "net_hash X n = net_hash X m"
  then have "x_sha256 X n = x_sha256 X m"
    using assms(1) unfolding net_hash_def b64url_law_def by (metis option.inject)
  then show "n = m"
    using assms(2) by (simp add: sha256_injective_def)
qed simp

lemma net_hash_no_slash: "b64url_law X \<Longrightarrow> CHR ''/'' \<notin> set (net_hash X n)"
  by (simp add: b64url_law_def net_hash_def)

lemma sign_payload_verifies:
  assumes "sig_law X" "cose_law X"
  shows "\<exists>e. sign_payload X a aad p = Inr e \<and> verify_cose_sign1 X (public_key_bytes X a) aad e = Inr p"
proof -
  let ?s = "x_ed_sign X (au_key a) (x_cose_tbs X aad p)"
  obtain e where "x_cose_enc X p ?s = Some e" "x_cose_dec X e = Some (True, Some p, ?s)"
    using assms(2) unfolding cose_law_def by blast
  then show ?thesis
    using assms(1) by (simp add: sign_payload_def verify_cose_sign1_def public_key_bytes_def sig_law_def)
qed

section \<open>Properties\<close>

text \<open>
  Record keys do not collide. Two authorities give two valid service names the same key only for
  the same network and the same service, and no service key is an index key, whatever the network.
\<close>

theorem record_keys_distinct:
  assumes "b64url_law X" "sha256_injective X" "auth_wf X a" "auth_wf X b"
    and "service_key a s = Inr k" "service_key b t = Inr k'"
  shows "(k = k' \<longleftrightarrow> au_network a = au_network b \<and> s = t) \<and> k \<noteq> index_key b \<and>
    (index_key a = index_key b \<longleftrightarrow> au_network a = au_network b) \<and>
    index_key a = index_key_for X (au_network a)"
proof -
  have h: "au_net_hash a = net_hash X (au_network a)" "au_net_hash b = net_hash X (au_network b)"
    using assms(3,4) by (simp_all add: auth_wf_def)
  note k = assms(5,6) [unfolded service_key_ok]
  note inj = record_key_inject [OF net_hash_no_slash net_hash_no_slash, OF assms(1,1)]
  have "s \<noteq> RESERVED_SERVICE"
    using k by (simp add: is_valid_service_name_def)
  then show ?thesis
    using k inj net_hash_inject [OF assms(1,2)]
    by (simp add: h index_key_def index_key_for_def)
qed

lemma demo_name_ok: "is_valid_service_name ''cmd''" "is_valid_network_name ''net''" "is_valid_network_name ''lab''"
  by (simp_all add: is_valid_service_name_def is_valid_network_name_def
      is_ascii_alphanumeric_def)

theorem record_keys_distinct_witness:
  "\<exists>a b. from_seed demo_ext ''s'' ''net'' = Inr a \<and> from_seed demo_ext ''s'' ''lab'' = Inr b \<and>
     service_key a ''cmd'' \<noteq> service_key b ''cmd'' \<and> service_key a ''cmd'' \<noteq> Inr (index_key b)"
proof -
  obtain a b where ab: "from_seed demo_ext ''s'' ''net'' = Inr a" "from_seed demo_ext ''s'' ''lab'' = Inr b"
    by (simp add: from_seed_def demo_name_ok)
  obtain k k' where k: "service_key a ''cmd'' = Inr k" "service_key b ''cmd'' = Inr k'"
    by (simp add: service_key_def demo_name_ok)
  show ?thesis
    using record_keys_distinct [OF _ _ _ _ k, of demo_ext] from_seed_wf [OF ab(1)] from_seed_wf [OF ab(2)] ab k
    by (intro exI [of _ a] exI [of _ b]) simp
qed

text \<open>
  C29: What the authority signs verifies. A signed whitelist record verifies under the service's key
  with the authority's public key and gives back the encoded document; so does a signed index under
  the index key.
\<close>

theorem signed_records_verify:
  assumes "sig_law X" "cose_law X" "cbor_law X" "is_valid_service_name s"
  shows "\<exists>k rec p irec q. service_key a s = Inr k \<and> sign_whitelist X a s doc = Inr rec \<and>
    x_cbor X (whitelist_doc_sval doc) = Some p \<and>
    verify_cose_sign1 X (public_key_bytes X a) k rec = Inr p \<and>
    sign_index X a idoc = Inr irec \<and> x_cbor X (index_doc_sval idoc) = Some q \<and>
    verify_cose_sign1 X (public_key_bytes X a) (index_key a) irec = Inr q"
proof -
  obtain p q where "x_cbor X (whitelist_doc_sval doc) = Some p" "x_cbor X (index_doc_sval idoc) = Some q"
    using assms(3) unfolding cbor_law_def by blast
  then show ?thesis
    using sign_payload_verifies [OF assms(1,2), of a _ p] sign_payload_verifies [OF assms(1,2), of a _ q] assms(4)
    by (simp add: service_key_def sign_whitelist_def sign_index_def cbor_encode_def)
qed

theorem signed_records_verify_witness:
  "\<exists>rec. sign_whitelist demo_ext \<lparr>au_key = ''k'', au_network = ''net'', au_net_hash = ''h''\<rparr> ''cmd''
     \<lparr>wl_version = 1, wl_members = [''p'']\<rparr> = Inr rec"
  using signed_records_verify [OF _ _ _ demo_name_ok(1), of demo_ext] by (simp, blast)

end
