(* ===== verification/BTree_Map.thy ===== *)
theory BTree_Map
  imports Prelude
begin

text \<open>
  Rust's \<open>BTreeMap\<close>: a finite map whose iteration order is the order of its keys. It is the type of
  association lists with strictly increasing keys, so two maps with the same lookups are equal. The
  interface the components rely on is the locale \<open>ordered_map\<close>; \<open>bt\<close> is its interpretation. A
  \<open>BTreeSet\<close> is an \<^typ>\<open>'a fset\<close> iterated by \<^const>\<open>sorted_list_of_fset\<close>.
\<close>

section \<open>Sorted association lists\<close>

fun upd_sorted :: "'k::linorder \<Rightarrow> 'v \<Rightarrow> ('k \<times> 'v) list \<Rightarrow> ('k \<times> 'v) list" where
  "upd_sorted k v [] = [(k, v)]"
| "upd_sorted k v ((a, b) # ps) =
     (if k < a then (k, v) # (a, b) # ps
      else if k = a then (k, v) # ps
      else (a, b) # upd_sorted k v ps)"

lemma map_of_upd_sorted: "map_of (upd_sorted k v ps) = (map_of ps)(k \<mapsto> v)"
  by (induction ps) auto

lemma keys_upd_sorted: "fst ` set (upd_sorted k v ps) = insert k (fst ` set ps)"
proof (induction ps)
  case (Cons p ps)
  then show ?case by (cases p) (auto simp: image_iff)
qed simp

lemma sorted_upd_sorted:
  "sorted_wrt (<) (map fst ps) \<Longrightarrow> sorted_wrt (<) (map fst (upd_sorted k v ps))"
proof (induction ps)
  case (Cons p ps)
  then show ?case
    using keys_upd_sorted [of k v ps] by (cases p) (auto simp: Ball_def)
qed simp

lemma sorted_keys_filter:
  "sorted_wrt (<) (map fst ps) \<Longrightarrow> sorted_wrt (<) (map fst (filter P ps))"
  by (induction ps) auto

lemma map_of_filter_key: "map_of (filter (\<lambda>p. fst p \<noteq> k) ps) = (map_of ps)(k := None)"
  by (induction ps) (auto simp: fun_eq_iff)

lemma map_of_filter_distinct:
  "distinct (map fst ps) \<Longrightarrow>
   map_of (filter (\<lambda>p. P (fst p) (snd p)) ps) k =
   (case map_of ps k of Some v \<Rightarrow> if P k v then Some v else None | None \<Rightarrow> None)"
  by (induction ps) (auto split: option.splits simp: image_iff dest: map_of_SomeD)

lemma strict_sorted_keys: "sorted_wrt (<) (map fst ps) \<Longrightarrow> sorted (map fst ps) \<and> distinct (map fst ps)"
  for ps :: "('k::linorder \<times> 'v) list"
  using strict_sorted_iff by blast

lemma sorted_alist_unique:
  fixes xs ys :: "('k::linorder \<times> 'v) list"
  assumes "sorted_wrt (<) (map fst xs)" "sorted_wrt (<) (map fst ys)" "map_of xs = map_of ys"
  shows "xs = ys"
proof -
  have d: "distinct (map fst xs)" "distinct (map fst ys)" "sorted (map fst xs)" "sorted (map fst ys)"
    using assms strict_sorted_keys by blast+
  then have "set xs = set ys"
    using assms(3) by (simp add: map_of_inject_set)
  with d show ?thesis
    by (metis map_sorted_distinct_set_unique distinct_map Un_absorb)
qed

section \<open>The type and its operations\<close>

typedef (overloaded) ('k::linorder, 'v) btmap = "{ps :: ('k \<times> 'v) list. sorted_wrt (<) (map fst ps)}"
  morphisms entries Abs_btmap
  by (rule exI [of _ "[]"]) simp

setup_lifting type_definition_btmap

lift_definition bt_empty :: "('k::linorder, 'v) btmap" is "[]" by simp

lift_definition bt_get :: "('k::linorder, 'v) btmap \<Rightarrow> 'k \<Rightarrow> 'v option" is map_of .

lift_definition bt_insert :: "'k::linorder \<Rightarrow> 'v \<Rightarrow> ('k, 'v) btmap \<Rightarrow> ('k, 'v) btmap" is upd_sorted
  by (rule sorted_upd_sorted)

lift_definition bt_remove :: "'k::linorder \<Rightarrow> ('k, 'v) btmap \<Rightarrow> ('k, 'v) btmap"
  is "\<lambda>k. filter (\<lambda>p. fst p \<noteq> k)" by (rule sorted_keys_filter)

lift_definition bt_retain :: "('k::linorder \<Rightarrow> 'v \<Rightarrow> bool) \<Rightarrow> ('k, 'v) btmap \<Rightarrow> ('k, 'v) btmap"
  is "\<lambda>P. filter (\<lambda>p. P (fst p) (snd p))" by (rule sorted_keys_filter)

definition bt_keys :: "('k::linorder, 'v) btmap \<Rightarrow> 'k list" where
  "bt_keys m = map fst (entries m)"

definition bt_len :: "('k::linorder, 'v) btmap \<Rightarrow> nat" where
  "bt_len m = length (entries m)"

definition bt_contains :: "('k::linorder, 'v) btmap \<Rightarrow> 'k \<Rightarrow> bool" where
  "bt_contains m k = (bt_get m k \<noteq> None)"

definition bt_of_list :: "('k::linorder \<times> 'v) list \<Rightarrow> ('k, 'v) btmap" where
  "bt_of_list ps = fold (\<lambda>(k, v). bt_insert k v) ps bt_empty"

text \<open>Equality of two maps is decided by the order of the keys and the equality of the values.\<close>

instantiation btmap :: (linorder, equal) equal
begin

definition equal_btmap :: "('a, 'b) btmap \<Rightarrow> ('a, 'b) btmap \<Rightarrow> bool" where
  "equal_btmap m m' =
     list_all2 (\<lambda>p q. fst p \<le> fst q \<and> fst q \<le> fst p \<and> HOL.equal (snd p) (snd q)) (entries m) (entries m')"

instance
proof
  fix m m' :: "('a, 'b) btmap"
  have "(\<lambda>p q. fst p \<le> fst q \<and> fst q \<le> fst p \<and> HOL.equal (snd p) (snd q)) = ((=) :: 'a \<times> 'b \<Rightarrow> _)"
    by (auto simp: fun_eq_iff equal_eq prod_eq_iff)
  then show "HOL.equal m m' \<longleftrightarrow> m = m'"
    by (simp add: equal_btmap_def list.rel_eq entries_inject)
qed

end

section \<open>The interface\<close>

text \<open>
  What the clients rely on: lookups after each operation, equality by lookups, and that iteration
  lists every entry once in key order.
\<close>

locale ordered_map =
  fixes empty_m :: "'m"
    and get :: "'m \<Rightarrow> 'k::linorder \<Rightarrow> 'v option"
    and ins :: "'k \<Rightarrow> 'v \<Rightarrow> 'm \<Rightarrow> 'm"
    and del :: "'k \<Rightarrow> 'm \<Rightarrow> 'm"
    and retain :: "('k \<Rightarrow> 'v \<Rightarrow> bool) \<Rightarrow> 'm \<Rightarrow> 'm"
    and ents :: "'m \<Rightarrow> ('k \<times> 'v) list"
  assumes get_empty: "get empty_m k = None"
    and get_ins: "get (ins k v m) k' = (if k' = k then Some v else get m k')"
    and get_del: "get (del k m) k' = (if k' = k then None else get m k')"
    and get_retain: "get (retain P m) k =
      (case get m k of Some v \<Rightarrow> if P k v then Some v else None | None \<Rightarrow> None)"
    and get_ents: "get m k = Some v \<longleftrightarrow> (k, v) \<in> set (ents m)"
    and sorted_ents: "sorted_wrt (<) (map fst (ents m))"
    and ext: "(\<And>k. get m k = get m' k) \<Longrightarrow> m = m'"
begin

lemma distinct_keys: "distinct (map fst (ents m))"
  using sorted_ents strict_sorted_keys by blast

lemma dom_ents: "{k. get m k \<noteq> None} = fst ` set (ents m)"
  using get_ents by force

lemma finite_dom: "finite {k. get m k \<noteq> None}"
  unfolding dom_ents by simp

lemma length_card: "length (ents m) = card {k. get m k \<noteq> None}"
  by (metis dom_ents distinct_keys distinct_card length_map set_map)

lemma ins_same: "get m k = Some v \<Longrightarrow> ins k v m = m"
  by (rule ext) (simp add: get_ins)

lemma ins_ins: "ins k v (ins k w m) = ins k v m"
  by (rule ext) (simp add: get_ins)

lemma ins_commute: "k \<noteq> k' \<Longrightarrow> ins k v (ins k' w m) = ins k' w (ins k v m)"
  by (rule ext) (simp add: get_ins)

lemma del_absent: "get m k = None \<Longrightarrow> del k m = m"
  by (rule ext) (simp add: get_del)

lemma del_ins: "del k (ins k v m) = del k m"
  by (rule ext) (simp add: get_ins get_del)

lemma length_del: "get m k = Some v \<Longrightarrow> Suc (length (ents (del k m))) = length (ents m)"
proof -
  assume "get m k = Some v"
  moreover have "{j. get (del k m) j \<noteq> None} = {j. get m j \<noteq> None} - {k}"
    by (auto simp: get_del)
  ultimately show ?thesis
    using card_Suc_Diff1 [OF finite_dom, of k m] unfolding length_card by simp
qed

lemma length_ins_le: "length (ents (ins k v m)) \<le> Suc (length (ents m))"
proof -
  have "{j. get (ins k v m) j \<noteq> None} = insert k {j. get m j \<noteq> None}"
    by (auto simp: get_ins)
  then show ?thesis
    using finite_dom [of m] unfolding length_card by (simp only: card_insert_if) simp
qed

end

lemma bt_get_retain_raw:
  "bt_get (bt_retain P m) k =
   (case bt_get m k of Some v \<Rightarrow> if P k v then Some v else None | None \<Rightarrow> None)"
  by transfer (simp add: map_of_filter_distinct strict_sorted_keys)

lemma bt_get_entries_raw: "bt_get m k = Some v \<longleftrightarrow> (k, v) \<in> set (entries m)"
  by transfer (simp add: map_of_eq_Some_iff strict_sorted_keys)

lemma bt_ext_raw: "(\<And>k. bt_get m k = bt_get m' k) \<Longrightarrow> m = m'"
  by transfer (simp add: sorted_alist_unique fun_eq_iff)

interpretation bt: ordered_map bt_empty bt_get bt_insert bt_remove bt_retain entries
proof (unfold_locales, goal_cases)
  case 1
  show ?case by transfer simp
next
  case 2
  show ?case by transfer (simp add: map_of_upd_sorted)
next
  case 3
  show ?case by transfer (simp add: map_of_filter_key)
next
  case 4
  show ?case by (rule bt_get_retain_raw)
next
  case 5
  show ?case by (rule bt_get_entries_raw)
next
  case (6 m)
  show ?case using entries [of m] by simp
next
  case 7
  then show ?case by (rule bt_ext_raw)
qed

lemmas bt_get_simps [simp, bt_simps] = bt.get_empty bt.get_ins bt.get_del bt.get_retain

lemmas bt_eqI = bt.ext

lemma bt_contains_iff [simp, bt_simps]: "bt_contains m k \<longleftrightarrow> (\<exists>v. bt_get m k = Some v)"
  by (simp add: bt_contains_def)

lemma set_bt_keys [bt_simps]: "set (bt_keys m) = {k. bt_get m k \<noteq> None}"
  unfolding bt.dom_ents by (simp add: bt_keys_def)

lemma sorted_bt_keys: "sorted_wrt (<) (bt_keys m)"
  by (simp add: bt_keys_def bt.sorted_ents)

lemma bt_len_insert_le: "bt_len (bt_insert k v m) \<le> Suc (bt_len m)"
  by (simp add: bt_len_def bt.length_ins_le)

lemma bt_len_remove: "bt_get m k = Some v \<Longrightarrow> Suc (bt_len (bt_remove k m)) = bt_len m"
  by (simp add: bt_len_def bt.length_del)

lemma bt_len_retain_le: "bt_len (bt_retain P m) \<le> bt_len m"
  by (simp add: bt_len_def bt_retain.rep_eq)

lemma bt_of_list_simps [simp]:
  "bt_of_list [] = bt_empty"
  "bt_of_list (ps @ [(k, v)]) = bt_insert k v (bt_of_list ps)"
  by (simp_all add: bt_of_list_def)

lemma entries_simps [simp]:
  "entries bt_empty = []"
  "entries (bt_insert k v m) = upd_sorted k v (entries m)"
  "entries (bt_remove k m) = filter (\<lambda>p. fst p \<noteq> k) (entries m)"
  by (simp_all add: bt_empty.rep_eq bt_insert.rep_eq bt_remove.rep_eq)

end
