(* ===== verification/Store.thy ===== *)
theory Store
  imports Authority BTree_Map "HOL-Library.Product_Lexorder"
begin

text \<open>
  \<open>src/store.rs\<close>: the membership state of the old multi-writer path. A state is services with a
  version and a member set, tombstones of deleted services, and an index version; it is saved as TOML
  through \<open>atomic_write\<close>. Every operation takes the third-party functions and the outcome of its
  file-system calls as the record \<open>store_env\<close>, and returns the result, the state in memory and the
  file system, because several operations change the memory before the save that may fail. The
  versions are \<^typ>\<open>u64\<close> and \<open>+= 1\<close> wraps, as in a release build.
\<close>

section \<open>Data\<close>

datatype store_error =
    St_Io io_error
  | St_Parse string
  | St_NetworkMismatch string string
  | St_InvalidService string
  | St_InvalidPeer string
  | St_NotFound string
  | St_AlreadyExists string
  | St_Panic

text \<open>\<open>St_Panic\<close> is not a value of the source: it is the outcome of its \<open>expect\<close> and index panics.\<close>

record service_state =
  ss_version :: u64
  ss_members :: "string fset"

record snapshot =
  sn_network :: string
  sn_index_version :: u64
  sn_services :: "(string, service_state) btmap"
  sn_tombstones :: "(string, u64) btmap"

record store =
  st_path :: path
  st_network :: string
  st_index_version :: u64
  st_services :: "(string, service_state) btmap"
  st_tombstones :: "(string, u64) btmap"

record store_env =
  en_ext :: ext
  en_io :: io
  en_ser :: "snapshot \<Rightarrow> string + bytes"
  en_de :: "bytes \<Rightarrow> string + snapshot"

text \<open>The TOML of a snapshot is UTF-8 and reads back as the snapshot.\<close>

definition toml_law :: "store_env \<Rightarrow> snapshot \<Rightarrow> bool" where
  "toml_law E s \<longleftrightarrow> (\<exists>b. en_ser E s = Inr b \<and> en_de E b = Inr s \<and> valid_utf8 b)"

section \<open>Loading and saving\<close>

definition store_snapshot :: "store \<Rightarrow> snapshot" where
  "store_snapshot s = \<lparr>sn_network = st_network s, sn_index_version = st_index_version s,
     sn_services = st_services s, sn_tombstones = st_tombstones s\<rparr>"

definition save :: "store_env \<Rightarrow> store \<Rightarrow> fs \<Rightarrow> (store_error + unit) \<times> fs" where
  "save E s f =
     (case en_ser E (store_snapshot s) of
        Inl m \<Rightarrow> (Inl (St_Parse m), f)
      | Inr d \<Rightarrow>
          (case atomic_write (en_io E) (st_path s) d (Some 0x180) f of
             (Inl x, f') \<Rightarrow> (Inl (St_Io x), f')
           | (Inr _, f') \<Rightarrow> (Inr (), f')))"

fun validate_peers :: "ext \<Rightarrow> string list \<Rightarrow> store_error + unit" where
  "validate_peers X [] = Inr ()"
| "validate_peers X (p # ps) = (if is_valid_peer_id X p then validate_peers X ps else Inl (St_InvalidPeer p))"

text \<open>The seeding loop of \<open>load_or_create\<close>: the members are checked one by one as they are inserted.\<close>

fun seed_services ::
  "ext \<Rightarrow> (string \<times> string list) list \<Rightarrow> (string, service_state) btmap \<Rightarrow>
   store_error + (string, service_state) btmap" where
  "seed_services X [] m = Inr m"
| "seed_services X ((name, members) # rest) m =
     (if \<not> is_valid_service_name name then Inl (St_InvalidService name)
      else (case validate_peers X members of
         Inl e \<Rightarrow> Inl e
       | Inr _ \<Rightarrow> seed_services X rest
           (bt_insert name \<lparr>ss_version = 1, ss_members = fset_of_list members\<rparr> m)))"

definition load_or_create ::
  "store_env \<Rightarrow> path \<Rightarrow> string \<Rightarrow> (string, string list) btmap \<Rightarrow> fs \<Rightarrow> (store_error + store) \<times> fs" where
  "load_or_create E p network initial f =
     (case read_to_string (en_io E) p f of
        Inr content \<Rightarrow>
          (case en_de E content of
             Inl m \<Rightarrow> (Inl (St_Parse m), f)
           | Inr sn \<Rightarrow>
               if sn_network sn \<noteq> network then (Inl (St_NetworkMismatch network (sn_network sn)), f)
               else (Inr \<lparr>st_path = p, st_network = network, st_index_version = sn_index_version sn,
                       st_services = sn_services sn, st_tombstones = sn_tombstones sn\<rparr>, f))
      | Inl Io_NotFound \<Rightarrow>
          (case seed_services (en_ext E) (entries initial) bt_empty of
             Inl e \<Rightarrow> (Inl e, f)
           | Inr services \<Rightarrow>
               (let s = \<lparr>st_path = p, st_network = network, st_index_version = 1,
                         st_services = services, st_tombstones = bt_empty\<rparr> in
                case save E s f of
                  (Inl e, f') \<Rightarrow> (Inl e, f')
                | (Inr _, f') \<Rightarrow> (Inr s, f')))
      | Inl x \<Rightarrow> (Inl (St_Io x), f))"

definition from_snapshot ::
  "store_env \<Rightarrow> path \<Rightarrow> string \<Rightarrow> snapshot \<Rightarrow> fs \<Rightarrow> (store_error + store) \<times> fs" where
  "from_snapshot E p network sn f =
     (if sn_network sn \<noteq> network then (Inl (St_NetworkMismatch network (sn_network sn)), f)
      else
        let s = \<lparr>st_path = p, st_network = network, st_index_version = sn_index_version sn,
                 st_services = sn_services sn, st_tombstones = sn_tombstones sn\<rparr> in
        case save E s f of
          (Inl e, f') \<Rightarrow> (Inl e, f')
        | (Inr _, f') \<Rightarrow> (Inr s, f'))"

section \<open>Reading\<close>

abbreviation service_names :: "store \<Rightarrow> string list" where
  "service_names s \<equiv> bt_keys (st_services s)"

abbreviation store_contains :: "store \<Rightarrow> string \<Rightarrow> bool" where
  "store_contains s service \<equiv> bt_contains (st_services s) service"

abbreviation store_version :: "store \<Rightarrow> string \<Rightarrow> u64 option" where
  "store_version s service \<equiv> map_option ss_version (bt_get (st_services s) service)"

definition store_members :: "store \<Rightarrow> string \<Rightarrow> string list option" where
  "store_members s service = map_option (\<lambda>t. sorted_list_of_fset (ss_members t)) (bt_get (st_services s) service)"

abbreviation member_count :: "store \<Rightarrow> string \<Rightarrow> nat option" where
  "member_count s service \<equiv> map_option (\<lambda>t. fcard (ss_members t)) (bt_get (st_services s) service)"

section \<open>Local changes\<close>

text \<open>The loops \<open>changed |= members.insert(p)\<close> and \<open>changed |= members.remove(p)\<close>.\<close>

fun insert_all :: "string list \<Rightarrow> string fset \<times> bool \<Rightarrow> string fset \<times> bool" where
  "insert_all [] (ms, ch) = (ms, ch)"
| "insert_all (p # ps) (ms, ch) = insert_all ps (finsert p ms, ch \<or> p |\<notin>| ms)"

fun remove_all :: "string list \<Rightarrow> string fset \<times> bool \<Rightarrow> string fset \<times> bool" where
  "remove_all [] (ms, ch) = (ms, ch)"
| "remove_all (p # ps) (ms, ch) = remove_all ps (ms |-| {|p|}, ch \<or> p |\<in>| ms)"

definition finish_change ::
  "store_env \<Rightarrow> string \<Rightarrow> bool \<Rightarrow> store \<Rightarrow> fs \<Rightarrow> (store_error + u64) \<times> store \<times> fs" where
  "finish_change E service changed s f =
     (case bt_get (st_services s) service of
        None \<Rightarrow> (Inl St_Panic, s, f)
      | Some t \<Rightarrow>
          if \<not> changed then (Inr (ss_version t), s, f)
          else
            let v = ss_version t + 1;
                s' = s\<lparr>st_services := bt_insert service (t\<lparr>ss_version := v\<rparr>) (st_services s),
                       st_index_version := st_index_version s + 1\<rparr>
            in (Inr v, s', snd (save E s' f)))"

text \<open>
  The common shape of the three member operations: check the peers, look the service up, edit its
  members in place, and finish.
\<close>

definition edit_members ::
  "store_env \<Rightarrow> (string list \<Rightarrow> string fset \<Rightarrow> string fset \<times> bool) \<Rightarrow> string \<Rightarrow> string list \<Rightarrow>
   store \<Rightarrow> fs \<Rightarrow> (store_error + u64) \<times> store \<times> fs" where
  "edit_members E edit service peers s f =
     (case validate_peers (en_ext E) peers of
        Inl e \<Rightarrow> (Inl e, s, f)
      | Inr _ \<Rightarrow>
          (case bt_get (st_services s) service of
             None \<Rightarrow> (Inl (St_NotFound service), s, f)
           | Some t \<Rightarrow>
               (case edit peers (ss_members t) of (ms, changed) \<Rightarrow>
                  finish_change E service changed
                    (s\<lparr>st_services := bt_insert service (t\<lparr>ss_members := ms\<rparr>) (st_services s)\<rparr>) f)))"

definition add_edit :: "string list \<Rightarrow> string fset \<Rightarrow> string fset \<times> bool" where
  "add_edit peers ms = insert_all peers (ms, False)"

definition remove_edit :: "string list \<Rightarrow> string fset \<Rightarrow> string fset \<times> bool" where
  "remove_edit peers ms = remove_all peers (ms, False)"

definition set_edit :: "string list \<Rightarrow> string fset \<Rightarrow> string fset \<times> bool" where
  "set_edit peers ms = (let new = fset_of_list peers; changed = (ms \<noteq> new) in
     (if changed then new else ms, changed))"

definition add_members where
  "add_members E = edit_members E add_edit"

definition remove_members where
  "remove_members E = edit_members E remove_edit"

definition set_members where
  "set_members E = edit_members E set_edit"

definition create_service ::
  "store_env \<Rightarrow> string \<Rightarrow> string list \<Rightarrow> store \<Rightarrow> fs \<Rightarrow> (store_error + u64) \<times> store \<times> fs" where
  "create_service E service peers s f =
     (if \<not> is_valid_service_name service then (Inl (St_InvalidService service), s, f)
      else (case validate_peers (en_ext E) peers of
         Inl e \<Rightarrow> (Inl e, s, f)
       | Inr _ \<Rightarrow>
           if bt_contains (st_services s) service then (Inl (St_AlreadyExists service), s, f)
           else
             let s' = s\<lparr>st_services := bt_insert service
                          \<lparr>ss_version = 1, ss_members = fset_of_list peers\<rparr> (st_services s),
                        st_index_version := st_index_version s + 1\<rparr>
             in case save E s' f of
                  (Inl e, f') \<Rightarrow> (Inl e, s', f')
                | (Inr _, f') \<Rightarrow> (Inr 1, s', f')))"

definition delete_service ::
  "store_env \<Rightarrow> string \<Rightarrow> store \<Rightarrow> fs \<Rightarrow> (store_error + u64) \<times> store \<times> fs" where
  "delete_service E service s f =
     (case bt_get (st_services s) service of
        None \<Rightarrow> (Inl (St_NotFound service), s, f)
      | Some t \<Rightarrow>
          let tombstone = ss_version t + 1;
              s' = s\<lparr>st_services := bt_remove service (st_services s),
                     st_tombstones := bt_insert service tombstone (st_tombstones s),
                     st_index_version := st_index_version s + 1\<rparr>
          in case save E s' f of
               (Inl e, f') \<Rightarrow> (Inl e, s', f')
             | (Inr _, f') \<Rightarrow> (Inr tombstone, s', f'))"

section \<open>Replication\<close>

definition members_hash :: "ext \<Rightarrow> string fset \<Rightarrow> bytes" where
  "members_hash X ms = content_hash X (concat (map (\<lambda>m. m @ [CHR 0x00]) (sorted_list_of_fset ms)))"

definition merge_service ::
  "ext \<Rightarrow> string \<Rightarrow> u64 \<Rightarrow> string list \<Rightarrow> bool \<Rightarrow> store \<Rightarrow> (store_error + bool) \<times> store" where
  "merge_service X service v ms deleted s =
     (if \<not> is_valid_service_name service then (Inl (St_InvalidService service), s)
      else
        let current = (case bt_get (st_services s) service of Some t \<Rightarrow> ss_version t | None \<Rightarrow> 0);
            tombstone = (case bt_get (st_tombstones s) service of Some t \<Rightarrow> t | None \<Rightarrow> 0)
        in
          if deleted then
            (if v < current \<or> v < tombstone then (Inr False, s)
             else if \<not> bt_contains (st_services s) service \<and> tombstone \<ge> v then (Inr False, s)
             else (Inr True, s\<lparr>st_services := bt_remove service (st_services s),
                              st_tombstones := bt_insert service v (st_tombstones s)\<rparr>))
          else
            (case validate_peers X ms of
               Inl e \<Rightarrow> (Inl e, s)
             | Inr _ \<Rightarrow>
                 if v \<le> tombstone \<or> v < current then (Inr False, s)
                 else
                   let incoming = fset_of_list ms;
                       accept = (Inr True, s\<lparr>st_services := bt_insert service
                           \<lparr>ss_version = v, ss_members = incoming\<rparr> (st_services s),
                         st_tombstones := bt_remove service (st_tombstones s)\<rparr>)
                   in
                     if v = current then
                       (case bt_get (st_services s) service of
                          None \<Rightarrow> (Inl St_Panic, s)
                        | Some existing \<Rightarrow>
                            if ss_members existing = incoming then (Inr False, s)
                            else if members_hash X (ss_members existing) \<ge> members_hash X incoming
                              then (Inr False, s)
                            else accept)
                     else accept))"

definition merge_entry ::
  "ext \<Rightarrow> string \<Rightarrow> u64 \<Rightarrow> string list \<Rightarrow> u64 \<Rightarrow> bool \<Rightarrow> store \<Rightarrow> (store_error + bool) \<times> store" where
  "merge_entry X service v ms index_version deleted s =
     (case merge_service X service v ms deleted s of
        (Inl e, s') \<Rightarrow> (Inl e, s')
      | (Inr entry_changed, s') \<Rightarrow>
          let index_changed = (index_version > st_index_version s') in
          (Inr (entry_changed \<or> index_changed),
           if index_changed then s'\<lparr>st_index_version := index_version\<rparr> else s'))"

definition apply_replicated ::
  "store_env \<Rightarrow> string \<Rightarrow> u64 \<Rightarrow> string list \<Rightarrow> u64 \<Rightarrow> bool \<Rightarrow> store \<Rightarrow> fs \<Rightarrow>
   (store_error + bool) \<times> store \<times> fs" where
  "apply_replicated E service v ms index_version deleted s f =
     (case merge_entry (en_ext E) service v ms index_version deleted s of
        (Inl e, s') \<Rightarrow> (Inl e, s', f)
      | (Inr changed, s') \<Rightarrow>
          if changed then
            (case save E s' f of
               (Inl e, f') \<Rightarrow> (Inl e, s', f')
             | (Inr _, f') \<Rightarrow> (Inr changed, s', f'))
          else (Inr changed, s', f))"

text \<open>One loop of \<open>merge_snapshot\<close>: it stops at the first error with what was merged so far.\<close>

fun merge_entries ::
  "ext \<Rightarrow> u64 \<Rightarrow> (string \<times> u64 \<times> string list \<times> bool) list \<Rightarrow> bool \<Rightarrow> store \<Rightarrow> (store_error + bool) \<times> store" where
  "merge_entries X idx [] ch s = (Inr ch, s)"
| "merge_entries X idx ((name, v, ms, deleted) # rest) ch s =
     (case merge_entry X name v ms idx deleted s of
        (Inl e, s') \<Rightarrow> (Inl e, s')
      | (Inr c, s') \<Rightarrow> merge_entries X idx rest (ch \<or> c) s')"

definition snapshot_entries :: "snapshot \<Rightarrow> (string \<times> u64 \<times> string list \<times> bool) list" where
  "snapshot_entries sn =
     map (\<lambda>(name, t). (name, ss_version t, sorted_list_of_fset (ss_members t), False)) (entries (sn_services sn))
     @ map (\<lambda>(name, v). (name, v, [], True)) (entries (sn_tombstones sn))"

definition merge_snapshot ::
  "store_env \<Rightarrow> snapshot \<Rightarrow> store \<Rightarrow> fs \<Rightarrow> (store_error + bool) \<times> store \<times> fs" where
  "merge_snapshot E sn s f =
     (case merge_entries (en_ext E) (sn_index_version sn) (snapshot_entries sn) False s of
        (Inl e, s') \<Rightarrow> (Inl e, s', f)
      | (Inr changed, s') \<Rightarrow>
          if changed then
            (case save E s' f of
               (Inl e, f') \<Rightarrow> (Inl e, s', f')
             | (Inr _, f') \<Rightarrow> (Inr changed, s', f'))
          else (Inr changed, s', f))"

definition set_index_version ::
  "store_env \<Rightarrow> u64 \<Rightarrow> store \<Rightarrow> fs \<Rightarrow> (store_error + unit) \<times> store \<times> fs" where
  "set_index_version E v s f =
     (if st_index_version s \<noteq> v then
        let s' = s\<lparr>st_index_version := v\<rparr> in
        case save E s' f of (r, f') \<Rightarrow> (r, s', f')
      else (Inr (), s, f))"

definition bump_index_version :: "store_env \<Rightarrow> store \<Rightarrow> fs \<Rightarrow> u64 \<times> store \<times> fs" where
  "bump_index_version E s f =
     (let s' = s\<lparr>st_index_version := st_index_version s + 1\<rparr> in
      (st_index_version s', s', snd (save E s' f)))"

section \<open>Loops and saving\<close>

lemma insert_all_eq: "insert_all ps (ms, ch) = (ms |\<union>| fset_of_list ps, ch \<or> \<not> fset_of_list ps |\<subseteq>| ms)"
  by (induction ps arbitrary: ms ch) auto

lemma remove_all_eq: "remove_all ps (ms, ch) = (ms |-| fset_of_list ps, ch \<or> ms |\<inter>| fset_of_list ps \<noteq> {||})"
  by (induction ps arbitrary: ms ch) auto

lemma edits_changed:
  "snd (add_edit ps ms) \<longleftrightarrow> fst (add_edit ps ms) \<noteq> ms"
  "snd (remove_edit ps ms) \<longleftrightarrow> fst (remove_edit ps ms) \<noteq> ms"
  "snd (set_edit ps ms) \<longleftrightarrow> fst (set_edit ps ms) \<noteq> ms"
  by (auto simp: add_edit_def remove_edit_def set_edit_def insert_all_eq remove_all_eq Let_def)

lemma edits_members:
  "fst (add_edit ps ms) = ms |\<union>| fset_of_list ps"
  "fst (remove_edit ps ms) = ms |-| fset_of_list ps"
  "fst (set_edit ps ms) = fset_of_list ps"
  by (auto simp: add_edit_def remove_edit_def set_edit_def insert_all_eq remove_all_eq Let_def)

lemma validate_peers_iff: "validate_peers X ps = Inr u \<longleftrightarrow> (\<forall>p \<in> set ps. is_valid_peer_id X p)"
  by (induction ps) auto

lemma validate_peers_err: "validate_peers X ps = Inl e \<Longrightarrow> \<exists>p \<in> set ps. e = St_InvalidPeer p \<and> \<not> is_valid_peer_id X p"
  by (induction ps) (auto split: if_splits)

lemma snapshot_store_eq:
  "store_snapshot s = store_snapshot s' \<Longrightarrow> st_path s = st_path s' \<Longrightarrow> s = s'"
  by (simp add: store_snapshot_def)

text \<open>A save that succeeds leaves the file from which \<open>load_or_create\<close> reads the same store back.\<close>

lemma save_readback:
  assumes "toml_law E (store_snapshot s)" "has_temp (st_path s)" "save E s f = (Inr u, f')" "io_read (en_io E') = None"
    and "en_de E' = en_de E"
  shows "load_or_create E' (st_path s) (st_network s) init f' = (Inr s, f')"
proof -
  obtain b where b: "en_ser E (store_snapshot s) = Inr b" "en_de E b = Inr (store_snapshot s)" "valid_utf8 b"
    using assms(1) unfolding toml_law_def by blast
  obtain u' where w: "atomic_write (en_io E) (st_path s) b (Some 0x180) f = (Inr u', f')"
    using assms(3) b(1) by (auto simp: save_def split: prod.splits sum.splits)
  then have "file_contents f' (st_path s) = Some b"
    using fcell.put_ok [of "st_path s" "(en_io E, Some 0x180)"] assms(2) by (auto simp: cell_put_def)
  then show ?thesis
    using b assms(4,5)
    by (auto simp: load_or_create_def read_to_string_def fs_read_def file_contents_def store_snapshot_def)
qed

section \<open>What each local operation does\<close>

text \<open>The state after a member edit that passed its checks.\<close>

definition edited :: "(string list \<Rightarrow> string fset \<Rightarrow> string fset \<times> bool) \<Rightarrow> string \<Rightarrow> string list \<Rightarrow>
  service_state \<Rightarrow> store \<Rightarrow> store" where
  "edited edit service peers t s =
     (if snd (edit peers (ss_members t)) then
        s\<lparr>st_services := bt_insert service
             \<lparr>ss_version = ss_version t + 1, ss_members = fst (edit peers (ss_members t))\<rparr> (st_services s),
          st_index_version := st_index_version s + 1\<rparr>
      else s)"

lemma edit_members_ok:
  assumes "\<And>ps ms. snd (edit ps ms) \<longleftrightarrow> fst (edit ps ms) \<noteq> ms"
    and "\<forall>p \<in> set peers. is_valid_peer_id (en_ext E) p" "bt_get (st_services s) service = Some t"
  shows "\<exists>f'. edit_members E edit service peers s f =
    (Inr (if snd (edit peers (ss_members t)) then ss_version t + 1 else ss_version t),
     edited edit service peers t s, f')"
proof -
  have v: "validate_peers (en_ext E) peers = Inr ()"
    using assms(2) by (simp add: validate_peers_iff)
  have t: "t\<lparr>ss_members := ms, ss_version := v\<rparr> = \<lparr>ss_version = v, ss_members = ms\<rparr>" for ms v
    by (cases t) simp
  show ?thesis
  proof (cases "snd (edit peers (ss_members t))")
    case True
    then show ?thesis
      using assms(3) v by (simp add: edit_members_def finish_change_def edited_def bt.ins_ins
          case_prod_unfold Let_def t)
  next
    case False
    then have "fst (edit peers (ss_members t)) = ss_members t"
      using assms(1) by blast
    then show ?thesis
      using False assms(3) v by (simp add: edit_members_def finish_change_def edited_def
          case_prod_unfold bt.ins_same)
  qed
qed

lemma edit_members_err:
  "fst (edit_members E edit service peers s f) = Inl e \<Longrightarrow>
   edit_members E edit service peers s f = (Inl e, s, f) \<and> e \<noteq> St_Panic"
  by (auto simp: edit_members_def finish_change_def case_prod_unfold Let_def
      split: sum.splits option.splits if_splits dest: validate_peers_err)

section \<open>Properties\<close>

lemma create_service_saved:
  "create_service E n ps s f = (Inr v, s', f') \<Longrightarrow> save E s' f = (Inr (), f') \<and> st_path s' = st_path s \<and> st_network s' = st_network s"
  by (auto simp: create_service_def Let_def split: if_splits sum.splits prod.splits)

lemma delete_service_saved:
  "delete_service E n s f = (Inr v, s', f') \<Longrightarrow> save E s' f = (Inr (), f') \<and> st_path s' = st_path s \<and> st_network s' = st_network s"
  by (auto simp: delete_service_def Let_def split: option.splits sum.splits prod.splits)

text \<open>
  The three member operations. On a known service and valid peers, adding gives the union, removing
  the difference and setting the given set; the service's version and the index version go up by one
  exactly when the member set changed, and the returned number is the service's version.
\<close>

theorem member_operations:
  assumes "bt_get (st_services s) n = Some t" "\<forall>p \<in> set ps. is_valid_peer_id (en_ext E) p"
  shows "let M = ss_members t; P = fset_of_list ps;
      upd = (\<lambda>ms. if ms = M then s
        else s\<lparr>st_services := bt_insert n \<lparr>ss_version = ss_version t + 1, ss_members = ms\<rparr> (st_services s),
               st_index_version := st_index_version s + 1\<rparr>);
      ver = (\<lambda>ms. if ms = M then ss_version t else ss_version t + 1)
    in (\<exists>g. add_members E n ps s f = (Inr (ver (M |\<union>| P)), upd (M |\<union>| P), g))
     \<and> (\<exists>g. remove_members E n ps s f = (Inr (ver (M |-| P)), upd (M |-| P), g))
     \<and> (\<exists>g. set_members E n ps s f = (Inr (ver P), upd P, g))"
proof -
  have gen: "\<exists>g. edit_members E edit n ps s f = (Inr (if fst (edit ps (ss_members t)) = ss_members t then ss_version t
        else ss_version t + 1),
      if fst (edit ps (ss_members t)) = ss_members t then s
      else s\<lparr>st_services := bt_insert n \<lparr>ss_version = ss_version t + 1, ss_members = fst (edit ps (ss_members t))\<rparr>
             (st_services s), st_index_version := st_index_version s + 1\<rparr>, g)"
    if "\<And>ps ms. snd (edit ps ms) \<longleftrightarrow> fst (edit ps ms) \<noteq> ms" for edit
    using edit_members_ok [where edit = edit and E = E and f = f, OF that assms(2,1)] that
    by (cases "fst (edit ps (ss_members t)) = ss_members t") (simp_all add: edited_def)
  show ?thesis
    unfolding Let_def add_members_def remove_members_def set_members_def
    using gen [of add_edit, OF edits_changed(1)] gen [of remove_edit, OF edits_changed(2)]
      gen [of set_edit, OF edits_changed(3)]
    by (simp only: edits_members simp_thms)
qed

definition demo_store :: store where
  "demo_store = \<lparr>st_path = ([''data''], ''state.toml''), st_network = ''net'', st_index_version = 1,
     st_services = bt_empty, st_tombstones = bt_empty\<rparr>"

text \<open>An environment for the witnesses, whose TOML can encode one snapshot.\<close>

definition demo_env :: "snapshot \<Rightarrow> store_env" where
  "demo_env sn = \<lparr>en_ext = demo_ext, en_io = io_fine, en_ser = (\<lambda>_. Inr ''state''), en_de = (\<lambda>_. Inr sn)\<rparr>"

lemma demo_peer_ok [simp]: "is_valid_peer_id demo_ext p \<longleftrightarrow> p \<noteq> [] \<and> CHR 0x00 \<notin> set p"
  by (simp add: demo_ext_def is_valid_peer_id_def)

lemma demo_env_ext [simp]: "en_ext (demo_env sn) = demo_ext"
  by (simp add: demo_env_def)

lemma demo_toml [simp]: "toml_law (demo_env sn) sn"
  by (simp add: toml_law_def demo_env_def valid_utf8.simps utf8_char_def byte_in_def)

theorem member_operations_witness:
  "\<exists>g. set_members (demo_env (store_snapshot demo_store)) ''cmd'' [''p'', ''q'']
     (demo_store\<lparr>st_services := bt_insert ''cmd'' \<lparr>ss_version = 3, ss_members = {|''p''|}\<rparr> bt_empty\<rparr>) demo_fs =
   (Inr 4, demo_store\<lparr>st_services := bt_insert ''cmd'' \<lparr>ss_version = 4, ss_members = {|''p'', ''q''|}\<rparr> bt_empty,
      st_index_version := 2\<rparr>, g)"
  using member_operations [of "demo_store\<lparr>st_services := bt_insert ''cmd'' \<lparr>ss_version = 3, ss_members = {|''p''|}\<rparr> bt_empty\<rparr>"
      "''cmd''" "\<lparr>ss_version = 3, ss_members = {|''p''|}\<rparr>" "[''p'', ''q'']" "demo_env (store_snapshot demo_store)" demo_fs]
  by (auto simp: demo_store_def bt.ins_ins Let_def)

text \<open>
  A restart gives the state back. When \<open>create_service\<close> or \<open>delete_service\<close> reports success, a
  later \<open>load_or_create\<close> of the same file and network returns exactly the store then in memory,
  whatever services the configuration seeds.
\<close>

theorem restart_reads_back:
  assumes "toml_law E (store_snapshot s')" "has_temp (st_path s)" "io_read (en_io E') = None" "en_de E' = en_de E"
    and "create_service E n ps s f = (Inr v, s', f') \<or> delete_service E n s f = (Inr v, s', f')"
  shows "load_or_create E' (st_path s) (st_network s) init f' = (Inr s', f')"
proof -
  have *: "save E s' f = (Inr (), f')" "st_path s' = st_path s" "st_network s' = st_network s"
    using assms(5) create_service_saved delete_service_saved by blast+
  have "load_or_create E' (st_path s') (st_network s') init f' = (Inr s', f')"
    by (rule save_readback [OF assms(1) _ *(1) assms(3,4)]) (simp add: * assms(2))
  then show ?thesis
    by (simp add: *)
qed

definition demo_created :: store where
  "demo_created = demo_store\<lparr>st_services := bt_insert ''cmd'' \<lparr>ss_version = 1, ss_members = {|''p''|}\<rparr> bt_empty,
     st_index_version := 2\<rparr>"

theorem restart_reads_back_witness:
  "\<exists>f'. create_service (demo_env (store_snapshot demo_created)) ''cmd'' [''p''] demo_store demo_fs =
      (Inr 1, demo_created, f') \<and>
    load_or_create (demo_env (store_snapshot demo_created)) (st_path demo_store) ''net'' bt_empty f' = (Inr demo_created, f')"
proof -
  let ?E = "demo_env (store_snapshot demo_created)"
  have t: "has_temp (st_path demo_store)"
    by (simp add: demo_store_def has_temp_def with_extension_def file_stem_def)
  then have "fst (save ?E demo_created demo_fs) = Inr ()"
    using atomic_write_fine [of "st_path demo_store" "''state''" "Some 0x180" demo_fs]
    by (auto simp: save_def demo_env_def demo_created_def demo_store_def split: prod.splits sum.splits)
  then obtain f' where "save ?E demo_created demo_fs = (Inr (), f')"
    by (cases "save ?E demo_created demo_fs") simp
  then have c: "create_service ?E ''cmd'' [''p''] demo_store demo_fs = (Inr 1, demo_created, f')"
    using demo_name_ok by (simp add: create_service_def demo_store_def demo_created_def Let_def)
  have "load_or_create ?E (st_path demo_store) (st_network demo_store) bt_empty f' = (Inr demo_created, f')"
    by (rule restart_reads_back [OF _ t _ _ disjI1 [OF c]]) (simp_all add: demo_env_def io_fine_def toml_law_def
        valid_utf8.simps utf8_char_def byte_in_def)
  with c show ?thesis
    by (simp add: demo_store_def)
qed

end
