(* ===== verification/Store_Merge.thy ===== *)
theory Store_Merge
  imports Store
begin

text \<open>
  Convergence of the replicated store. The abstract specification of \<open>merge_service\<close> is a register per
  service (absent, live or deleted) and a join that keeps the entry with the larger key: version
  first, deletion before content at the same version, then the hash of the members. \<open>merge_service\<close>
  refines the join on clean stores, and stores that received the same messages in any order and any
  number of times are equal.
\<close>

section \<open>Registers\<close>

datatype reg = Absent | Live u64 "string fset" | Dead u64

definition reg_of :: "store \<Rightarrow> string \<Rightarrow> reg" where
  "reg_of s n =
     (case bt_get (st_services s) n of
        Some t \<Rightarrow> Live (ss_version t) (ss_members t)
      | None \<Rightarrow> (case bt_get (st_tombstones s) n of Some v \<Rightarrow> Dead v | None \<Rightarrow> Absent))"

definition put_reg :: "string \<Rightarrow> reg \<Rightarrow> store \<Rightarrow> store" where
  "put_reg n r s =
     (case r of
        Absent \<Rightarrow> s\<lparr>st_services := bt_remove n (st_services s), st_tombstones := bt_remove n (st_tombstones s)\<rparr>
      | Live v ms \<Rightarrow> s\<lparr>st_services := bt_insert n \<lparr>ss_version = v, ss_members = ms\<rparr> (st_services s),
                     st_tombstones := bt_remove n (st_tombstones s)\<rparr>
      | Dead v \<Rightarrow> s\<lparr>st_services := bt_remove n (st_services s),
                   st_tombstones := bt_insert n v (st_tombstones s)\<rparr>)"

fun reg_key :: "ext \<Rightarrow> reg \<Rightarrow> u64 \<times> nat \<times> bytes" where
  "reg_key X Absent = (0, 2, [])"
| "reg_key X (Live v ms) = (v, 0, members_hash X ms)"
| "reg_key X (Dead v) = (v, 1, [])"

text \<open>A store in which no service is both live and deleted, and every version is positive.\<close>

definition clean :: "store \<Rightarrow> bool" where
  "clean s \<longleftrightarrow>
     (\<forall>n t. bt_get (st_services s) n = Some t \<longrightarrow> bt_get (st_tombstones s) n = None \<and> ss_version t \<noteq> 0)
     \<and> (\<forall>n v. bt_get (st_tombstones s) n = Some v \<longrightarrow> v \<noteq> 0)"

definition reg_pos :: "reg \<Rightarrow> bool" where
  "reg_pos r = (case r of Live v _ \<Rightarrow> v \<noteq> 0 | Dead v \<Rightarrow> v \<noteq> 0 | Absent \<Rightarrow> True)"

lemma put_reg_of: "clean s \<Longrightarrow> put_reg n (reg_of s n) s = s"
  by (auto simp: put_reg_def reg_of_def clean_def bt.ins_same bt.del_absent split: option.splits)

lemma reg_of_put_reg: "reg_of (put_reg n r s) m = (if m = n then r else reg_of s m)"
  by (cases r) (simp_all add: put_reg_def reg_of_def split: option.splits)

lemma put_reg_fields [simp]:
  "st_index_version (put_reg n r s) = st_index_version s"
  "st_network (put_reg n r s) = st_network s" "st_path (put_reg n r s) = st_path s"
  by (cases r; simp add: put_reg_def)+

lemma clean_put_reg: "clean s \<Longrightarrow> reg_pos r \<Longrightarrow> clean (put_reg n r s)"
  by (cases r) (auto simp: clean_def put_reg_def reg_pos_def)

lemma clean_index [simp]: "clean (s\<lparr>st_index_version := v\<rparr>) = clean s"
  by (simp add: clean_def)

lemma reg_of_index [simp]: "reg_of (s\<lparr>st_index_version := v\<rparr>) n = reg_of s n"
  by (simp add: reg_of_def split: option.splits)

lemma clean_reg_pos: "clean s \<Longrightarrow> reg_pos (reg_of s n)"
  by (auto simp: clean_def reg_of_def reg_pos_def split: option.splits)

lemma clean_store_ext:
  assumes "clean s" "clean s'" "\<And>n. reg_of s n = reg_of s' n"
    and "st_index_version s = st_index_version s'" "st_network s = st_network s'" "st_path s = st_path s'"
  shows "s = s'"
proof -
  have "bt_get (st_services s) n = bt_get (st_services s') n \<and>
    bt_get (st_tombstones s) n = bt_get (st_tombstones s') n" for n
    using assms(1,2) assms(3) [of n]
    by (auto simp: reg_of_def clean_def split: option.splits)
  then have "st_services s = st_services s'" "st_tombstones s = st_tombstones s'"
    using bt_eqI by blast+
  then show ?thesis
    using assms(4-6) by simp
qed

section \<open>Joins by a key\<close>

text \<open>
  A last-writer-wins join: keep the value with the larger key. When distinct values have distinct
  keys, what a sequence of joins gives depends only on the set of joined values.
\<close>

locale lww_merge =
  fixes key :: "'r \<Rightarrow> 'k::linorder"
    and ok :: "'r \<Rightarrow> bool"
  assumes key_inj: "ok a \<Longrightarrow> ok b \<Longrightarrow> key a = key b \<Longrightarrow> a = b"
begin

definition join :: "'r \<Rightarrow> 'r \<Rightarrow> 'r" where
  "join a b = (if key a < key b then b else a)"

lemma key_join: "key (join a b) = max (key a) (key b)"
  by (auto simp: join_def max_def)

lemma ok_join: "ok a \<Longrightarrow> ok b \<Longrightarrow> ok (join a b)"
  by (simp add: join_def)

lemma join_commute: "ok a \<Longrightarrow> ok b \<Longrightarrow> join a b = join b a"
  using key_inj [of a b] by (auto simp: join_def)

lemma join_idem: "join a a = a"
  by (simp add: join_def)

lemma ok_fold: "ok a \<Longrightarrow> \<forall>b \<in> set bs. ok b \<Longrightarrow> ok (fold (\<lambda>b a. join a b) bs a)"
  by (induction bs arbitrary: a) (simp_all add: ok_join)

lemma key_fold: "key (fold (\<lambda>b a. join a b) bs a) = Max (insert (key a) (key ` set bs))"
proof (induction bs arbitrary: a)
  case (Cons b bs)
  have "Max (insert (max (key a) (key b)) (key ` set bs)) = Max (insert (key a) (insert (key b) (key ` set bs)))"
    by (cases "set bs = {}") (simp_all add: ac_simps)
  then show ?case
    by (simp add: Cons key_join)
qed simp

lemma fold_set_eq:
  assumes "ok a" "\<forall>b \<in> set bs. ok b" "set bs = set cs"
  shows "fold (\<lambda>b a. join a b) bs a = fold (\<lambda>b a. join a b) cs a"
  using assms by (intro key_inj ok_fold) (simp_all add: key_fold)

end

text \<open>
  Under the laws of the hash and of PeerIds the key of a register whose members are PeerIds
  determines it.
\<close>

definition reg_ok :: "ext \<Rightarrow> reg \<Rightarrow> bool" where
  "reg_ok X r \<longleftrightarrow> sha256_injective X \<and> peer_law X \<and>
     (case r of Live v ms \<Rightarrow> \<forall>p. p |\<in>| ms \<longrightarrow> is_valid_peer_id X p | _ \<Rightarrow> True)"

lemma members_hash_inject:
  assumes "sha256_injective X" "peer_law X"
    and "\<And>p. p |\<in>| ms \<Longrightarrow> is_valid_peer_id X p" "\<And>p. p |\<in>| ms' \<Longrightarrow> is_valid_peer_id X p"
    and "members_hash X ms = members_hash X ms'"
  shows "ms = ms'"
proof -
  have "concat (map (\<lambda>m. m @ [CHR 0x00]) (sorted_list_of_fset ms)) =
    concat (map (\<lambda>m. m @ [CHR 0x00]) (sorted_list_of_fset ms'))"
    using assms(1,5) by (simp add: members_hash_def content_hash_def sha256_injective_def)
  moreover have "\<forall>p \<in> set (sorted_list_of_fset ms). CHR 0x00 \<notin> set p"
    "\<forall>p \<in> set (sorted_list_of_fset ms'). CHR 0x00 \<notin> set p"
    using assms(2-4) by (auto simp: peer_law_def is_valid_peer_id_def)
  ultimately show ?thesis
    using terminated_concat_inject sorted_list_of_fset_inject by metis
qed

interpretation lww: lww_merge "reg_key X" "reg_ok X" for X
proof
  show "a = b" if "reg_ok X a" "reg_ok X b" "reg_key X a = reg_key X b" for a b
    using that members_hash_inject [of X] by (cases a; cases b) (auto simp: reg_ok_def)
qed

interpretation imax: lww_merge "\<lambda>v :: u64. v" "\<lambda>_. True"
  by unfold_locales

section \<open>merge\_service is the join\<close>

definition msg_reg :: "u64 \<Rightarrow> string list \<Rightarrow> bool \<Rightarrow> reg" where
  "msg_reg v ms deleted = (if deleted then Dead v else Live v (fset_of_list ms))"

definition msg_ok :: "ext \<Rightarrow> string \<Rightarrow> string list \<Rightarrow> bool \<Rightarrow> bool" where
  "msg_ok X n ms deleted \<longleftrightarrow>
     is_valid_service_name n \<and> (deleted \<or> (\<forall>p \<in> set ms. is_valid_peer_id X p))"

lemma merge_service_invalid:
  "\<not> msg_ok X n ms deleted \<Longrightarrow> \<exists>e. merge_service X n v ms deleted s = (Inl e, s) \<and> e \<noteq> St_Panic"
  using validate_peers_err [of X ms] validate_peers_iff [of X ms "()"]
  by (cases "validate_peers X ms") (auto simp: msg_ok_def merge_service_def Let_def)

lemma key_less:
  "reg_key X Absent < reg_key X (Live v ms) \<longleftrightarrow> v \<noteq> 0"
  "reg_key X Absent < reg_key X (Dead v) \<longleftrightarrow> v \<noteq> 0"
  "reg_key X (Dead t) < reg_key X (Live v ms) \<longleftrightarrow> t < v"
  "reg_key X (Dead t) < reg_key X (Dead v) \<longleftrightarrow> t < v"
  "reg_key X (Live c es) < reg_key X (Dead v) \<longleftrightarrow> c \<le> v"
  "reg_key X (Live c es) < reg_key X (Live v ms) \<longleftrightarrow>
     c < v \<or> c = v \<and> members_hash X es < members_hash X ms"
  by (auto simp: less_prod_def word_neq_0_conv)

lemma merge_service_absent:
  assumes "is_valid_service_name n" "deleted \<or> validate_peers X ms = Inr ()"
    and "bt_get (st_services s) n = None" "t = (case bt_get (st_tombstones s) n of Some t \<Rightarrow> t | None \<Rightarrow> 0)"
  shows "merge_service X n v ms deleted s =
    (if t < v then (Inr True, put_reg n (msg_reg v ms deleted) s) else (Inr False, s))"
  using assms by (cases deleted) (auto simp: merge_service_def msg_reg_def put_reg_def bt.del_absent Let_def)

lemma merge_service_live:
  assumes "is_valid_service_name n" "deleted \<or> validate_peers X ms = Inr ()"
    and "bt_get (st_services s) n = Some t" "bt_get (st_tombstones s) n = None" "ss_version t \<noteq> 0"
  shows "merge_service X n v ms deleted s =
    (if (if deleted then ss_version t \<le> v
         else ss_version t < v \<or> ss_version t = v \<and> members_hash X (ss_members t) < members_hash X (fset_of_list ms))
     then (Inr True, put_reg n (msg_reg v ms deleted) s) else (Inr False, s))"
  using assms by (cases deleted) (auto simp: merge_service_def msg_reg_def put_reg_def not_le not_less Let_def)

lemma merge_service_join:
  assumes "clean s" "msg_ok X n ms deleted"
  shows "merge_service X n v ms deleted s =
    (Inr (reg_key X (reg_of s n) < reg_key X (msg_reg v ms deleted)),
     put_reg n (lww.join X (reg_of s n) (msg_reg v ms deleted)) s)"
proof -
  have p: "deleted \<or> validate_peers X ms = Inr ()" "is_valid_service_name n"
    using assms(2) by (auto simp: msg_ok_def validate_peers_iff)
  note keep = put_reg_of [OF assms(1), of n]
  show ?thesis
  proof (cases "bt_get (st_services s) n")
    case None
    then have "reg_key X (reg_of s n) < reg_key X (msg_reg v ms deleted) \<longleftrightarrow>
      (case bt_get (st_tombstones s) n of Some t \<Rightarrow> t | None \<Rightarrow> 0) < v"
      by (simp add: reg_of_def msg_reg_def key_less word_neq_0_conv del: reg_key.simps split: option.splits)
    then show ?thesis
      using merge_service_absent [OF p(2,1) None refl] keep by (simp add: lww.join_def)
  next
    case (Some t)
    then have t: "bt_get (st_tombstones s) n = None" "ss_version t \<noteq> 0"
      using assms(1) by (auto simp: clean_def)
    show ?thesis
      using merge_service_live [OF p(2,1) Some t, of v] keep Some
      by (simp add: reg_of_def msg_reg_def lww.join_def key_less del: reg_key.simps)
  qed
qed

section \<open>Delivery of replicated changes\<close>

type_synonym rep_msg = "string \<times> u64 \<times> string list \<times> u64 \<times> bool"

text \<open>The store in memory after a sequence of replicated changes (\<open>apply_replicated\<close> without its save).\<close>

fun deliver :: "ext \<Rightarrow> rep_msg list \<Rightarrow> store \<Rightarrow> store" where
  "deliver X [] s = s"
| "deliver X ((n, v, ms, idx, del) # rest) s = deliver X rest (snd (merge_entry X n v ms idx del s))"

definition valid_msg :: "ext \<Rightarrow> rep_msg \<Rightarrow> bool" where
  "valid_msg X m = (case m of (n, v, ms, idx, del) \<Rightarrow> msg_ok X n ms del)"

text \<open>The registers a sequence of messages joins into service \<open>n\<close>, and the index versions it joins.\<close>

definition regs_for :: "ext \<Rightarrow> string \<Rightarrow> rep_msg list \<Rightarrow> reg list" where
  "regs_for X n msgs = map (\<lambda>(_, v, ms, _, del). msg_reg v ms del)
     (filter (\<lambda>m. fst m = n \<and> valid_msg X m) msgs)"

definition indexes_for :: "ext \<Rightarrow> rep_msg list \<Rightarrow> u64 list" where
  "indexes_for X msgs = map (\<lambda>(_, _, _, idx, _). idx) (filter (valid_msg X) msgs)"

lemma merge_entry_invalid: "\<not> msg_ok X n ms del \<Longrightarrow> snd (merge_entry X n v ms idx del s) = s"
  using merge_service_invalid [of X n ms del v s] by (auto simp: merge_entry_def)

lemma merge_entry_state:
  assumes "clean s" "msg_ok X n ms del"
  shows "snd (merge_entry X n v ms idx del s) =
    (put_reg n (lww.join X (reg_of s n) (msg_reg v ms del)) s)
      \<lparr>st_index_version := imax.join (st_index_version s) idx\<rparr>"
  using merge_service_join [OF assms] by (simp add: merge_entry_def imax.join_def Let_def)

lemma join_reg_pos:
  assumes "reg_pos r"
  shows "reg_pos (lww.join X r (msg_reg v ms del))"
proof (cases "v = 0")
  case True
  then have "\<not> reg_key X r < reg_key X (msg_reg v ms del)"
    using assms by (cases r) (auto simp: key_less reg_pos_def msg_reg_def word_neq_0_conv simp del: reg_key.simps)
  then show ?thesis
    using assms by (simp add: lww.join_def)
qed (use assms in \<open>auto simp: lww.join_def reg_pos_def msg_reg_def\<close>)

lemma merge_entry_clean: "clean s \<Longrightarrow> clean (snd (merge_entry X n v ms idx del s))"
proof (cases "msg_ok X n ms del")
  case True
  assume "clean s"
  with True show ?thesis
    by (simp add: merge_entry_state clean_put_reg join_reg_pos clean_reg_pos)
qed (simp add: merge_entry_invalid)

lemma deliver_clean: "clean s \<Longrightarrow> clean (deliver X msgs s)"
  by (induction X msgs s rule: deliver.induct) (simp_all add: merge_entry_clean)

lemma deliver_spec:
  assumes "clean s"
  shows "reg_of (deliver X msgs s) n = fold (\<lambda>b a. lww.join X a b) (regs_for X n msgs) (reg_of s n)
    \<and> st_index_version (deliver X msgs s) =
        fold (\<lambda>b a. imax.join a b) (indexes_for X msgs) (st_index_version s)
    \<and> st_network (deliver X msgs s) = st_network s \<and> st_path (deliver X msgs s) = st_path s"
  using assms
proof (induction X msgs s rule: deliver.induct)
  case (2 X m v ms idx del rest s)
  show ?case
  proof (cases "msg_ok X m ms del")
    case True
    with 2 show ?thesis
      by (simp add: merge_entry_clean)
        (simp add: merge_entry_state regs_for_def indexes_for_def valid_msg_def reg_of_put_reg)
  next
    case False
    with 2 show ?thesis
      by (simp add: merge_entry_invalid regs_for_def indexes_for_def valid_msg_def)
  qed
qed (simp add: regs_for_def indexes_for_def)

text \<open>A store whose members are PeerIds; a store is clean and its members are PeerIds in normal use.\<close>

definition peers_ok :: "ext \<Rightarrow> store \<Rightarrow> bool" where
  "peers_ok X s \<longleftrightarrow> (\<forall>n t p. bt_get (st_services s) n = Some t \<longrightarrow> p |\<in>| ss_members t \<longrightarrow> is_valid_peer_id X p)"

lemma reg_of_ok: "sha256_injective X \<Longrightarrow> peer_law X \<Longrightarrow> peers_ok X s \<Longrightarrow> reg_ok X (reg_of s n)"
  by (auto simp: reg_ok_def reg_of_def peers_ok_def split: option.splits)

lemma regs_for_ok:
  "sha256_injective X \<Longrightarrow> peer_law X \<Longrightarrow> \<forall>r \<in> set (regs_for X n msgs). reg_ok X r"
  by (auto simp: regs_for_def valid_msg_def msg_ok_def msg_reg_def reg_ok_def fset_of_list_elem)

lemma deliver_same_set:
  assumes "sha256_injective X" "peer_law X" "clean s" "peers_ok X s" "set ms = set ms'"
  shows "deliver X ms s = deliver X ms' s"
proof (rule clean_store_ext)
  have "set (regs_for X n ms) = set (regs_for X n ms')" for n
    using assms(5) by (simp add: regs_for_def)
  then show "reg_of (deliver X ms s) n = reg_of (deliver X ms' s) n" for n
    by (simp only: deliver_spec [OF assms(3)])
      (rule lww.fold_set_eq [OF reg_of_ok [OF assms(1,2,4)] regs_for_ok [OF assms(1,2)]], simp)
  have "set (indexes_for X ms) = set (indexes_for X ms')"
    using assms(5) by (simp add: indexes_for_def)
  then show "st_index_version (deliver X ms s) = st_index_version (deliver X ms' s)"
    by (simp only: deliver_spec [OF assms(3)]) (rule imax.fold_set_eq, simp_all)
qed (simp_all add: deliver_spec deliver_clean assms(3))

section \<open>Snapshots\<close>

definition wf_store :: "ext \<Rightarrow> store \<Rightarrow> bool" where
  "wf_store X s \<longleftrightarrow> clean s \<and> peers_ok X s \<and> (\<forall>n. reg_of s n \<noteq> Absent \<longrightarrow> is_valid_service_name n)"

definition entry_msgs :: "u64 \<Rightarrow> (string \<times> u64 \<times> string list \<times> bool) list \<Rightarrow> rep_msg list" where
  "entry_msgs idx es = map (\<lambda>(n, v, ms, del). (n, v, ms, idx, del)) es"

definition entries_ok :: "ext \<Rightarrow> (string \<times> u64 \<times> string list \<times> bool) list \<Rightarrow> bool" where
  "entries_ok X es \<longleftrightarrow> (\<forall>(n, v, ms, del) \<in> set es. msg_ok X n ms del)"

lemma merge_entry_ok: "clean s \<Longrightarrow> msg_ok X n ms del \<Longrightarrow> \<exists>c. merge_entry X n v ms idx del s =
    (Inr c, snd (merge_entry X n v ms idx del s))"
  by (simp add: merge_entry_def merge_service_join Let_def)

lemma merge_entries_deliver:
  "clean s \<Longrightarrow> entries_ok X es \<Longrightarrow> \<exists>c. merge_entries X idx es ch s = (Inr c, deliver X (entry_msgs idx es) s)"
proof (induction X idx es ch s rule: merge_entries.induct)
  case (2 X idx n v ms del rest ch s)
  then obtain c where "merge_entry X n v ms idx del s = (Inr c, snd (merge_entry X n v ms idx del s))"
    using merge_entry_ok [of s X n ms del v idx] by (auto simp: entries_ok_def)
  moreover have "clean (snd (merge_entry X n v ms idx del s))"
    using 2 by (simp add: merge_entry_clean)
  ultimately show ?case
    using 2 by (auto simp: entries_ok_def entry_msgs_def split: prod.splits sum.splits)
qed (simp add: entry_msgs_def)

text \<open>The entries of a clean store's snapshot are its registers.\<close>

lemma snapshot_entries_regs:
  assumes "clean s"
  shows "(n, v, ms, del) \<in> set (snapshot_entries (store_snapshot s)) \<Longrightarrow> msg_reg v ms del = reg_of s n"
    and "reg_of s n \<noteq> Absent \<Longrightarrow>
      \<exists>v ms del. (n, v, ms, del) \<in> set (snapshot_entries (store_snapshot s)) \<and> msg_reg v ms del = reg_of s n"
proof -
  have live: "bt_get (st_services s) n = Some t \<longleftrightarrow> (n, t) \<in> set (entries (st_services s))" for t
    by (rule bt.get_ents)
  have dead: "bt_get (st_tombstones s) n = Some v \<longleftrightarrow> (n, v) \<in> set (entries (st_tombstones s))" for v
    by (rule bt.get_ents)
  have disj: "bt_get (st_services s) n = Some t \<Longrightarrow> bt_get (st_tombstones s) n = None" for t
    using assms by (simp add: clean_def)
  have "(n, t) \<in> set (entries (st_services s)) \<Longrightarrow> reg_of s n = Live (ss_version t) (ss_members t)" for t
    using live [of t] by (simp add: reg_of_def)
  moreover have "(n, v) \<in> set (entries (st_tombstones s)) \<Longrightarrow> reg_of s n = Dead v" for v
    using dead [of v] disj by (cases "bt_get (st_services s) n") (simp_all add: reg_of_def)
  ultimately show "(n, v, ms, del) \<in> set (snapshot_entries (store_snapshot s)) \<Longrightarrow> msg_reg v ms del = reg_of s n"
    by (auto simp: snapshot_entries_def store_snapshot_def msg_reg_def)
  assume "reg_of s n \<noteq> Absent"
  then consider t where "bt_get (st_services s) n = Some t"
    | v where "bt_get (st_services s) n = None" "bt_get (st_tombstones s) n = Some v"
    by (auto simp: reg_of_def split: option.splits)
  then show "\<exists>v ms del. (n, v, ms, del) \<in> set (snapshot_entries (store_snapshot s)) \<and> msg_reg v ms del = reg_of s n"
  proof cases
    case (1 t)
    then have "(n, ss_version t, sorted_list_of_fset (ss_members t), False) \<in> set (snapshot_entries (store_snapshot s))"
      using live by (force simp: snapshot_entries_def store_snapshot_def)
    then show ?thesis
      using 1 by (intro exI) (auto simp: msg_reg_def reg_of_def)
  next
    case (2 v)
    then have "(n, v, [], True) \<in> set (snapshot_entries (store_snapshot s))"
      using dead by (force simp: snapshot_entries_def store_snapshot_def)
    then show ?thesis
      using 2 by (intro exI) (auto simp: msg_reg_def reg_of_def)
  qed
qed

lemma snapshot_entries_ok:
  assumes "wf_store X s"
  shows "entries_ok X (snapshot_entries (store_snapshot s))"
  unfolding entries_ok_def
proof (clarify)
  fix n v ms del
  assume e: "(n, v, ms, del) \<in> set (snapshot_entries (store_snapshot s))"
  have r: "msg_reg v ms del = reg_of s n"
    using snapshot_entries_regs(1) [OF _ e] assms by (simp add: wf_store_def)
  then have "reg_of s n \<noteq> Absent"
    by (auto simp: msg_reg_def split: if_splits)
  then have "is_valid_service_name n"
    using assms by (simp add: wf_store_def)
  moreover have "\<forall>p \<in> set ms. is_valid_peer_id X p" if "\<not> del"
  proof -
    have "reg_of s n = Live v (fset_of_list ms)"
      using r that by (simp add: msg_reg_def)
    then obtain t where "bt_get (st_services s) n = Some t" "ss_members t = fset_of_list ms"
      by (auto simp: reg_of_def split: option.splits)
    then show ?thesis
      using assms unfolding wf_store_def peers_ok_def by (metis fset_of_list_elem)
  qed
  ultimately show "msg_ok X n ms del"
    by (auto simp: msg_ok_def)
qed

lemma regs_for_snapshot:
  assumes "wf_store X s"
  shows "set (regs_for X n (entry_msgs idx (snapshot_entries (store_snapshot s)))) =
    (if reg_of s n = Absent then {} else {reg_of s n})"
proof -
  have c: "clean s"
    using assms by (simp add: wf_store_def)
  have ok: "(m, v, ms, del) \<in> set (snapshot_entries (store_snapshot s)) \<Longrightarrow> msg_ok X m ms del" for m v ms del
    using snapshot_entries_ok [OF assms] by (auto simp: entries_ok_def)
  have "set (regs_for X n (entry_msgs idx (snapshot_entries (store_snapshot s)))) =
    {msg_reg v ms del | v ms del. (n, v, ms, del) \<in> set (snapshot_entries (store_snapshot s))}"
    using ok by (force simp: regs_for_def entry_msgs_def valid_msg_def image_iff)
  moreover have "msg_reg v ms del \<noteq> Absent" for v ms del
    by (simp add: msg_reg_def)
  moreover have "{msg_reg v ms del | v ms del. (n, v, ms, del) \<in> set (snapshot_entries (store_snapshot s))} =
    {r. r = reg_of s n \<and> r \<noteq> Absent}"
    unfolding set_eq_iff mem_Collect_eq using snapshot_entries_regs [OF c, of n] calculation(2) by metis
  ultimately show ?thesis
    by auto
qed

lemma fold_join_single: "set xs = {b} \<Longrightarrow> fold (\<lambda>b a. lww.join X a b) xs a = lww.join X a b"
proof (induction xs arbitrary: a)
  case (Cons x xs)
  then show ?case
    by (cases "xs = []") (auto simp: lww.join_def subset_singleton_iff)
qed simp

lemma merge_snapshot_reg:
  assumes "wf_store X t" "clean s"
  shows "reg_of (deliver X (entry_msgs idx (snapshot_entries (store_snapshot t))) s) n =
    (if reg_of t n = Absent then reg_of s n else lww.join X (reg_of s n) (reg_of t n))"
  using regs_for_snapshot [OF assms(1), of n idx]
  by (simp add: deliver_spec [OF assms(2)] fold_join_single split: if_splits)

lemma merge_snapshot_state:
  assumes "wf_store (en_ext E) t" "clean s"
  shows "fst (snd (merge_snapshot E (store_snapshot t) s f)) =
    deliver (en_ext E) (entry_msgs (st_index_version t) (snapshot_entries (store_snapshot t))) s"
proof -
  have "sn_index_version (store_snapshot t) = st_index_version t"
    by (simp add: store_snapshot_def)
  moreover obtain c where "merge_entries (en_ext E) (st_index_version t) (snapshot_entries (store_snapshot t)) False s =
      (Inr c, deliver (en_ext E) (entry_msgs (st_index_version t) (snapshot_entries (store_snapshot t))) s)"
    using merge_entries_deliver [OF assms(2) snapshot_entries_ok [OF assms(1)]] by blast
  ultimately show ?thesis
    by (auto simp: merge_snapshot_def split: prod.splits sum.splits)
qed

definition reg_valid :: "ext \<Rightarrow> string \<Rightarrow> reg \<Rightarrow> bool" where
  "reg_valid X n r = (case r of Absent \<Rightarrow> True | Dead v \<Rightarrow> is_valid_service_name n
     | Live v ms \<Rightarrow> is_valid_service_name n \<and> (\<forall>p. p |\<in>| ms \<longrightarrow> is_valid_peer_id X p))"

lemma wf_store_regs: "wf_store X s \<longleftrightarrow> clean s \<and> (\<forall>n. reg_valid X n (reg_of s n))"
proof -
  have "reg_valid X n (reg_of s n) \<longleftrightarrow> (reg_of s n \<noteq> Absent \<longrightarrow> is_valid_service_name n) \<and>
    (\<forall>t p. bt_get (st_services s) n = Some t \<longrightarrow> p |\<in>| ss_members t \<longrightarrow> is_valid_peer_id X p)" for n
    by (auto simp: reg_valid_def reg_of_def split: option.splits)
  then show ?thesis
    unfolding wf_store_def peers_ok_def by blast
qed

lemma merge_snapshot_wf:
  assumes "wf_store (en_ext E) t" "wf_store (en_ext E) s"
  shows "wf_store (en_ext E) (fst (snd (merge_snapshot E (store_snapshot t) s f)))"
proof -
  have c: "clean s"
    using assms(2) by (simp add: wf_store_def)
  show ?thesis
    using assms c unfolding wf_store_regs merge_snapshot_state [OF assms(1) c]
    by (simp add: deliver_clean merge_snapshot_reg [OF assms(1) c] lww.join_def)
qed

lemma reg_join_back:
  assumes "reg_ok X a" "reg_ok X b"
  shows "lww.join X b (lww.join X a b) = lww.join X a b"
  using lww.key_inj [OF assms] by (auto simp: lww.join_def)

lemma merge_entries_same:
  "clean s \<Longrightarrow> \<forall>(n, v, ms, del) \<in> set es. msg_ok X n ms del \<and> msg_reg v ms del = reg_of s n \<Longrightarrow>
   idx \<le> st_index_version s \<Longrightarrow> merge_entries X idx es ch s = (Inr ch, s)"
proof (induction es)
  case (Cons e es)
  then have "merge_service X (fst e) (fst (snd e)) (fst (snd (snd e))) (snd (snd (snd e))) s = (Inr False, s)"
    using merge_service_join [of s X "fst e" "fst (snd (snd e))" "snd (snd (snd e))" "fst (snd e)"]
      put_reg_of [of s "fst e"] by (auto simp: lww.join_idem)
  with Cons show ?case
    by (cases e) (auto simp: merge_entry_def Let_def)
qed simp

section \<open>Properties\<close>

text \<open>
  C5: Replicas converge. Two deliveries of the same set of replicated changes to a clean store, in any
  order and with any repetitions, end in exactly the same store: services, members, versions,
  tombstones and index version. Changes the code refuses are among them.
\<close>

theorem replicas_converge:
  assumes "sha256_injective X" "peer_law X" "clean s" "peers_ok X s" "set ms = set ms'"
  shows "deliver X ms s = deliver X ms' s"
  using assms by (rule deliver_same_set)

lemma demo_store_wf [simp]: "clean demo_store" "peers_ok X demo_store" "wf_store X demo_store"
  by (simp_all add: clean_def peers_ok_def wf_store_def demo_store_def reg_of_def)

theorem replicas_converge_witness:
  "deliver demo_ext [(''cmd'', 2, [''p''], 2, False), (''cmd'', 2, [], 3, True), (''cmd'', 1, [''q''], 4, False)] demo_store =
   deliver demo_ext [(''cmd'', 1, [''q''], 4, False), (''cmd'', 2, [], 3, True), (''cmd'', 2, [''p''], 2, False),
     (''cmd'', 2, [], 3, True)] demo_store"
  by (rule replicas_converge) auto

text \<open>
  C16: Anti-entropy converges in one exchange. When one well-formed store merges another's snapshot and
  the other then merges the result's, both hold the same services, members, versions and tombstones,
  and both are the register-wise maximum of the two, whether or not the saves succeed.
\<close>

theorem anti_entropy_converges:
  assumes "sha256_injective X" "peer_law X" "en_ext E = X" "en_ext F = X" "wf_store X a" "wf_store X b"
    and "a' = fst (snd (merge_snapshot E (store_snapshot b) a f))"
    and "b' = fst (snd (merge_snapshot F (store_snapshot a') b g))"
  shows "reg_of b' n = reg_of a' n \<and>
    reg_of a' n = (if reg_of b n = Absent then reg_of a n
                   else if reg_key X (reg_of a n) < reg_key X (reg_of b n) then reg_of b n else reg_of a n)"
proof -
  have clean: "clean a" "clean b"
    using assms(5,6) by (simp_all add: wf_store_def)
  have ok: "reg_ok X (reg_of a n)" "reg_ok X (reg_of b n)"
    using assms(1,2,5,6) reg_of_ok by (simp_all add: wf_store_def)
  have a': "reg_of a' n = (if reg_of b n = Absent then reg_of a n else lww.join X (reg_of a n) (reg_of b n))"
    using merge_snapshot_state [of E b a f] merge_snapshot_reg [of X b a] assms(3,6,7) clean by simp
  have "wf_store X a'"
    using merge_snapshot_wf [of E b a f] assms(3,5-7) by simp
  then have b': "reg_of b' n = (if reg_of a' n = Absent then reg_of b n else lww.join X (reg_of b n) (reg_of a' n))"
    using merge_snapshot_state [of F a' b g] merge_snapshot_reg [of X a' b] assms(4,8) clean by simp
  have up: "lww.join X Absent (reg_of s n) = reg_of s n" if "clean s" for s
    using clean_reg_pos [OF that, of n]
    by (cases "reg_of s n") (auto simp: lww.join_def key_less reg_pos_def simp del: reg_key.simps)
  have "reg_of b' n = reg_of a' n"
  proof (cases "reg_of b n = Absent \<or> reg_of a n = Absent")
    case True
    then show ?thesis
      using a' b' up [OF clean(1)] up [OF clean(2)] lww.join_idem [of X "reg_of b n"] by auto
  next
    case False
    then show ?thesis
      using a' b' reg_join_back [OF ok] by (auto simp: lww.join_def split: if_splits)
  qed
  with a' show ?thesis
    by (simp add: lww.join_def)
qed

definition demo_peer :: store where
  "demo_peer = demo_store\<lparr>st_services := bt_insert ''cmd'' \<lparr>ss_version = 2, ss_members = {|''p''|}\<rparr> bt_empty\<rparr>"

theorem anti_entropy_converges_witness:
  "reg_of (fst (snd (merge_snapshot (demo_env (store_snapshot demo_store)) (store_snapshot
      (fst (snd (merge_snapshot (demo_env (store_snapshot demo_store)) (store_snapshot demo_peer) demo_store demo_fs))))
      demo_peer demo_fs))) ''cmd'' = Live 2 {|''p''|}"
proof -
  have "wf_store demo_ext demo_peer"
    by (simp add: wf_store_regs clean_def demo_peer_def demo_store_def reg_valid_def reg_of_def demo_name_ok)
  moreover have "reg_of demo_store ''cmd'' = Absent" "reg_of demo_peer ''cmd'' = Live 2 {|''p''|}"
    by (simp_all add: reg_of_def demo_store_def demo_peer_def)
  moreover have "reg_key demo_ext Absent < reg_key demo_ext (Live 2 {|''p''|})"
    by (simp add: key_less del: reg_key.simps)
  ultimately show ?thesis
    using anti_entropy_converges [where X = demo_ext and a = demo_store and b = demo_peer
        and E = "demo_env (store_snapshot demo_store)" and F = "demo_env (store_snapshot demo_store)"
        and f = demo_fs and g = demo_fs and n = "''cmd''", OF _ _ _ _ _ _ refl refl]
    by simp
qed

text \<open>
  The panic in \<open>merge_service\<close> (\<open>expect("current > 0")\<close>) cannot be reached, in any store and for any
  incoming entry: an equal version is compared only after it was found larger than the tombstone, so
  it is positive and the service exists.
\<close>

theorem merge_never_panics: "fst (merge_service X n v ms deleted s) \<noteq> Inl St_Panic"
proof (cases "msg_ok X n ms deleted")
  case False
  then show ?thesis
    using merge_service_invalid [of X n ms deleted v s] by auto
next
  case True
  then have "deleted \<or> validate_peers X ms = Inr ()"
    by (auto simp: msg_ok_def validate_peers_iff)
  then show ?thesis
    by (cases "bt_get (st_services s) n"; cases "bt_get (st_tombstones s) n")
      (auto simp: merge_service_def Let_def split: sum.splits if_splits dest: validate_peers_err)
qed

text \<open>
  Merging a snapshot twice is the same as merging it once: a well-formed store that merges its own
  snapshot reports no change, keeps its memory and writes nothing.
\<close>

theorem merge_own_snapshot:
  assumes "wf_store (en_ext E) s"
  shows "merge_snapshot E (store_snapshot s) s f = (Inr False, s, f)"
proof -
  have c: "clean s"
    using assms by (simp add: wf_store_def)
  have "merge_entries (en_ext E) (st_index_version s) (snapshot_entries (store_snapshot s)) False s = (Inr False, s)"
    using snapshot_entries_ok [OF assms] snapshot_entries_regs(1) [OF c]
    by (intro merge_entries_same [OF c]) (auto simp: entries_ok_def)
  then show ?thesis
    by (simp add: merge_snapshot_def store_snapshot_def)
qed

theorem merge_own_snapshot_witness:
  "merge_snapshot (demo_env (store_snapshot demo_store)) (store_snapshot demo_store) demo_store demo_fs =
   (Inr False, demo_store, demo_fs)"
  by (rule merge_own_snapshot) simp

text \<open>
  C27: A service that is deleted and created again does not survive replication. The new service starts
  at version 1 while the tombstone left by the deletion is larger, so (a) every replica that knows the
  tombstone ignores the new service, and (b) the tombstone, when it comes back from any replica,
  deletes the new service here.
\<close>

theorem recreated_service_lost:
  assumes "delete_service E n s f = (Inr d, s1, f1)" "create_service E n ps s1 f1 = (Inr v, s2, f2)" "d \<noteq> 0"
  shows "v = 1 \<and> bt_get (st_tombstones s2) n = Some d \<and>
    (\<forall>q. bt_get (st_tombstones q) n = Some d \<longrightarrow> fst (merge_service X n v ps False q) \<noteq> Inr True) \<and>
    (\<exists>s3. merge_service X n d [] True s2 = (Inr True, s3) \<and> bt_get (st_services s3) n = None)"
proof -
  have n: "is_valid_service_name n" and v: "v = 1" and s2: "bt_get (st_services s2) n = Some \<lparr>ss_version = 1, ss_members = fset_of_list ps\<rparr>"
    "st_tombstones s2 = st_tombstones s1"
    using assms(2) by (auto simp: create_service_def Let_def split: if_splits sum.splits prod.splits)
  have t: "bt_get (st_tombstones s1) n = Some d"
    using assms(1) by (auto simp: delete_service_def Let_def split: option.splits sum.splits prod.splits)
  have d: "1 \<le> d"
    using assms(3) by (simp add: word_le_nat_alt unat_gt_0 Suc_le_eq)
  have "fst (merge_service X n v ps False q) \<noteq> Inr True" if "bt_get (st_tombstones q) n = Some d" for q
    using that d n v by (auto simp: merge_service_def Let_def split: sum.splits)
  moreover have "merge_service X n d [] True s2 =
    (Inr True, s2\<lparr>st_services := bt_remove n (st_services s2), st_tombstones := bt_insert n d (st_tombstones s2)\<rparr>)"
    using n d s2 t assms(3) by (simp add: merge_service_def Let_def)
  ultimately show ?thesis
    using v s2 t by simp
qed

theorem recreated_service_lost_witness:
  "\<exists>s1 f1 s2 f2. delete_service (demo_env (store_snapshot demo_store)) ''cmd'' demo_peer demo_fs = (Inr 3, s1, f1) \<and>
     create_service (demo_env (store_snapshot demo_store)) ''cmd'' [''p''] s1 f1 = (Inr 1, s2, f2) \<and>
     (\<exists>s3. merge_service demo_ext ''cmd'' 3 [] True s2 = (Inr True, s3) \<and> bt_get (st_services s3) ''cmd'' = None)"
proof -
  let ?E = "demo_env (store_snapshot demo_store)"
  have sv: "\<exists>f'. save ?E s f = (Inr (), f')" if "st_path s = st_path demo_store" for s f
    using atomic_write_fine [of "st_path demo_store" "''state''" "Some 0x180" f] that
    by (cases "atomic_write io_fine (st_path demo_store) ''state'' (Some 0x180) f")
      (auto simp: save_def demo_env_def demo_store_def has_temp_def with_extension_def file_stem_def)
  obtain s1 f1 where 1: "delete_service ?E ''cmd'' demo_peer demo_fs = (Inr 3, s1, f1)"
      "st_path s1 = st_path demo_store" "bt_get (st_services s1) ''cmd'' = None"
    using sv [of "demo_peer\<lparr>st_services := bt_remove ''cmd'' (st_services demo_peer),
        st_tombstones := bt_insert ''cmd'' 3 (st_tombstones demo_peer), st_index_version := st_index_version demo_peer + 1\<rparr>" demo_fs]
    by (auto simp: delete_service_def demo_peer_def Let_def)
  obtain s2 f2 where 2: "create_service ?E ''cmd'' [''p''] s1 f1 = (Inr 1, s2, f2)"
    using sv [of "s1\<lparr>st_services := bt_insert ''cmd'' \<lparr>ss_version = 1, ss_members = fset_of_list [''p'']\<rparr> (st_services s1),
        st_index_version := st_index_version s1 + 1\<rparr>" f1] 1(2,3)
    by (auto simp: create_service_def demo_name_ok Let_def)
  show ?thesis
    using recreated_service_lost [OF 1(1) 2, of demo_ext] 1(1) 2 by auto
qed

end
