(* ===== verification/Policy.thy ===== *)
theory Policy
  imports Store
begin

text \<open>
  The replicated policy state machine: \<open>src/raft/types.rs\<close> (commands and results) and
  \<open>src/raft/state_machine.rs\<close> (the state and \<open>apply\<close>). Versions and the epoch use saturating
  additions. A rejection is a code string and a message; a message is the constructor of its format
  string applied to the values formatted into it.
\<close>

section \<open>Commands and results\<close>

type_synonym node_id = u64

record raft_node =
  rn_peer_id :: string
  rn_identity_key :: string
  rn_x25519_key :: string

record join_token =
  jt_v :: u8
  jt_jti :: string
  jt_cluster_id :: string
  jt_network :: string
  jt_audience :: string
  jt_expires_at :: u64
  jt_max_uses :: u32
  jt_bind_peer_id :: string
  jt_kid :: string
  jt_sig :: string

record stored_join_token =
  sj_token :: join_token
  sj_uses :: u32

datatype policy_command =
    CreateService string "string list"
  | DeleteService string
  | AddMembers string "string list"
  | RemoveMembers string "string list"
  | SetMembers string "string list"
  | Admin string string string u64 policy_command
  | RenewIndex u64
  | IssueJoinToken join_token
  | ConsumeJoinToken string node_id string u64

datatype reject_msg =
    M_InvalidService string
  | M_AlreadyExists string
  | M_NotFound string
  | M_InvalidPeer string
  | M_NestedAdmin
  | M_TokenVersion u8
  | M_TokenJti
  | M_TokenUses
  | M_TokenNetwork string string
  | M_TokenExists string
  | M_TokenUnknown string
  | M_TokenReplayed string
  | M_TokenWrongPeer string
  | M_TokenExpired string
  | M_RequestIdConflict string

type_synonym reject = "string \<times> reject_msg"

datatype admin_outcome =
    OutApplied "string option" "u64 option" bool
  | OutRejected string reject_msg

datatype policy_result =
    ResApplied "string option" "u64 option" u64 bool
  | ResRejected string reject_msg u64
  | ResAdmin string u64 u64 bool admin_outcome

section \<open>State\<close>

definition DEDUP_MAX_ENTRIES :: nat where
  "DEDUP_MAX_ENTRIES = 10000"

abbreviation DEDUP_TTL_SECS :: u64 where
  "DEDUP_TTL_SECS \<equiv> 24 * 60 * 60"

record admin_record =
  ar_request_hash :: string
  ar_outcome :: admin_outcome
  ar_policy_epoch :: u64
  ar_raft_index :: u64
  ar_request_ts :: u64

record policy_state =
  ps_network :: string
  ps_policy_epoch :: u64
  ps_index_expires_at :: u64
  ps_services :: "(string, service_state) btmap"
  ps_tombstones :: "(string, u64) btmap"
  ps_dedup :: "(string, admin_record) btmap"
  ps_join_tokens :: "(string, stored_join_token) btmap"

definition policy_new :: "string \<Rightarrow> policy_state" where
  "policy_new network = \<lparr>ps_network = network, ps_policy_epoch = 1, ps_index_expires_at = 0,
     ps_services = bt_empty, ps_tombstones = bt_empty, ps_dedup = bt_empty, ps_join_tokens = bt_empty\<rparr>"

definition from_store_snapshot :: "snapshot \<Rightarrow> policy_state" where
  "from_store_snapshot sn = \<lparr>ps_network = sn_network sn, ps_policy_epoch = max (sn_index_version sn) 1,
     ps_index_expires_at = 0, ps_services = sn_services sn, ps_tombstones = sn_tombstones sn,
     ps_dedup = bt_empty, ps_join_tokens = bt_empty\<rparr>"

definition to_store_snapshot :: "policy_state \<Rightarrow> snapshot" where
  "to_store_snapshot p = \<lparr>sn_network = ps_network p, sn_index_version = ps_policy_epoch p,
     sn_services = ps_services p, sn_tombstones = ps_tombstones p\<rparr>"

section \<open>Services and members\<close>

fun policy_validate_peers :: "ext \<Rightarrow> string list \<Rightarrow> reject + unit" where
  "policy_validate_peers X [] = Inr ()"
| "policy_validate_peers X (p # ps) =
     (if is_valid_peer_id X p then policy_validate_peers X ps else Inl (''invalid_peer'', M_InvalidPeer p))"

definition bump_epoch :: "policy_state \<Rightarrow> policy_state" where
  "bump_epoch p = p\<lparr>ps_policy_epoch := sat_add (ps_policy_epoch p) 1\<rparr>"

definition policy_create_service ::
  "ext \<Rightarrow> string \<Rightarrow> string list \<Rightarrow> policy_state \<Rightarrow> (reject + u64) \<times> policy_state" where
  "policy_create_service X service ms p =
     (if \<not> is_valid_service_name service then (Inl (''invalid_service'', M_InvalidService service), p)
      else (case policy_validate_peers X ms of
         Inl e \<Rightarrow> (Inl e, p)
       | Inr _ \<Rightarrow>
           if bt_contains (ps_services p) service then (Inl (''already_exists'', M_AlreadyExists service), p)
           else (Inr 1, bump_epoch (p\<lparr>ps_services := bt_insert service
                   \<lparr>ss_version = 1, ss_members = fset_of_list ms\<rparr> (ps_services p)\<rparr>))))"

definition policy_delete_service :: "string \<Rightarrow> policy_state \<Rightarrow> (reject + u64) \<times> policy_state" where
  "policy_delete_service service p =
     (case bt_get (ps_services p) service of
        None \<Rightarrow> (Inl (''not_found'', M_NotFound service), p)
      | Some removed \<Rightarrow>
          let tombstone = sat_add (ss_version removed) 1 in
          (Inr tombstone, bump_epoch (p\<lparr>ps_services := bt_remove service (ps_services p),
             ps_tombstones := bt_insert service tombstone (ps_tombstones p)\<rparr>)))"

text \<open>\<open>finish_change\<close> is called after a lookup that found the service, so its \<open>expect\<close> cannot fail.\<close>

definition policy_finish_change ::
  "string \<Rightarrow> service_state \<Rightarrow> bool \<Rightarrow> policy_state \<Rightarrow> (u64 \<times> bool) \<times> policy_state" where
  "policy_finish_change service t changed p =
     (if \<not> changed then ((ss_version t, False), p)
      else
        let v = sat_add (ss_version t) 1 in
        ((v, True), bump_epoch (p\<lparr>ps_services := bt_insert service (t\<lparr>ss_version := v\<rparr>) (ps_services p)\<rparr>)))"

definition policy_edit_members ::
  "ext \<Rightarrow> (string list \<Rightarrow> string fset \<Rightarrow> string fset \<times> bool) \<Rightarrow> string \<Rightarrow> string list \<Rightarrow> policy_state \<Rightarrow>
   (reject + u64 \<times> bool) \<times> policy_state" where
  "policy_edit_members X edit service peers p =
     (case policy_validate_peers X peers of
        Inl e \<Rightarrow> (Inl e, p)
      | Inr _ \<Rightarrow>
          (case bt_get (ps_services p) service of
             None \<Rightarrow> (Inl (''not_found'', M_NotFound service), p)
           | Some t \<Rightarrow>
               (case edit peers (ss_members t) of (ms, changed) \<Rightarrow>
                  let t' = t\<lparr>ss_members := ms\<rparr>;
                      (r, p') = policy_finish_change service t' changed
                        (p\<lparr>ps_services := bt_insert service t' (ps_services p)\<rparr>)
                  in (Inr r, p'))))"

definition policy_add_members where
  "policy_add_members X = policy_edit_members X add_edit"

definition policy_remove_members where
  "policy_remove_members X = policy_edit_members X remove_edit"

definition policy_set_members where
  "policy_set_members X = policy_edit_members X set_edit"

section \<open>Join tokens\<close>

definition sat_add32 :: "u32 \<Rightarrow> u32 \<Rightarrow> u32" where
  "sat_add32 a b = (if a + b < a then - 1 else a + b)"

definition issue_join_token :: "join_token \<Rightarrow> policy_state \<Rightarrow> (reject + unit) \<times> policy_state" where
  "issue_join_token t p =
     (if jt_v t \<noteq> 1 then (Inl (''join_token_bad_version'', M_TokenVersion (jt_v t)), p)
      else if is_blank (jt_jti t) then (Inl (''join_token_bad_jti'', M_TokenJti), p)
      else if jt_max_uses t = 0 then (Inl (''join_token_bad_uses'', M_TokenUses), p)
      else if jt_network t \<noteq> ps_network p
        then (Inl (''join_token_wrong_network'', M_TokenNetwork (jt_network t) (ps_network p)), p)
      else if bt_contains (ps_join_tokens p) (jt_jti t)
        then (Inl (''join_token_exists'', M_TokenExists (jt_jti t)), p)
      else (Inr (), p\<lparr>ps_join_tokens :=
             bt_insert (jt_jti t) \<lparr>sj_token = t, sj_uses = 0\<rparr> (ps_join_tokens p)\<rparr>))"

definition consume_join_token ::
  "string \<Rightarrow> string \<Rightarrow> u64 \<Rightarrow> policy_state \<Rightarrow> (reject + unit) \<times> policy_state" where
  "consume_join_token jti peer_id used_at p =
     (case bt_get (ps_join_tokens p) jti of
        None \<Rightarrow> (Inl (''join_token_unknown'', M_TokenUnknown jti), p)
      | Some r \<Rightarrow>
          if sj_uses r \<ge> jt_max_uses (sj_token r) then (Inl (''join_token_replayed'', M_TokenReplayed jti), p)
          else if jt_bind_peer_id (sj_token r) \<noteq> [] \<and> jt_bind_peer_id (sj_token r) \<noteq> peer_id
            then (Inl (''join_token_wrong_peer'', M_TokenWrongPeer jti), p)
          else if jt_expires_at (sj_token r) = 0 \<or> used_at > jt_expires_at (sj_token r)
            then (Inl (''join_token_expired'', M_TokenExpired jti), p)
          else (Inr (), p\<lparr>ps_join_tokens :=
                 bt_insert jti (r\<lparr>sj_uses := sat_add32 (sj_uses r) 1\<rparr>) (ps_join_tokens p)\<rparr>))"

section \<open>apply\<close>

fun apply_inner ::
  "ext \<Rightarrow> policy_command \<Rightarrow> policy_state \<Rightarrow> (reject + string option \<times> u64 option \<times> bool) \<times> policy_state" where
  "apply_inner X (CreateService service ms) p =
     (case policy_create_service X service ms p of
        (Inl e, p') \<Rightarrow> (Inl e, p') | (Inr v, p') \<Rightarrow> (Inr (Some service, Some v, True), p'))"
| "apply_inner X (DeleteService service) p =
     (case policy_delete_service service p of
        (Inl e, p') \<Rightarrow> (Inl e, p') | (Inr v, p') \<Rightarrow> (Inr (Some service, Some v, True), p'))"
| "apply_inner X (AddMembers service peers) p =
     (case policy_add_members X service peers p of
        (Inl e, p') \<Rightarrow> (Inl e, p') | (Inr (v, ch), p') \<Rightarrow> (Inr (Some service, Some v, ch), p'))"
| "apply_inner X (RemoveMembers service peers) p =
     (case policy_remove_members X service peers p of
        (Inl e, p') \<Rightarrow> (Inl e, p') | (Inr (v, ch), p') \<Rightarrow> (Inr (Some service, Some v, ch), p'))"
| "apply_inner X (SetMembers service peers) p =
     (case policy_set_members X service peers p of
        (Inl e, p') \<Rightarrow> (Inl e, p') | (Inr (v, ch), p') \<Rightarrow> (Inr (Some service, Some v, ch), p'))"
| "apply_inner X (Admin _ _ _ _ _) p = (Inl (''bad_command'', M_NestedAdmin), p)"
| "apply_inner X (RenewIndex e) p = (Inr (None, None, True), (bump_epoch p)\<lparr>ps_index_expires_at := e\<rparr>)"
| "apply_inner X (IssueJoinToken t) p =
     (case issue_join_token t p of
        (Inl e, p') \<Rightarrow> (Inl e, p')
      | (Inr _, p') \<Rightarrow> (Inr (Some (jt_jti t), Some (jt_expires_at t), True), p'))"
| "apply_inner X (ConsumeJoinToken jti node_id peer_id used_at) p =
     (case consume_join_token jti peer_id used_at p of
        (Inl e, p') \<Rightarrow> (Inl e, p') | (Inr _, p') \<Rightarrow> (Inr (Some jti, None, True), p'))"

text \<open>\<open>iter().min_by_key(raft_index)\<close>: the first entry, in key order, with the least log index.\<close>

definition older :: "string \<times> admin_record \<Rightarrow> string \<times> admin_record \<Rightarrow> string \<times> admin_record" where
  "older m y = (if ar_raft_index (snd y) < ar_raft_index (snd m) then y else m)"

fun oldest :: "(string \<times> admin_record) list \<Rightarrow> string option" where
  "oldest [] = None"
| "oldest (x # xs) = Some (fst (foldl older x xs))"

lemma foldl_older:
  "foldl older x ys \<in> insert x (set ys) \<and>
   (\<forall>y \<in> insert x (set ys). ar_raft_index (snd (foldl older x ys)) \<le> ar_raft_index (snd y))"
proof (induction ys arbitrary: x)
  case (Cons y ys)
  have "ar_raft_index (snd (older x y)) \<le> ar_raft_index (snd x)"
    "ar_raft_index (snd (older x y)) \<le> ar_raft_index (snd y)" "older x y = x \<or> older x y = y"
    by (auto simp: older_def)
  then show ?case
    using Cons [of "older x y"] by auto
qed simp

lemma oldest_min:
  assumes "oldest xs = Some k"
  shows "\<exists>r. (k, r) \<in> set xs \<and> (\<forall>(k', r') \<in> set xs. ar_raft_index r \<le> ar_raft_index r')"
proof (cases xs)
  case (Cons x ys)
  then have "k = fst (foldl older x ys)"
    using assms by simp
  then show ?thesis
    using foldl_older [of x ys] Cons by (intro exI [of _ "snd (foldl older x ys)"]) auto
qed (use assms in simp)

text \<open>The loop \<open>while dedup.len() > DEDUP_MAX_ENTRIES\<close>; the bound is an argument.\<close>

function evict_dedup :: "nat \<Rightarrow> (string, admin_record) btmap \<Rightarrow> (string, admin_record) btmap" where
  "evict_dedup cap m =
     (if bt_len m > cap then
        (case oldest (entries m) of
           None \<Rightarrow> m
         | Some k \<Rightarrow> evict_dedup cap (bt_remove k m))
      else m)"
  by pat_completeness auto
termination
proof (relation "measure (\<lambda>(cap, m). bt_len m)")
  fix cap :: nat and m :: "(string, admin_record) btmap" and k
  assume "oldest (entries m) = Some k"
  then obtain v where "bt_get m k = Some v"
    using oldest_min bt.get_ents by metis
  then show "((cap, bt_remove k m), cap, m) \<in> measure (\<lambda>(cap, m). bt_len m)"
    using bt_len_remove by fastforce
qed simp

declare evict_dedup.simps [simp del]

definition prune_dedup :: "u64 \<Rightarrow> policy_state \<Rightarrow> policy_state" where
  "prune_dedup now p = p\<lparr>ps_dedup := evict_dedup DEDUP_MAX_ENTRIES
     (bt_retain (\<lambda>_ r. sat_sub now (ar_request_ts r) \<le> DEDUP_TTL_SECS) (ps_dedup p))\<rparr>"

definition apply_admin ::
  "ext \<Rightarrow> string \<Rightarrow> string \<Rightarrow> u64 \<Rightarrow> policy_command \<Rightarrow> u64 \<Rightarrow> policy_state \<Rightarrow> policy_result \<times> policy_state" where
  "apply_admin X request_id request_hash request_ts command raft_index p =
     (case bt_get (ps_dedup p) request_id of
        Some r \<Rightarrow>
          (if ar_request_hash r = request_hash
           then ResAdmin request_id (ar_policy_epoch r) (ar_raft_index r) True (ar_outcome r)
           else ResAdmin request_id (ps_policy_epoch p) raft_index True
                  (OutRejected ''request_id_conflict'' (M_RequestIdConflict request_id)), p)
      | None \<Rightarrow>
          (case apply_inner X command p of
             (r, p') \<Rightarrow>
               let outcome = (case r of Inr (service, v, changed) \<Rightarrow> OutApplied service v changed
                                      | Inl (code, msg) \<Rightarrow> OutRejected code msg);
                   epoch = ps_policy_epoch p';
                   p'' = p'\<lparr>ps_dedup := bt_insert request_id
                     \<lparr>ar_request_hash = request_hash, ar_outcome = outcome, ar_policy_epoch = epoch,
                      ar_raft_index = raft_index, ar_request_ts = request_ts\<rparr> (ps_dedup p')\<rparr>
               in (ResAdmin request_id epoch raft_index False outcome, prune_dedup request_ts p'')))"

fun apply_command_at :: "ext \<Rightarrow> policy_command \<Rightarrow> u64 \<Rightarrow> policy_state \<Rightarrow> policy_result \<times> policy_state" where
  "apply_command_at X (Admin request_id kid request_hash request_ts command) raft_index p =
     apply_admin X request_id request_hash request_ts command raft_index p"
| "apply_command_at X cmd raft_index p =
     (case apply_inner X cmd p of
        (Inr (service, v, changed), p') \<Rightarrow> (ResApplied service v (ps_policy_epoch p') changed, p')
      | (Inl (code, msg), p') \<Rightarrow> (ResRejected code msg (ps_policy_epoch p'), p'))"

definition apply_command :: "ext \<Rightarrow> policy_command \<Rightarrow> policy_state \<Rightarrow> policy_result \<times> policy_state" where
  "apply_command X cmd p = apply_command_at X cmd 0 p"

abbreviation policy_service_version :: "policy_state \<Rightarrow> string \<Rightarrow> u64 option" where
  "policy_service_version p service \<equiv> map_option ss_version (bt_get (ps_services p) service)"

definition policy_service_members :: "policy_state \<Rightarrow> string \<Rightarrow> string list option" where
  "policy_service_members p service =
     map_option (\<lambda>t. sorted_list_of_fset (ss_members t)) (bt_get (ps_services p) service)"

end
