(* ===== verification/Policy_Inv.thy ===== *)
theory Policy_Inv
  imports Policy
begin

text \<open>
  What holds of the policy state machine over every run: rejected commands change nothing, the epoch
  never falls and moves with every change of the published policy, the well-formedness invariant
  \<open>policy_inv\<close>, exactly-once application of administrator requests, and the use bound of join tokens.
\<close>

section \<open>Rejections and frames\<close>

lemma policy_validate_peers_iff: "policy_validate_peers X ps = Inr u \<longleftrightarrow> (\<forall>p \<in> set ps. is_valid_peer_id X p)"
  by (induction ps) auto

lemmas policy_op_defs = policy_create_service_def policy_delete_service_def policy_add_members_def
  policy_remove_members_def policy_set_members_def policy_edit_members_def policy_finish_change_def
  issue_join_token_def consume_join_token_def bump_epoch_def

lemma apply_inner_reject: "apply_inner X c p = (Inl e, p') \<Longrightarrow> p' = p"
  by (cases c) (auto simp: policy_op_defs Let_def split: if_splits option.splits sum.splits prod.splits)

lemma apply_inner_frame [simp]:
  "ps_dedup (snd (apply_inner X c p)) = ps_dedup p"
  "ps_network (snd (apply_inner X c p)) = ps_network p"
  by (cases c; auto simp: policy_op_defs Let_def split: if_splits option.splits sum.splits prod.splits)+

text \<open>The part of the state that is published: whitelists, the index and its expiry.\<close>

definition published :: "policy_state \<Rightarrow> (string, service_state) btmap \<times> (string, u64) btmap \<times> u64" where
  "published p = (ps_services p, ps_tombstones p, ps_index_expires_at p)"

lemma policy_edit_cases:
  assumes "\<And>ps ms. snd (edit ps ms) \<longleftrightarrow> fst (edit ps ms) \<noteq> ms"
  shows "(\<exists>e. policy_edit_members X edit service peers p = (Inl e, p))
    \<or> (\<exists>t. bt_get (ps_services p) service = Some t \<and> (\<forall>q \<in> set peers. is_valid_peer_id X q) \<and>
        (if snd (edit peers (ss_members t)) then
           policy_edit_members X edit service peers p = (Inr (sat_add (ss_version t) 1, True),
             bump_epoch (p\<lparr>ps_services := bt_insert service
               \<lparr>ss_version = sat_add (ss_version t) 1, ss_members = fst (edit peers (ss_members t))\<rparr>
               (ps_services p)\<rparr>))
         else policy_edit_members X edit service peers p = (Inr (ss_version t, False), p)))"
proof (cases "policy_validate_peers X peers")
  case (Inr u)
  show ?thesis
  proof (cases "bt_get (ps_services p) service")
    case None
    with Inr show ?thesis
      by (simp add: policy_edit_members_def)
  next
    case (Some t)
    have t: "t\<lparr>ss_members := ms, ss_version := v\<rparr> = \<lparr>ss_version = v, ss_members = ms\<rparr>" for ms v
      by (cases t) simp
    have u: "fst (edit peers (ss_members t)) = ss_members t" if "\<not> snd (edit peers (ss_members t))"
      using assms that by blast
    have "\<forall>q \<in> set peers. is_valid_peer_id X q"
      using Inr by (simp add: policy_validate_peers_iff)
    then show ?thesis
      using Inr Some u by (intro disjI2 exI [of _ t])
        (simp add: policy_edit_members_def policy_finish_change_def t
          case_prod_unfold Let_def bt.ins_ins bt.ins_same)
  qed
qed (simp add: policy_edit_members_def)

text \<open>
  The effect of one inner command: nothing, a new epoch with a new published policy, or a change of
  the join tokens only.
\<close>

datatype effect = NoEffect | Publishes | Tokens

fun effect_of :: "ext \<Rightarrow> policy_command \<Rightarrow> policy_state \<Rightarrow> effect" where
  "effect_of X c p =
     (case fst (apply_inner X c p) of
        Inl _ \<Rightarrow> NoEffect
      | Inr (_, _, changed) \<Rightarrow>
          if \<not> changed then NoEffect
          else (case c of IssueJoinToken _ \<Rightarrow> Tokens | ConsumeJoinToken _ _ _ _ \<Rightarrow> Tokens | _ \<Rightarrow> Publishes))"

text \<open>The three member commands as an edit of one service's members.\<close>

fun as_edit :: "policy_command \<Rightarrow>
  ((string list \<Rightarrow> string fset \<Rightarrow> string fset \<times> bool) \<times> string \<times> string list) option" where
  "as_edit (AddMembers service peers) = Some (add_edit, service, peers)"
| "as_edit (RemoveMembers service peers) = Some (remove_edit, service, peers)"
| "as_edit (SetMembers service peers) = Some (set_edit, service, peers)"
| "as_edit _ = None"

lemma as_edit_changed: "as_edit c = Some (edit, service, peers) \<Longrightarrow> snd (edit ps ms) \<longleftrightarrow> fst (edit ps ms) \<noteq> ms"
  by (cases c) (auto simp: edits_changed)

lemma as_edit_apply:
  "as_edit c = Some (edit, service, peers) \<Longrightarrow> apply_inner X c p =
    (case policy_edit_members X edit service peers p of
       (Inl e, p') \<Rightarrow> (Inl e, p') | (Inr (v, ch), p') \<Rightarrow> (Inr (Some service, Some v, ch), p'))"
  by (cases c) (auto simp: policy_add_members_def policy_remove_members_def policy_set_members_def)

lemma edit_effect:
  assumes "as_edit c = Some (edit, service, peers)"
  shows "(effect_of X c p = NoEffect \<and> snd (apply_inner X c p) = p)
    \<or> (effect_of X c p = Publishes \<and>
       (\<exists>t. bt_get (ps_services p) service = Some t \<and> (\<forall>q \<in> set peers. is_valid_peer_id X q) \<and>
         snd (edit peers (ss_members t)) \<and>
         snd (apply_inner X c p) = bump_epoch (p\<lparr>ps_services := bt_insert service
               \<lparr>ss_version = sat_add (ss_version t) 1, ss_members = fst (edit peers (ss_members t))\<rparr>
               (ps_services p)\<rparr>)))"
  using policy_edit_cases [where edit = edit and X = X and service = service and peers = peers and p = p]
    as_edit_changed [OF assms] as_edit_apply [OF assms, of X p] assms
  by (cases c) (auto split: if_splits)

lemma create_effect:
  "(effect_of X (CreateService service ms) p = NoEffect \<and> snd (apply_inner X (CreateService service ms) p) = p)
   \<or> (effect_of X (CreateService service ms) p = Publishes \<and> bt_get (ps_services p) service = None \<and>
      is_valid_service_name service \<and> (\<forall>q \<in> set ms. is_valid_peer_id X q) \<and>
      snd (apply_inner X (CreateService service ms) p) = bump_epoch (p\<lparr>ps_services := bt_insert service
        \<lparr>ss_version = 1, ss_members = fset_of_list ms\<rparr> (ps_services p)\<rparr>))"
  using policy_validate_peers_iff [of X ms "()"]
  by (cases "policy_validate_peers X ms"; cases "bt_get (ps_services p) service")
    (auto simp: policy_create_service_def)

lemma delete_effect:
  "(effect_of X (DeleteService service) p = NoEffect \<and> snd (apply_inner X (DeleteService service) p) = p)
   \<or> (effect_of X (DeleteService service) p = Publishes \<and>
      (\<exists>t. bt_get (ps_services p) service = Some t \<and>
       snd (apply_inner X (DeleteService service) p) = bump_epoch (p\<lparr>ps_services := bt_remove service (ps_services p),
         ps_tombstones := bt_insert service (sat_add (ss_version t) 1) (ps_tombstones p)\<rparr>)))"
  by (cases "bt_get (ps_services p) service") (auto simp: policy_delete_service_def Let_def)

lemma issue_effect:
  "(effect_of X (IssueJoinToken t) p = NoEffect \<and> snd (apply_inner X (IssueJoinToken t) p) = p)
   \<or> (effect_of X (IssueJoinToken t) p = Tokens \<and> bt_get (ps_join_tokens p) (jt_jti t) = None \<and>
      jt_v t = 1 \<and> jt_max_uses t \<noteq> 0 \<and> jt_network t = ps_network p \<and> \<not> is_blank (jt_jti t) \<and>
      snd (apply_inner X (IssueJoinToken t) p) = p\<lparr>ps_join_tokens :=
        bt_insert (jt_jti t) \<lparr>sj_token = t, sj_uses = 0\<rparr> (ps_join_tokens p)\<rparr>)"
  by (auto simp: issue_join_token_def)

lemma consume_effect:
  "(effect_of X (ConsumeJoinToken jti nid peer at) p = NoEffect \<and>
      snd (apply_inner X (ConsumeJoinToken jti nid peer at) p) = p)
   \<or> (effect_of X (ConsumeJoinToken jti nid peer at) p = Tokens \<and>
      (\<exists>r. bt_get (ps_join_tokens p) jti = Some r \<and> sj_uses r < jt_max_uses (sj_token r) \<and>
        (jt_bind_peer_id (sj_token r) = [] \<or> jt_bind_peer_id (sj_token r) = peer) \<and>
        at \<le> jt_expires_at (sj_token r) \<and>
        snd (apply_inner X (ConsumeJoinToken jti nid peer at) p) = p\<lparr>ps_join_tokens :=
          bt_insert jti (r\<lparr>sj_uses := sat_add32 (sj_uses r) 1\<rparr>) (ps_join_tokens p)\<rparr>))"
  by (cases "bt_get (ps_join_tokens p) jti") (auto simp: consume_join_token_def)

lemma renew_effect:
  "effect_of X (RenewIndex e) p = Publishes"
  "snd (apply_inner X (RenewIndex e) p) = (bump_epoch p)\<lparr>ps_index_expires_at := e\<rparr>"
  by simp_all

declare effect_of.simps [simp del]

lemma admin_effect: "effect_of X (Admin a b h t c) p = NoEffect" "snd (apply_inner X (Admin a b h t c) p) = p"
  by (simp_all add: effect_of.simps)

lemma bump_epoch_fields [simp]:
  "ps_network (bump_epoch p) = ps_network p" "ps_services (bump_epoch p) = ps_services p"
  "ps_tombstones (bump_epoch p) = ps_tombstones p" "ps_dedup (bump_epoch p) = ps_dedup p"
  "ps_join_tokens (bump_epoch p) = ps_join_tokens p" "ps_index_expires_at (bump_epoch p) = ps_index_expires_at p"
  "ps_policy_epoch (bump_epoch p) = sat_add (ps_policy_epoch p) 1"
  by (simp_all add: bump_epoch_def)

lemma effect_cases:
  "(case effect_of X c p of
      NoEffect \<Rightarrow> snd (apply_inner X c p) = p
    | Publishes \<Rightarrow> ps_policy_epoch (snd (apply_inner X c p)) = sat_add (ps_policy_epoch p) 1 \<and>
        ps_join_tokens (snd (apply_inner X c p)) = ps_join_tokens p
    | Tokens \<Rightarrow> ps_policy_epoch (snd (apply_inner X c p)) = ps_policy_epoch p \<and>
        published (snd (apply_inner X c p)) = published p)"
proof (cases "as_edit c")
  case (Some a)
  then show ?thesis
    using edit_effect [of c "fst a" "fst (snd a)" "snd (snd a)" X p] by auto
next
  case None
  then show ?thesis
  proof (cases c)
    case (CreateService a b)
    then show ?thesis using create_effect [of X a b p] by auto
  next
    case (DeleteService a)
    then show ?thesis using delete_effect [of X a p] by auto
  next
    case (IssueJoinToken t)
    then show ?thesis using issue_effect [of X t p] by (auto simp: published_def)
  next
    case (ConsumeJoinToken a b d e)
    then show ?thesis using consume_effect [of X a b d e p] by (auto simp: published_def)
  qed (simp_all add: admin_effect renew_effect)
qed

section \<open>The dedup table\<close>

lemma oldest_None: "oldest xs = None \<longleftrightarrow> xs = []"
  by (cases xs) auto

lemma evict_dedup_len: "bt_len (evict_dedup cap m) \<le> cap"
proof (induction cap m rule: evict_dedup.induct)
  case (1 cap m)
  then show ?case
    by (subst evict_dedup.simps) (auto simp: oldest_None bt_len_def split: option.splits)
qed

lemma evict_dedup_sub: "bt_get (evict_dedup cap m) k = Some r \<Longrightarrow> bt_get m k = Some r"
proof (induction cap m rule: evict_dedup.induct)
  case (1 cap m)
  then show ?case
    by (subst (asm) (2) evict_dedup.simps) (auto split: if_splits option.splits)
qed

lemma apply_admin_fields:
  "apply_admin X rid h ts c i p = (r, p') \<Longrightarrow>
   (p' = p \<and> (\<exists>rec. bt_get (ps_dedup p) rid = Some rec)) \<or>
   (bt_get (ps_dedup p) rid = None \<and> (\<exists>d. p' = (snd (apply_inner X c p))\<lparr>ps_dedup := d\<rparr> \<and> bt_len d \<le> DEDUP_MAX_ENTRIES))"
  by (auto simp: apply_admin_def prune_dedup_def evict_dedup_len Let_def
      split: option.splits prod.splits sum.splits if_splits)

text \<open>What one log entry runs: its own command, or the command inside an administrator request.\<close>

fun inner_command :: "policy_command \<Rightarrow> policy_command" where
  "inner_command (Admin _ _ _ _ c) = c"
| "inner_command c = c"

lemma apply_command_fields:
  "snd (apply_command_at X c i p) = p \<or>
   (\<exists>d. snd (apply_command_at X c i p) = (snd (apply_inner X (inner_command c) p))\<lparr>ps_dedup := d\<rparr> \<and>
     (d = ps_dedup p \<or> bt_len d \<le> DEDUP_MAX_ENTRIES))"
proof (cases "\<exists>a k h t b. c = Admin a k h t b")
  case True
  then obtain a k h t b where c: "c = Admin a k h t b"
    by blast
  then show ?thesis
    using apply_admin_fields [of X a h t b i p] by (cases "apply_admin X a h t b i p") auto
next
  case False
  have "snd (apply_command_at X c i p) = snd (apply_inner X c p)" "inner_command c = c"
    using False by (cases c; auto split: prod.splits sum.splits)+
  then show ?thesis
    by (intro disjI2 exI [of _ "ps_dedup p"]) (simp add: policy_state.surjective)
qed

section \<open>The invariant\<close>

definition services_inv :: "ext \<Rightarrow> (string, service_state) btmap \<Rightarrow> bool" where
  "services_inv X m \<longleftrightarrow> (\<forall>n t. bt_get m n = Some t \<longrightarrow>
     is_valid_service_name n \<and> 1 \<le> ss_version t \<and> (\<forall>q. q |\<in>| ss_members t \<longrightarrow> is_valid_peer_id X q))"

definition tombstones_inv :: "(string, u64) btmap \<Rightarrow> bool" where
  "tombstones_inv m \<longleftrightarrow> (\<forall>n v. bt_get m n = Some v \<longrightarrow> is_valid_service_name n \<and> 2 \<le> v)"

definition tokens_inv :: "string \<Rightarrow> (string, stored_join_token) btmap \<Rightarrow> bool" where
  "tokens_inv network m \<longleftrightarrow> (\<forall>j r. bt_get m j = Some r \<longrightarrow>
     jt_jti (sj_token r) = j \<and> jt_v (sj_token r) = 1 \<and> jt_network (sj_token r) = network \<and>
     0 < jt_max_uses (sj_token r) \<and> sj_uses r \<le> jt_max_uses (sj_token r))"

definition policy_inv :: "ext \<Rightarrow> policy_state \<Rightarrow> bool" where
  "policy_inv X p \<longleftrightarrow> 1 \<le> ps_policy_epoch p \<and> services_inv X (ps_services p) \<and>
     tombstones_inv (ps_tombstones p) \<and> bt_len (ps_dedup p) \<le> DEDUP_MAX_ENTRIES \<and>
     tokens_inv (ps_network p) (ps_join_tokens p)"

lemma sat_add_one_ge: "1 \<le> a \<Longrightarrow> 1 \<le> sat_add a 1" "1 \<le> a \<Longrightarrow> 2 \<le> sat_add a 1"
  using sat_add_ge [of a 1] by (auto simp: word_le_nat_alt unat_sat_add)

lemma sat_add32_le: "u < m \<Longrightarrow> sat_add32 u 1 \<le> m \<and> unat (sat_add32 u 1) = Suc (unat u)"
proof -
  assume "u < m"
  then have "u \<noteq> - 1"
    by (metis word_order.extremum_strict)
  then have "u + 1 \<noteq> 0"
    by (simp add: eq_neg_iff_add_eq_0)
  then have s: "unat (u + 1) = Suc (unat u)"
    by (simp add: unatSuc add.commute)
  moreover have "\<not> u + 1 < u"
    using s by (simp add: word_less_nat_alt)
  ultimately show ?thesis
    using \<open>u < m\<close> by (simp add: sat_add32_def word_less_nat_alt word_le_nat_alt)
qed

lemma sat_add32_eq: "u < m \<Longrightarrow> sat_add32 u 1 = u + 1"
proof -
  assume "u < m"
  then have "u \<noteq> - 1"
    by (metis word_order.extremum_strict)
  then show ?thesis
    using word_inc_gt [of u] by (auto simp: sat_add32_def dest: order.strict_trans)
qed

lemma edit_members_valid:
  assumes "as_edit c = Some (edit, service, peers)" "\<forall>q \<in> set peers. is_valid_peer_id X q"
    and "\<And>q. q |\<in>| ms \<Longrightarrow> is_valid_peer_id X q" "q |\<in>| fst (edit peers ms)"
  shows "is_valid_peer_id X q"
  using assms by (cases c) (auto simp: edits_members fset_of_list_elem)

lemma services_inv_insert:
  "services_inv X m \<Longrightarrow> is_valid_service_name n \<Longrightarrow> 1 \<le> v \<Longrightarrow>
   (\<And>q. q |\<in>| ms \<Longrightarrow> is_valid_peer_id X q) \<Longrightarrow>
   services_inv X (bt_insert n \<lparr>ss_version = v, ss_members = ms\<rparr> m)"
  unfolding services_inv_def by simp

lemma services_inv_remove: "services_inv X m \<Longrightarrow> services_inv X (bt_remove n m)"
  unfolding services_inv_def by simp

lemma tombstones_inv_insert:
  "tombstones_inv m \<Longrightarrow> is_valid_service_name n \<Longrightarrow> 2 \<le> v \<Longrightarrow> tombstones_inv (bt_insert n v m)"
  unfolding tombstones_inv_def by simp

lemma tokens_inv_issue:
  "tokens_inv network m \<Longrightarrow> jt_v t = 1 \<Longrightarrow> jt_network t = network \<Longrightarrow> jt_max_uses t \<noteq> 0 \<Longrightarrow>
   tokens_inv network (bt_insert (jt_jti t) \<lparr>sj_token = t, sj_uses = 0\<rparr> m)"
  unfolding tokens_inv_def by (simp add: word_neq_0_conv)

lemma tokens_inv_consume:
  "tokens_inv network m \<Longrightarrow> bt_get m j = Some r \<Longrightarrow> sj_uses r < jt_max_uses (sj_token r) \<Longrightarrow>
   tokens_inv network (bt_insert j (r\<lparr>sj_uses := sat_add32 (sj_uses r) 1\<rparr>) m)"
  unfolding tokens_inv_def using sat_add32_le by simp

lemma services_invD:
  "services_inv X m \<Longrightarrow> bt_get m n = Some t \<Longrightarrow>
   is_valid_service_name n \<and> 1 \<le> ss_version t \<and> (\<forall>q. q |\<in>| ss_members t \<longrightarrow> is_valid_peer_id X q)"
  unfolding services_inv_def by blast

lemma edit_inv:
  assumes "policy_inv X p" "as_edit c = Some (edit, service, peers)"
  shows "policy_inv X (snd (apply_inner X c p))"
  using edit_effect [OF assms(2), of X p]
proof (elim disjE conjE exE)
  fix t
  assume t: "bt_get (ps_services p) service = Some t" "\<forall>q\<in>set peers. is_valid_peer_id X q"
    and p': "snd (apply_inner X c p) = bump_epoch (p\<lparr>ps_services := bt_insert service
      \<lparr>ss_version = sat_add (ss_version t) 1, ss_members = fst (edit peers (ss_members t))\<rparr> (ps_services p)\<rparr>)"
  have inv: "services_inv X (ps_services p)"
    using assms(1) by (simp add: policy_inv_def)
  note d = services_invD [OF inv t(1)]
  have "is_valid_peer_id X q" if "q |\<in>| fst (edit peers (ss_members t))" for q
    using edit_members_valid [OF assms(2) t(2)] d that by blast
  then have "services_inv X (bt_insert service
      \<lparr>ss_version = sat_add (ss_version t) 1, ss_members = fst (edit peers (ss_members t))\<rparr> (ps_services p))"
    using d inv by (simp add: services_inv_insert sat_add_one_ge)
  then show ?thesis
    using assms(1) p' by (simp add: policy_inv_def sat_add_one_ge)
qed (use assms in simp)

lemma apply_inner_inv:
  assumes "policy_inv X p"
  shows "policy_inv X (snd (apply_inner X c p))"
proof (cases "as_edit c")
  case (Some a)
  then show ?thesis
    using edit_inv [OF assms] by (cases a) simp
next
  case None
  note inv = assms [unfolded policy_inv_def]
  show ?thesis
  proof (cases c)
    case (CreateService n ms)
    from create_effect [of X n ms p] show ?thesis
    proof (elim disjE conjE)
      assume v: "is_valid_service_name n" "\<forall>q \<in> set ms. is_valid_peer_id X q"
        and p': "snd (apply_inner X (CreateService n ms) p) = bump_epoch (p\<lparr>ps_services := bt_insert n
        \<lparr>ss_version = 1, ss_members = fset_of_list ms\<rparr> (ps_services p)\<rparr>)"
      have "services_inv X (bt_insert n \<lparr>ss_version = 1, ss_members = fset_of_list ms\<rparr> (ps_services p))"
        by (rule services_inv_insert) (use v inv in \<open>auto simp: fset_of_list_elem\<close>)
      then show ?thesis
        using p' inv by (simp add: CreateService policy_inv_def sat_add_one_ge)
    qed (use assms CreateService in simp)
  next
    case (DeleteService n)
    from delete_effect [of X n p] show ?thesis
    proof (elim disjE conjE exE)
      fix t
      assume t: "bt_get (ps_services p) n = Some t" and p': "snd (apply_inner X (DeleteService n) p) =
        bump_epoch (p\<lparr>ps_services := bt_remove n (ps_services p),
         ps_tombstones := bt_insert n (sat_add (ss_version t) 1) (ps_tombstones p)\<rparr>)"
      then show ?thesis
        using inv services_invD [of X "ps_services p" n t]
        by (simp add: DeleteService policy_inv_def services_inv_remove tombstones_inv_insert sat_add_one_ge)
    qed (use assms DeleteService in simp)
  next
    case (IssueJoinToken t)
    from issue_effect [of X t p] show ?thesis
      using inv by (elim disjE conjE) (simp_all add: IssueJoinToken policy_inv_def tokens_inv_issue)
  next
    case (ConsumeJoinToken j n q at)
    from consume_effect [of X j n q at p] show ?thesis
      using inv by (elim disjE conjE exE) (simp_all add: ConsumeJoinToken policy_inv_def tokens_inv_consume)
  next
    case (RenewIndex e)
    then show ?thesis
      using inv by (simp add: policy_inv_def sat_add_one_ge)
  qed (use assms None in simp_all)
qed

lemma policy_inv_dedup:
  "policy_inv X p \<Longrightarrow> bt_len d \<le> DEDUP_MAX_ENTRIES \<Longrightarrow> policy_inv X (p\<lparr>ps_dedup := d\<rparr>)"
  by (simp add: policy_inv_def)

lemma apply_command_inv: "policy_inv X p \<Longrightarrow> policy_inv X (snd (apply_command_at X c i p))"
  using apply_command_fields [of X c i p] apply_inner_inv [of X p "inner_command c"]
  by (auto simp: policy_inv_dedup) (auto simp: policy_inv_def)

lemma policy_inv_new: "policy_inv X (policy_new network)"
  by (simp add: policy_inv_def policy_new_def services_inv_def tombstones_inv_def tokens_inv_def bt_len_def)

text \<open>The states of a replica: the initial state and what log entries lead to.\<close>

inductive policy_reach :: "ext \<Rightarrow> string \<Rightarrow> policy_state \<Rightarrow> bool" for X network where
  reach_new: "policy_reach X network (policy_new network)"
| reach_apply: "policy_reach X network p \<Longrightarrow> policy_reach X network (snd (apply_command_at X c i p))"

lemma policy_reach_inv: "policy_reach X network p \<Longrightarrow> policy_inv X p"
  by (induction rule: policy_reach.induct) (simp_all add: policy_inv_new apply_command_inv)

section \<open>The epoch\<close>

lemma apply_inner_epoch:
  "ps_policy_epoch p \<le> ps_policy_epoch (snd (apply_inner X c p))"
  "published (snd (apply_inner X c p)) \<noteq> published p \<Longrightarrow>
   ps_policy_epoch (snd (apply_inner X c p)) = sat_add (ps_policy_epoch p) 1"
  using effect_cases [of X c p] by (auto split: effect.splits simp: sat_add_ge)

lemma apply_command_epoch:
  "ps_policy_epoch p \<le> ps_policy_epoch (snd (apply_command_at X c i p))"
  "published (snd (apply_command_at X c i p)) \<noteq> published p \<Longrightarrow>
   ps_policy_epoch (snd (apply_command_at X c i p)) = sat_add (ps_policy_epoch p) 1"
  using apply_command_fields [of X c i p] apply_inner_epoch [where p = p and X = X and c = "inner_command c"]
  by (auto simp: published_def)

end
