(* ===== verification/Policy_Runs.thy ===== *)
theory Policy_Runs
  imports Policy_Inv
begin

text \<open>
  Properties of whole logs: an administrator request takes effect once and its repetition gives the
  first answer, a join token admits at most \<open>max_uses\<close> nodes, and the state machine implements the
  old \<open>Store\<close> operation by operation.
\<close>

section \<open>Runs\<close>

fun policy_run :: "ext \<Rightarrow> (policy_command \<times> u64) list \<Rightarrow> policy_state \<Rightarrow> policy_state" where
  "policy_run X [] p = p"
| "policy_run X ((c, i) # log) p = policy_run X log (snd (apply_command_at X c i p))"

lemma policy_run_inv: "policy_inv X p \<Longrightarrow> policy_inv X (policy_run X log p)"
  by (induction X log p rule: policy_run.induct) (simp_all add: apply_command_inv)

lemma policy_run_append: "policy_run X (log @ log') p = policy_run X log' (policy_run X log p)"
  by (induction X log p rule: policy_run.induct) simp_all

section \<open>Exactly-once requests\<close>

text \<open>The records other than \<open>rid\<close>'s that are at least as new as log index \<open>i\<close>.\<close>

definition newer :: "string \<Rightarrow> u64 \<Rightarrow> (string, admin_record) btmap \<Rightarrow> nat" where
  "newer rid i m = length (filter (\<lambda>(k, r). k \<noteq> rid \<and> i \<le> ar_raft_index r) (entries m))"

lemma length_filter_upd: "length (filter P (upd_sorted k v ps)) \<le> Suc (length (filter P ps))"
  by (induction ps) auto

lemma length_filter_and: "length (filter (\<lambda>x. P x \<and> Q x) xs) \<le> length (filter Q xs)"
  by (induction xs) auto

lemma length_filter_upd_same: "\<forall>v. \<not> P (k, v) \<Longrightarrow> length (filter P (upd_sorted k v ps)) = length (filter P ps)"
  by (induction ps) auto

lemma newer_insert: "newer rid i (bt_insert k r m) \<le> Suc (newer rid i m)"
  by (simp add: newer_def length_filter_upd)

lemma newer_insert_same: "newer rid i (bt_insert rid r m) = newer rid i m"
  by (simp add: newer_def length_filter_upd_same)

lemma newer_remove: "newer rid i (bt_remove k m) \<le> newer rid i m"
  unfolding newer_def entries_simps filter_filter by (rule length_filter_and)

lemma newer_retain: "newer rid i (bt_retain P m) \<le> newer rid i m"
  unfolding newer_def bt_retain.rep_eq filter_filter by (rule length_filter_and)

lemma newer_all:
  assumes "bt_get m rid = Some r" "\<forall>(k, r') \<in> set (entries m). i \<le> ar_raft_index r'"
  shows "Suc (newer rid i m) = bt_len m"
proof -
  have "filter (\<lambda>(k, r). k \<noteq> rid \<and> i \<le> ar_raft_index r) (entries m) = filter (\<lambda>p. fst p \<noteq> rid) (entries m)"
    using assms(2) by (intro filter_cong) auto
  then have "newer rid i m = bt_len (bt_remove rid m)"
    by (simp add: newer_def bt_len_def)
  then show ?thesis
    using bt_len_remove [OF assms(1)] by simp
qed

lemma evict_newer: "newer rid i (evict_dedup cap m) \<le> newer rid i m"
proof (induction cap m rule: evict_dedup.induct)
  case (1 cap m)
  then show ?case
    using newer_remove [of rid i _ m] by (subst evict_dedup.simps) (auto split: option.splits intro: le_trans)
qed

lemma evict_keep:
  "bt_get m rid = Some r \<Longrightarrow> newer rid (ar_raft_index r) m < cap \<Longrightarrow>
   bt_get (evict_dedup cap m) rid = Some r"
proof (induction cap m rule: evict_dedup.induct)
  case (1 cap m)
  show ?case
  proof (cases "bt_len m > cap")
    case True
    then obtain k where k: "oldest (entries m) = Some k"
      by (cases "oldest (entries m)") (auto simp: oldest_None bt_len_def)
    have "k \<noteq> rid"
    proof
      assume "k = rid"
      then have "\<forall>(k', r') \<in> set (entries m). ar_raft_index r \<le> ar_raft_index r'"
        using oldest_min [OF k] 1(2) bt.get_ents by (metis option.inject)
      then show False
        using newer_all [OF 1(2), of "ar_raft_index r"] 1(3) True by simp
    qed
    then show ?thesis
      using 1 True k newer_remove [of rid "ar_raft_index r" k m]
      by (subst evict_dedup.simps) simp
  next
    case False
    then show ?thesis
      using 1(2) by (subst evict_dedup.simps) simp
  qed
qed

definition is_admin :: "policy_command \<Rightarrow> bool" where
  "is_admin c = (case c of Admin _ _ _ _ _ \<Rightarrow> True | _ \<Rightarrow> False)"

text \<open>Every administrator request of the log was made at most a TTL after \<open>ts\<close>.\<close>

definition within_ttl :: "u64 \<Rightarrow> policy_command \<Rightarrow> bool" where
  "within_ttl ts c = (case c of Admin _ _ _ t _ \<Rightarrow> sat_sub t ts \<le> DEDUP_TTL_SECS | _ \<Rightarrow> True)"

definition remembered :: "string \<Rightarrow> admin_record \<Rightarrow> nat \<Rightarrow> policy_state \<Rightarrow> bool" where
  "remembered rid r n p \<longleftrightarrow> bt_get (ps_dedup p) rid = Some r \<and> newer rid (ar_raft_index r) (ps_dedup p) \<le> n"

lemma apply_nonadmin_dedup: "\<not> is_admin c \<Longrightarrow> ps_dedup (snd (apply_command_at X c i p)) = ps_dedup p"
proof -
  assume "\<not> is_admin c"
  then have "snd (apply_command_at X c i p) = snd (apply_inner X c p)"
    by (cases c) (auto simp: is_admin_def split: prod.splits sum.splits)
  then show ?thesis
    by simp
qed

lemma prune_remembered:
  assumes "remembered rid r n p" "n < DEDUP_MAX_ENTRIES" "sat_sub now (ar_request_ts r) \<le> DEDUP_TTL_SECS"
  shows "remembered rid r n (prune_dedup now p)"
proof -
  let ?m = "bt_retain (\<lambda>_ r. sat_sub now (ar_request_ts r) \<le> DEDUP_TTL_SECS) (ps_dedup p)"
  have "bt_get ?m rid = Some r"
    using assms by (simp add: remembered_def)
  moreover have "newer rid (ar_raft_index r) ?m \<le> n"
    using assms(1) by (auto simp: remembered_def intro: le_trans [OF newer_retain])
  ultimately show ?thesis
    using evict_keep [of ?m rid r DEDUP_MAX_ENTRIES] assms(2)
      evict_newer [of rid "ar_raft_index r" DEDUP_MAX_ENTRIES ?m]
    by (simp add: remembered_def prune_dedup_def)
qed

lemma apply_admin_new:
  assumes "bt_get (ps_dedup p) rid = None"
  shows "\<exists>out. let p' = snd (apply_inner X c p) in apply_admin X rid h ts c i p =
    (ResAdmin rid (ps_policy_epoch p') i False out,
     prune_dedup ts (p'\<lparr>ps_dedup := bt_insert rid \<lparr>ar_request_hash = h, ar_outcome = out,
       ar_policy_epoch = ps_policy_epoch p', ar_raft_index = i, ar_request_ts = ts\<rparr> (ps_dedup p)\<rparr>))"
  using assms apply_inner_frame(1) [of X c p]
  by (cases "apply_inner X c p") (simp add: apply_admin_def Let_def)

lemma admin_remembered:
  assumes "remembered rid r n p" "Suc n < DEDUP_MAX_ENTRIES" "sat_sub ts (ar_request_ts r) \<le> DEDUP_TTL_SECS"
  shows "remembered rid r (Suc n) (snd (apply_admin X rid' h ts c i p))"
proof (cases "bt_get (ps_dedup p) rid'")
  case (Some r')
  then show ?thesis
    using assms(1) by (auto simp: apply_admin_def remembered_def)
next
  case None
  then have "rid \<noteq> rid'"
    using assms(1) by (auto simp: remembered_def)
  then have "remembered rid r (Suc n) (p'\<lparr>ps_dedup := bt_insert rid' rec (ps_dedup p)\<rparr>)" for p' rec
    using assms(1) newer_insert [of rid "ar_raft_index r" rid' rec "ps_dedup p"]
    by (auto simp: remembered_def)
  then have "remembered rid r (Suc n) (prune_dedup ts (p'\<lparr>ps_dedup := bt_insert rid' rec (ps_dedup p)\<rparr>))" for p' rec
    using prune_remembered assms(2,3) by blast
  then show ?thesis
    using apply_admin_new [OF None, of X c h ts i] by (auto simp: Let_def)
qed

lemma run_remembered:
  assumes "remembered rid r n p" "list_all (\<lambda>(c, _). within_ttl (ar_request_ts r) c) log"
    and "n + length (filter (is_admin \<circ> fst) log) < DEDUP_MAX_ENTRIES"
  shows "bt_get (ps_dedup (policy_run X log p)) rid = Some r"
  using assms
proof (induction X log p arbitrary: n rule: policy_run.induct)
  case (2 X c i log p)
  show ?case
  proof (cases "is_admin c")
    case True
    then obtain a k h t b where c: "c = Admin a k h t b"
      by (cases c) (auto simp: is_admin_def)
    then have "remembered rid r (Suc n) (snd (apply_command_at X c i p))"
      using 2(2-4) True admin_remembered [of rid r n p t X a h b i] by (auto simp: within_ttl_def)
    then show ?thesis
      using 2 True by simp
  next
    case False
    then have "remembered rid r n (snd (apply_command_at X c i p))"
      using 2(2) apply_nonadmin_dedup [OF False] by (simp add: remembered_def)
    then show ?thesis
      using 2 False by simp
  qed
qed (simp add: remembered_def)

lemma first_remembered:
  assumes "bt_get (ps_dedup p) rid = None" "\<forall>(k, r) \<in> set (entries (ps_dedup p)). ar_raft_index r < i"
  shows "\<exists>epoch out. fst (apply_admin X rid h ts c i p) = ResAdmin rid epoch i False out \<and>
    remembered rid \<lparr>ar_request_hash = h, ar_outcome = out, ar_policy_epoch = epoch, ar_raft_index = i,
      ar_request_ts = ts\<rparr> 0 (snd (apply_admin X rid h ts c i p))"
proof -
  have n: "newer rid i (ps_dedup p) = 0"
    using assms(2) by (auto simp: newer_def filter_empty_conv)
  have "remembered rid r 0 (prune_dedup ts (q\<lparr>ps_dedup := bt_insert rid r (ps_dedup p)\<rparr>))"
    if "ar_raft_index r = i" "ar_request_ts r = ts" for r q
    using that n by (intro prune_remembered)
      (simp_all add: remembered_def newer_insert_same DEDUP_MAX_ENTRIES_def sat_sub_def)
  then show ?thesis
    using apply_admin_new [OF assms(1), of X c h ts i] by (auto simp: Let_def)
qed

section \<open>Join tokens\<close>

definition token_uses :: "policy_state \<Rightarrow> string \<Rightarrow> nat" where
  "token_uses p jti = (case bt_get (ps_join_tokens p) jti of None \<Rightarrow> 0 | Some r \<Rightarrow> unat (sj_uses r))"

text \<open>A log entry admits a node under \<open>jti\<close>: it consumes the token, is accepted and is no repetition.\<close>

definition consumes :: "string \<Rightarrow> policy_command \<Rightarrow> bool" where
  "consumes jti c = (case c of ConsumeJoinToken j _ _ _ \<Rightarrow> j = jti | _ \<Rightarrow> False)"

definition accepted_result :: "policy_result \<Rightarrow> bool" where
  "accepted_result r =
     (case r of
        ResApplied _ _ _ _ \<Rightarrow> True
      | ResAdmin _ _ _ dup (OutApplied _ _ _) \<Rightarrow> \<not> dup
      | _ \<Rightarrow> False)"

fun admissions :: "ext \<Rightarrow> string \<Rightarrow> (policy_command \<times> u64) list \<Rightarrow> policy_state \<Rightarrow> nat" where
  "admissions X jti [] p = 0"
| "admissions X jti ((c, i) # log) p =
     (if consumes jti (inner_command c) \<and> accepted_result (fst (apply_command_at X c i p)) then 1 else 0)
     + admissions X jti log (snd (apply_command_at X c i p))"

lemma inner_token_uses:
  "token_uses (snd (apply_inner X c p)) jti =
   token_uses p jti + (if consumes jti c \<and> \<not> isl (fst (apply_inner X c p)) then 1 else 0)"
proof (cases c)
  case (IssueJoinToken t)
  then show ?thesis
    using issue_effect [of X t p] by (auto simp: token_uses_def consumes_def)
next
  case (ConsumeJoinToken j n q a)
  from consume_effect [of X j n q a p] show ?thesis
  proof (rule disjE, goal_cases)
    case 1
    then show ?thesis
      by (auto simp: ConsumeJoinToken effect_of.simps split: sum.splits if_splits prod.splits)
  next
    case 2
    then obtain r where r: "bt_get (ps_join_tokens p) j = Some r" "sj_uses r < jt_max_uses (sj_token r)"
      "snd (apply_inner X (ConsumeJoinToken j n q a) p) = p\<lparr>ps_join_tokens :=
          bt_insert j (r\<lparr>sj_uses := sat_add32 (sj_uses r) 1\<rparr>) (ps_join_tokens p)\<rparr>"
      by blast
    have "\<not> isl (fst (apply_inner X (ConsumeJoinToken j n q a) p))"
      using 2 by (auto simp: effect_of.simps split: sum.splits)
    then show ?thesis
      using r(1,3) sat_add32_le [OF r(2)]
      by (auto simp: ConsumeJoinToken token_uses_def consumes_def simp del: apply_inner.simps)
  qed
qed (use effect_cases [of X c p] in \<open>auto simp: token_uses_def consumes_def effect_of.simps
      split: effect.splits sum.splits prod.splits if_splits\<close>)

lemma token_uses_dedup [simp]: "token_uses (p\<lparr>ps_dedup := d\<rparr>) jti = token_uses p jti"
  by (simp add: token_uses_def)

lemma nonadmin_apply:
  assumes "\<not> is_admin c"
  shows "snd (apply_command_at X c i p) = snd (apply_inner X c p) \<and> inner_command c = c \<and>
    (accepted_result (fst (apply_command_at X c i p)) \<longleftrightarrow> \<not> isl (fst (apply_inner X c p)))"
  using assms by (cases c) (auto simp: is_admin_def accepted_result_def split: prod.splits sum.splits)

lemma admin_token_uses:
  "token_uses (snd (apply_admin X rid h ts c i p)) jti =
   token_uses p jti + (if consumes jti c \<and> accepted_result (fst (apply_admin X rid h ts c i p)) then 1 else 0)"
proof (cases "bt_get (ps_dedup p) rid")
  case None
  have "token_uses (prune_dedup ts q) jti = token_uses q jti" for q
    by (simp add: prune_dedup_def)
  then show ?thesis
    using None inner_token_uses [of X c p jti]
    by (cases "apply_inner X c p") (auto simp: apply_admin_def Let_def accepted_result_def
        split: sum.splits)
qed (auto simp: apply_admin_def accepted_result_def split: admin_outcome.splits)

lemma command_token_uses:
  "token_uses (snd (apply_command_at X c i p)) jti = token_uses p jti +
    (if consumes jti (inner_command c) \<and> accepted_result (fst (apply_command_at X c i p)) then 1 else 0)"
proof (cases "is_admin c")
  case True
  then show ?thesis
    by (cases c) (simp_all add: is_admin_def admin_token_uses)
next
  case False
  then show ?thesis
    using nonadmin_apply [OF False, of X i p] inner_token_uses [of X c p jti] by simp
qed

lemma run_token_uses: "token_uses (policy_run X log p) jti = token_uses p jti + admissions X jti log p"
  by (induction X jti log p rule: admissions.induct) (simp_all add: command_token_uses)

lemma token_uses_bound:
  "policy_inv X p \<Longrightarrow> bt_get (ps_join_tokens p) jti = Some r \<Longrightarrow> token_uses p jti \<le> unat (jt_max_uses (sj_token r))"
  by (auto simp: policy_inv_def tokens_inv_def token_uses_def word_le_nat_alt)

section \<open>Refinement of the old store\<close>

text \<open>The store operation that a policy command replaces.\<close>

fun store_apply :: "store_env \<Rightarrow> policy_command \<Rightarrow> store \<Rightarrow> fs \<Rightarrow> ((store_error + u64) \<times> store \<times> fs) option" where
  "store_apply E (CreateService n ms) s f = Some (create_service E n ms s f)"
| "store_apply E (DeleteService n) s f = Some (delete_service E n s f)"
| "store_apply E (AddMembers n ms) s f = Some (add_members E n ms s f)"
| "store_apply E (RemoveMembers n ms) s f = Some (remove_members E n ms s f)"
| "store_apply E (SetMembers n ms) s f = Some (set_members E n ms s f)"
| "store_apply E _ s f = None"

fun same_reject :: "store_error \<Rightarrow> reject \<Rightarrow> bool" where
  "same_reject (St_InvalidService n) r = (r = (''invalid_service'', M_InvalidService n))"
| "same_reject (St_InvalidPeer n) r = (r = (''invalid_peer'', M_InvalidPeer n))"
| "same_reject (St_NotFound n) r = (r = (''not_found'', M_NotFound n))"
| "same_reject (St_AlreadyExists n) r = (r = (''already_exists'', M_AlreadyExists n))"
| "same_reject _ r = False"

definition same_answer :: "store_error + u64 \<Rightarrow> reject + string option \<times> u64 option \<times> bool \<Rightarrow> bool" where
  "same_answer a b =
     (case (a, b) of
        (Inl e, Inl r) \<Rightarrow> same_reject e r
      | (Inr v, Inr (_, v', _)) \<Rightarrow> v' = Some v
      | _ \<Rightarrow> False)"

text \<open>No counter of the store is at its maximum, where the two additions differ.\<close>

definition no_overflow :: "store \<Rightarrow> bool" where
  "no_overflow s \<longleftrightarrow> st_index_version s \<noteq> u64_max \<and>
     (\<forall>n t. bt_get (st_services s) n = Some t \<longrightarrow> ss_version t \<noteq> u64_max)"

lemma sat_add_one_eq: "a \<noteq> u64_max \<Longrightarrow> sat_add a 1 = a + 1"
  using word_inc_gt [of a] by (auto simp: sat_add_def)

lemma validate_peers_same:
  "validate_peers X ps = Inl e \<Longrightarrow> \<exists>r. policy_validate_peers X ps = Inl r \<and> same_reject e r"
  "validate_peers X ps = Inr u \<Longrightarrow> policy_validate_peers X ps = Inr ()"
  by (induction ps) (auto split: if_splits)

lemma snapshot_eq_iff:
  "store_snapshot s = to_store_snapshot p \<longleftrightarrow>
   st_network s = ps_network p \<and> st_index_version s = ps_policy_epoch p \<and>
   st_services s = ps_services p \<and> st_tombstones s = ps_tombstones p"
  by (simp add: store_snapshot_def to_store_snapshot_def)

lemma edit_refines:
  assumes "store_snapshot s = to_store_snapshot p" "no_overflow s"
  shows "case edit_members E edit n ps s f of (r, s', f') \<Rightarrow>
    case policy_edit_members (en_ext E) edit n ps p of (r', p') \<Rightarrow>
      store_snapshot s' = to_store_snapshot p' \<and>
      (case r' of Inl e \<Rightarrow> (\<exists>x. r = Inl x \<and> same_reject x e) | Inr (v, _) \<Rightarrow> r = Inr v)"
proof (cases "validate_peers (en_ext E) ps")
  case (Inl e)
  then show ?thesis
    using validate_peers_same(1) [OF Inl] assms(1)
    by (auto simp: edit_members_def policy_edit_members_def)
next
  case (Inr u)
  note v = validate_peers_same(2) [OF Inr]
  have eq: "st_services s = ps_services p" "st_index_version s = ps_policy_epoch p"
    using assms(1) by (simp_all add: snapshot_eq_iff)
  show ?thesis
  proof (cases "bt_get (ps_services p) n")
    case None
    then show ?thesis
      using Inr v eq assms(1) by (simp add: edit_members_def policy_edit_members_def)
  next
    case (Some t)
    then have "ss_version t \<noteq> u64_max" "ps_policy_epoch p \<noteq> u64_max"
      using assms(2) eq by (auto simp: no_overflow_def)
    then show ?thesis
      using Inr v eq Some assms(1)
      by (simp add: edit_members_def policy_edit_members_def finish_change_def policy_finish_change_def
          bump_epoch_def case_prod_unfold Let_def snapshot_eq_iff sat_add_one_eq)
  qed
qed

lemma command_refines:
  assumes "store_snapshot s = to_store_snapshot p" "no_overflow s" "\<And>q. st_path q = st_path s \<Longrightarrow> fst (save E q f) = Inr ()"
    and "store_apply E c s f = Some (r, s', f')"
  shows "store_snapshot s' = to_store_snapshot (snd (apply_inner (en_ext E) c p)) \<and>
    same_answer r (fst (apply_inner (en_ext E) c p))"
proof (cases "as_edit c")
  case (Some a)
  obtain edit n ps where a: "a = (edit, n, ps)"
    by (cases a)
  have "store_apply E c s f = Some (edit_members E edit n ps s f)"
    using Some a by (cases c) (auto simp: add_members_def remove_members_def set_members_def)
  then show ?thesis
    using edit_refines [OF assms(1,2), of E edit n ps f] assms(4)
      as_edit_apply [OF Some [unfolded a], of "en_ext E" p]
    by (auto simp: same_answer_def split: prod.splits sum.splits)
next
  case None
  have eq: "st_services s = ps_services p" "st_index_version s = ps_policy_epoch p"
    using assms(1) by (simp_all add: snapshot_eq_iff)
  have e: "ps_policy_epoch p \<noteq> u64_max"
    using assms(2) eq by (simp add: no_overflow_def)
  have sv: "\<exists>f'. save E q f = (Inr (), f')" if "st_path q = st_path s" for q
    using assms(3) [OF that] by (cases "save E q f") simp
  show ?thesis
  proof (cases c)
    case (CreateService n ms)
    then show ?thesis
      using assms(1,4) eq e validate_peers_same [of "en_ext E" ms]
        sv [of "s\<lparr>st_services := bt_insert n \<lparr>ss_version = 1, ss_members = fset_of_list ms\<rparr> (st_services s),
             st_index_version := st_index_version s + 1\<rparr>"]
      by (cases "validate_peers (en_ext E) ms")
        (auto simp: create_service_def policy_create_service_def bump_epoch_def same_answer_def
          snapshot_eq_iff sat_add_one_eq Let_def split: if_splits)
  next
    case (DeleteService n)
    then show ?thesis
    proof (cases "bt_get (ps_services p) n")
      case (Some t)
      then have "ss_version t \<noteq> u64_max"
        using assms(2) eq by (simp add: no_overflow_def)
      then show ?thesis
        using DeleteService Some assms(1,4) eq e
          sv [of "s\<lparr>st_services := bt_remove n (st_services s),
             st_tombstones := bt_insert n (ss_version t + 1) (st_tombstones s),
             st_index_version := st_index_version s + 1\<rparr>"]
        by (auto simp: delete_service_def policy_delete_service_def bump_epoch_def same_answer_def
            snapshot_eq_iff sat_add_one_eq Let_def)
    qed (use DeleteService assms(1,4) eq in
        \<open>auto simp: delete_service_def policy_delete_service_def same_answer_def snapshot_eq_iff\<close>)
  qed (use None assms(4) in simp_all)
qed

section \<open>Properties\<close>

text \<open>
  C14: Every state a replica can reach is well-formed: the epoch is at least 1, every service has a
  valid name, a positive version and only valid PeerIds, every tombstone is at least 2, the dedup
  table holds at most ten thousand requests, and every join token is recorded under its own id, for
  this network, and was used at most \<open>max_uses\<close> times.
\<close>

theorem policy_states_wf: "policy_reach X network p \<Longrightarrow> policy_inv X p \<and> ps_network p = network"
proof -
  have n: "ps_network (snd (apply_command_at X c i p)) = ps_network p" for c i p
    using apply_command_fields [of X c i p] by auto
  have "policy_reach X network p \<Longrightarrow> ps_network p = network"
    by (induction rule: policy_reach.induct) (simp_all add: policy_new_def n)
  then show "policy_reach X network p \<Longrightarrow> policy_inv X p \<and> ps_network p = network"
    using policy_reach_inv by blast
qed

theorem policy_states_wf_witness:
  "policy_inv demo_ext (snd (apply_command_at demo_ext (CreateService ''cmd'' [''p'']) 1 (policy_new ''net'')))"
  using policy_states_wf [OF policy_reach.reach_apply [OF policy_reach.reach_new]] by blast

text \<open>
  A rejected command changes nothing but the dedup table: the result of a plain command is a
  rejection only when the whole state is unchanged, and an administrator request whose inner command is
  rejected leaves the epoch, services, tombstones, expiry and tokens as they were.
\<close>

theorem rejection_changes_nothing:
  assumes "apply_command_at X c i p = (r, p')"
    and "(\<exists>code msg e. r = ResRejected code msg e) \<or> (\<exists>id e j dup code msg. r = ResAdmin id e j dup (OutRejected code msg))"
  shows "\<exists>d. p' = p\<lparr>ps_dedup := d\<rparr> \<and> (\<not> is_admin c \<longrightarrow> d = ps_dedup p)"
proof (cases "is_admin c")
  case True
  then obtain a k h t b where c: "c = Admin a k h t b"
    by (cases c) (auto simp: is_admin_def)
  show ?thesis
  proof (cases "bt_get (ps_dedup p) a")
    case (Some rec)
    then have "p' = p"
      using assms(1) c by (auto simp: apply_admin_def split: if_splits)
    then show ?thesis
      by (intro exI [of _ "ps_dedup p"]) simp
  next
    case None
    have "isl (fst (apply_inner X b p))"
      using assms c None by (auto simp: apply_admin_def Let_def split: prod.splits sum.splits)
    then have "snd (apply_inner X b p) = p"
      using apply_inner_reject [of X b p] by (cases "apply_inner X b p") (auto simp: isl_def)
    then show ?thesis
      using apply_admin_new [OF None, of X b h t i] assms(1) c True
      by (auto simp: Let_def prune_dedup_def)
  qed
next
  case False
  have "isl (fst (apply_inner X c p))"
    using assms nonadmin_apply [OF False, of X i p] by (auto simp: accepted_result_def)
  then have "p' = p"
    using assms(1) nonadmin_apply [OF False, of X i p] apply_inner_reject [of X c p]
    by (cases "apply_inner X c p") (auto simp: isl_def)
  then show ?thesis
    by (intro exI [of _ "ps_dedup p"]) simp
qed

theorem rejection_changes_nothing_witness:
  "\<exists>d. snd (apply_command_at demo_ext (DeleteService ''cmd'') 7 (policy_new ''net'')) = (policy_new ''net'')\<lparr>ps_dedup := d\<rparr>"
proof -
  have e: "apply_command_at demo_ext (DeleteService ''cmd'') 7 (policy_new ''net'') =
    (ResRejected ''not_found'' (M_NotFound ''cmd'') 1, policy_new ''net'')"
    by (simp add: policy_delete_service_def policy_new_def)
  from rejection_changes_nothing [OF e] show ?thesis
    using e by auto
qed

text \<open>
  C26: The policy epoch never falls, and every log entry that changes a service, a tombstone or the
  index expiry raises it by exactly one (until it saturates). So records with the same epoch carry the
  same policy.
\<close>

theorem epoch_tracks_policy:
  "ps_policy_epoch p \<le> ps_policy_epoch (snd (apply_command_at X c i p)) \<and>
   (published (snd (apply_command_at X c i p)) \<noteq> published p \<longrightarrow>
    ps_policy_epoch (snd (apply_command_at X c i p)) = sat_add (ps_policy_epoch p) 1 \<and>
    (ps_policy_epoch p \<noteq> u64_max \<longrightarrow> ps_policy_epoch p < ps_policy_epoch (snd (apply_command_at X c i p))))"
  using apply_command_epoch [where p = p and X = X and c = c and i = i] sat_add_one_gt by auto

theorem epoch_tracks_policy_witness:
  "ps_policy_epoch (snd (apply_command_at demo_ext (RenewIndex 9) 1 (policy_new ''net''))) = 2 \<and>
   ps_policy_epoch (policy_new ''net'') < ps_policy_epoch (snd (apply_command_at demo_ext (RenewIndex 9) 1 (policy_new ''net'')))"
  using epoch_tracks_policy [of "policy_new ''net''" demo_ext "RenewIndex 9" 1]
  by (simp add: published_def policy_new_def bump_epoch_def sat_add_def)

text \<open>
  C4: Administrator requests are applied exactly once. After a request was applied (at log index \<open>i\<close>,
  above the indexes already recorded), repeating it with the same id and content gives the first
  outcome, epoch and log index, marked as a duplicate, and does not touch the state, as long as fewer
  than ten thousand administrator requests were logged since and none of them more than a day later.
  Reusing the id with other content is rejected as a conflict.
\<close>

theorem admin_request_exactly_once:
  assumes "bt_get (ps_dedup p) rid = None" "\<forall>(k, r) \<in> set (entries (ps_dedup p)). ar_raft_index r < i"
    and "apply_command_at X (Admin rid kid h ts c) i p = (first, p1)"
    and "list_all (\<lambda>(c, _). within_ttl ts c) log"
    and "length (filter (is_admin \<circ> fst) log) < DEDUP_MAX_ENTRIES"
    and "q = policy_run X log p1"
  shows "\<exists>epoch out. first = ResAdmin rid epoch i False out \<and>
    apply_command_at X (Admin rid kid' h ts' c') j q = (ResAdmin rid epoch i True out, q) \<and>
    (h' \<noteq> h \<longrightarrow> apply_command_at X (Admin rid kid' h' ts' c') j q =
       (ResAdmin rid (ps_policy_epoch q) j True (OutRejected ''request_id_conflict'' (M_RequestIdConflict rid)), q))"
proof -
  obtain epoch out where e: "first = ResAdmin rid epoch i False out"
    and r: "remembered rid \<lparr>ar_request_hash = h, ar_outcome = out, ar_policy_epoch = epoch, ar_raft_index = i,
      ar_request_ts = ts\<rparr> 0 p1"
    using first_remembered [OF assms(1,2), of X h ts c] assms(3) by auto
  have "bt_get (ps_dedup q) rid = Some \<lparr>ar_request_hash = h, ar_outcome = out, ar_policy_epoch = epoch,
      ar_raft_index = i, ar_request_ts = ts\<rparr>"
    using run_remembered [OF r, of log X] assms(4-6) by simp
  then show ?thesis
    using e by (auto simp: apply_admin_def)
qed

theorem admin_request_exactly_once_witness:
  "\<exists>epoch out. apply_command_at demo_ext (Admin ''r1'' ''root'' ''h'' 101 (RenewIndex 5)) 9
      (policy_run demo_ext [(CreateService ''cmd'' [''p''], 2), (Admin ''r2'' ''root'' ''g'' 100 (DeleteService ''cmd''), 3)]
        (snd (apply_command_at demo_ext (Admin ''r1'' ''root'' ''h'' 100 (RenewIndex 5)) 1 (policy_new ''net'')))) =
      (ResAdmin ''r1'' epoch 1 True out,
       policy_run demo_ext [(CreateService ''cmd'' [''p''], 2), (Admin ''r2'' ''root'' ''g'' 100 (DeleteService ''cmd''), 3)]
        (snd (apply_command_at demo_ext (Admin ''r1'' ''root'' ''h'' 100 (RenewIndex 5)) 1 (policy_new ''net''))))"
proof -
  let ?p = "policy_new ''net''"
  let ?log = "[(CreateService ''cmd'' [''p''], 2), (Admin ''r2'' ''root'' ''g'' 100 (DeleteService ''cmd''), 3)] :: (policy_command \<times> u64) list"
  obtain r1 p1 where 1: "apply_command_at demo_ext (Admin ''r1'' ''root'' ''h'' 100 (RenewIndex 5)) 1 ?p = (r1, p1)"
    by (cases "apply_command_at demo_ext (Admin ''r1'' ''root'' ''h'' 100 (RenewIndex 5)) 1 ?p") blast
  have "bt_get (ps_dedup ?p) ''r1'' = None" "\<forall>(k, r) \<in> set (entries (ps_dedup ?p)). ar_raft_index r < 1"
    by (simp_all add: policy_new_def)
  moreover have "list_all (\<lambda>(c, _). within_ttl 100 c) ?log"
    "length (filter (is_admin \<circ> fst) ?log) < DEDUP_MAX_ENTRIES"
    by (simp_all add: within_ttl_def is_admin_def DEDUP_MAX_ENTRIES_def sat_sub_def)
  ultimately show ?thesis
    using admin_request_exactly_once [OF _ _ 1 _ _ refl, where log = ?log and kid' = "''root''" and ts' = 101
        and c' = "RenewIndex 5" and j = 9 and h' = "''h''"]
    unfolding 1 snd_conv by blast
qed

text \<open>
  C15: A join token admits at most \<open>max_uses\<close> nodes. Over any log from a fresh state, the number of
  accepted consumptions of a token id is the recorded use count, which never exceeds the token's
  \<open>max_uses\<close>; an id that was never issued admits nobody.
\<close>

theorem join_token_use_bound:
  "(case bt_get (ps_join_tokens (policy_run X log (policy_new network))) jti of
      None \<Rightarrow> admissions X jti log (policy_new network) = 0
    | Some r \<Rightarrow> admissions X jti log (policy_new network) = unat (sj_uses r) \<and>
        admissions X jti log (policy_new network) \<le> unat (jt_max_uses (sj_token r)))"
proof -
  let ?p = "policy_run X log (policy_new network)"
  have "token_uses (policy_new network) jti = 0"
    by (simp add: token_uses_def policy_new_def)
  then have "admissions X jti log (policy_new network) = token_uses ?p jti"
    by (simp add: run_token_uses)
  then show ?thesis
    using token_uses_bound [OF policy_run_inv [OF policy_inv_new], of X log network jti]
    by (auto simp: token_uses_def split: option.splits)
qed

text \<open>
  A node is admitted only under a live token for it: an accepted consumption finds the token
  recorded and not used up, the node's PeerId is the bound one (when the token is bound), and the use
  is not after the expiry; it adds one use and changes nothing else.
\<close>

theorem join_token_admission:
  assumes "apply_command_at X (ConsumeJoinToken jti nid peer at) i p = (ResApplied s v e ch, p')"
  shows "\<exists>r. bt_get (ps_join_tokens p) jti = Some r \<and> sj_uses r < jt_max_uses (sj_token r) \<and>
    (jt_bind_peer_id (sj_token r) \<noteq> [] \<longrightarrow> jt_bind_peer_id (sj_token r) = peer) \<and>
    at \<le> jt_expires_at (sj_token r) \<and>
    p' = p\<lparr>ps_join_tokens := bt_insert jti (r\<lparr>sj_uses := sj_uses r + 1\<rparr>) (ps_join_tokens p)\<rparr>"
proof -
  have a: "\<not> isl (fst (apply_inner X (ConsumeJoinToken jti nid peer at) p))"
    "p' = snd (apply_inner X (ConsumeJoinToken jti nid peer at) p)"
    using assms by (auto split: prod.splits sum.splits)
  then obtain r where r: "bt_get (ps_join_tokens p) jti = Some r" "sj_uses r < jt_max_uses (sj_token r)"
    "jt_bind_peer_id (sj_token r) = [] \<or> jt_bind_peer_id (sj_token r) = peer" "at \<le> jt_expires_at (sj_token r)"
    "p' = p\<lparr>ps_join_tokens := bt_insert jti (r\<lparr>sj_uses := sat_add32 (sj_uses r) 1\<rparr>) (ps_join_tokens p)\<rparr>"
    using consume_effect [of X jti nid peer at p]
    by (auto simp: effect_of.simps consume_join_token_def split: option.splits if_splits)
  moreover have "sat_add32 (sj_uses r) 1 = sj_uses r + 1"
    by (rule sat_add32_eq [OF r(2)])
  ultimately show ?thesis
    by (intro exI [of _ r]) auto
qed

definition demo_token :: join_token where
  "demo_token = \<lparr>jt_v = 1, jt_jti = ''j1'', jt_cluster_id = ''c'', jt_network = ''net'', jt_audience = ''a'',
     jt_expires_at = 100, jt_max_uses = 1, jt_bind_peer_id = ''p'', jt_kid = ''root'', jt_sig = []\<rparr>"

theorem join_token_admission_witness:
  "\<exists>p'. apply_command_at demo_ext (ConsumeJoinToken ''j1'' 7 ''p'' 50) 2
       (snd (apply_command_at demo_ext (IssueJoinToken demo_token) 1 (policy_new ''net''))) =
       (ResApplied (Some ''j1'') None 1 True, p') \<and>
     bt_get (ps_join_tokens p') ''j1'' = Some \<lparr>sj_token = demo_token, sj_uses = 1\<rparr>"
proof -
  let ?p = "(policy_new ''net'')\<lparr>ps_join_tokens := bt_insert ''j1'' \<lparr>sj_token = demo_token, sj_uses = 0\<rparr> bt_empty\<rparr>"
  have i: "snd (apply_command_at demo_ext (IssueJoinToken demo_token) 1 (policy_new ''net'')) = ?p"
    by (simp add: issue_join_token_def demo_token_def policy_new_def is_blank_def trim_start.simps)
  obtain p' where a: "apply_command_at demo_ext (ConsumeJoinToken ''j1'' 7 ''p'' 50) 2 ?p =
      (ResApplied (Some ''j1'') None 1 True, p')"
    by (simp add: consume_join_token_def demo_token_def policy_new_def)
  show ?thesis
    using join_token_admission [OF a] a i by auto
qed

text \<open>
  C6: The state machine implements the old store. From corresponding states without a counter at its
  maximum, a service or member command leads to corresponding states and to the same answer (the same
  version, or the same rejection) as the store operation it replaces, when the store's saves succeed.
\<close>

theorem policy_implements_store:
  assumes "store_snapshot s = to_store_snapshot p" "no_overflow s"
    and "\<And>q. st_path q = st_path s \<Longrightarrow> fst (save E q f) = Inr ()"
    and "store_apply E c s f = Some (r, s', f')"
  shows "store_snapshot s' = to_store_snapshot (snd (apply_inner (en_ext E) c p)) \<and>
    same_answer r (fst (apply_inner (en_ext E) c p))"
  using assms by (rule command_refines)

theorem policy_implements_store_witness:
  "\<exists>r s' f'. store_apply (demo_env (store_snapshot demo_store)) (CreateService ''cmd'' [''p'']) demo_store demo_fs =
      Some (r, s', f') \<and>
    store_snapshot s' = to_store_snapshot (snd (apply_inner demo_ext (CreateService ''cmd'' [''p'']) (policy_new ''net'')))"
proof -
  let ?E = "demo_env (store_snapshot demo_store)"
  have sv: "fst (save ?E q demo_fs) = Inr ()" if "st_path q = st_path demo_store" for q
    using atomic_write_fine [of "st_path demo_store" "''state''" "Some 0x180" demo_fs] that
    by (cases "atomic_write io_fine (st_path demo_store) ''state'' (Some 0x180) demo_fs")
      (auto simp: save_def demo_env_def demo_store_def has_temp_def with_extension_def file_stem_def)
  have eq: "store_snapshot demo_store = to_store_snapshot (policy_new ''net'')" "no_overflow demo_store"
    by (simp_all add: snapshot_eq_iff demo_store_def policy_new_def no_overflow_def)
  obtain r s' f' where ap: "store_apply ?E (CreateService ''cmd'' [''p'']) demo_store demo_fs = Some (r, s', f')"
    by (cases "create_service ?E ''cmd'' [''p''] demo_store demo_fs") simp
  show ?thesis
    using policy_implements_store [OF eq sv ap] ap by auto
qed

end
