(* ===== verification/Storage.thy ===== *)
theory Storage
  imports Policy_Runs "HOL-Library.Countable"
begin

text \<open>
  \<open>src/raft/storage.rs\<close>: the Raft log, vote and policy state machine in one redb database. The database is three tables; a write
  transaction takes effect as a whole or, when any of its steps fails, not at all (the flag \<open>io_write\<close>), which is what redb
  promises. The CBOR codecs of the openraft types are a record of functions \<open>codec\<close>, with the laws \<open>codec_law\<close>; votes are
  of any type \<open>'v\<close> and cluster memberships of any type \<open>'m\<close>.
\<close>

section \<open>The database\<close>

record db =
  db_log :: "(u64, bytes) btmap"
  db_meta :: "(string, bytes) btmap"
  db_snapshot :: "(string, bytes) btmap"

definition db_empty :: db where
  "db_empty = \<lparr>db_log = bt_empty, db_meta = bt_empty, db_snapshot = bt_empty\<rparr>"

record db_io =
  io_read_ok :: bool
  io_write_ok :: bool

datatype storage_error = IoRead | IoWrite

definition KEY_VOTE :: string where "KEY_VOTE = ''vote''"
definition KEY_LAST_PURGED :: string where "KEY_LAST_PURGED = ''last_purged''"
definition KEY_COMMITTED :: string where "KEY_COMMITTED = ''committed''"
definition KEY_APPLIED :: string where "KEY_APPLIED = ''applied''"
definition KEY_MEMBERSHIP :: string where "KEY_MEMBERSHIP = ''membership''"
definition KEY_POLICY_STATE :: string where "KEY_POLICY_STATE = ''policy_state''"
definition KEY_SNAPSHOT_META :: string where "KEY_SNAPSHOT_META = ''meta''"
definition KEY_SNAPSHOT_DATA :: string where "KEY_SNAPSHOT_DATA = ''data''"

lemmas key_defs = KEY_VOTE_def KEY_LAST_PURGED_def KEY_COMMITTED_def KEY_APPLIED_def KEY_MEMBERSHIP_def KEY_POLICY_STATE_def
  KEY_SNAPSHOT_META_def KEY_SNAPSHOT_DATA_def

section \<open>openraft types and their codecs\<close>

record log_id =
  li_term :: u64
  li_node :: node_id
  li_index :: u64

datatype 'm payload = Blank | Normal policy_command | Membership 'm

record 'm entry =
  en_log_id :: log_id
  en_payload :: "'m payload"

type_synonym 'm stored_membership = "log_id option \<times> 'm"

record 'm snapshot_meta =
  sm_last_log_id :: "log_id option"
  sm_last_membership :: "'m stored_membership"
  sm_snapshot_id :: string

text \<open>
  \<open>cd_null\<close> is the encoding of an absent option; serde writes a present option as its value. Each decoder is
  \<open>None\<close> on bytes that do not parse.
\<close>

record ('v, 'm) codec =
  cd_null :: bytes
  cd_vote :: "'v \<Rightarrow> bytes"
  cd_unvote :: "bytes \<Rightarrow> 'v option"
  cd_log_id :: "log_id \<Rightarrow> bytes"
  cd_unlog_id :: "bytes \<Rightarrow> log_id option"
  cd_entry :: "'m entry \<Rightarrow> bytes"
  cd_unentry :: "bytes \<Rightarrow> 'm entry option"
  cd_state :: "policy_state \<Rightarrow> bytes"
  cd_unstate :: "bytes \<Rightarrow> policy_state option"
  cd_membership :: "'m stored_membership \<Rightarrow> bytes"
  cd_unmembership :: "bytes \<Rightarrow> 'm stored_membership option"
  cd_meta :: "'m snapshot_meta \<Rightarrow> bytes"
  cd_unmeta :: "bytes \<Rightarrow> 'm snapshot_meta option"

definition codec_law :: "('v, 'm) codec \<Rightarrow> bool" where
  "codec_law C \<longleftrightarrow> (\<forall>v. cd_unvote C (cd_vote C v) = Some v) \<and> (\<forall>l. cd_unlog_id C (cd_log_id C l) = Some l) \<and>
     cd_unlog_id C (cd_null C) = None \<and> (\<forall>e. cd_unentry C (cd_entry C e) = Some e) \<and> (\<forall>s. cd_unstate C (cd_state C s) = Some s) \<and>
     (\<forall>m. cd_unmembership C (cd_membership C m) = Some m) \<and> (\<forall>m. cd_unmeta C (cd_meta C m) = Some m)"

definition encode_opt_log_id :: "('v, 'm) codec \<Rightarrow> log_id option \<Rightarrow> bytes" where
  "encode_opt_log_id C l = (case l of None \<Rightarrow> cd_null C | Some i \<Rightarrow> cd_log_id C i)"

definition decode :: "(bytes \<Rightarrow> 'a option) \<Rightarrow> bytes \<Rightarrow> storage_error + 'a" where
  "decode un b = (case un b of None \<Rightarrow> Inl IoRead | Some v \<Rightarrow> Inr v)"

definition decode_opt :: "(bytes \<Rightarrow> 'a option) \<Rightarrow> bytes option \<Rightarrow> storage_error + 'a option" where
  "decode_opt un b =
     (case b of
        None \<Rightarrow> Inr None
      | Some c \<Rightarrow> (case decode un c of Inl e \<Rightarrow> Inl e | Inr v \<Rightarrow> Inr (Some v)))"

definition meta_get :: "db_io \<Rightarrow> db \<Rightarrow> string \<Rightarrow> storage_error + bytes option" where
  "meta_get io d k = (if io_read_ok io then Inr (bt_get (db_meta d) k) else Inl IoRead)"

definition snapshot_get :: "db_io \<Rightarrow> db \<Rightarrow> string \<Rightarrow> storage_error + bytes option" where
  "snapshot_get io d k = (if io_read_ok io then Inr (bt_get (db_snapshot d) k) else Inl IoRead)"

text \<open>A write transaction.\<close>

definition commit :: "db_io \<Rightarrow> (db \<Rightarrow> db) \<Rightarrow> db \<Rightarrow> (storage_error + unit) \<times> db" where
  "commit io f d = (if io_write_ok io then (Inr (), f d) else (Inl IoWrite, d))"

definition put_meta :: "string \<Rightarrow> bytes \<Rightarrow> db \<Rightarrow> db" where
  "put_meta k b d = d\<lparr>db_meta := bt_insert k b (db_meta d)\<rparr>"

section \<open>The log store\<close>

fun decode_entries :: "('v, 'm) codec \<Rightarrow> (u64 \<times> bytes) list \<Rightarrow> storage_error + 'm entry list" where
  "decode_entries C [] = Inr []"
| "decode_entries C ((k, b) # es) =
     (case decode (cd_unentry C) b of
        Inl e \<Rightarrow> Inl e
      | Inr v \<Rightarrow> (case decode_entries C es of Inl e \<Rightarrow> Inl e | Inr vs \<Rightarrow> Inr (v # vs)))"

text \<open>The range is given by its test.\<close>

definition try_get_log_entries ::
  "('v, 'm) codec \<Rightarrow> db_io \<Rightarrow> (u64 \<Rightarrow> bool) \<Rightarrow> db \<Rightarrow> storage_error + 'm entry list" where
  "try_get_log_entries C io rng d =
     (if io_read_ok io then decode_entries C (filter (\<lambda>(k, _). rng k) (entries (db_log d))) else Inl IoRead)"

record log_state =
  ls_last_purged :: "log_id option"
  ls_last_log_id :: "log_id option"

definition get_log_state :: "('v, 'm) codec \<Rightarrow> db_io \<Rightarrow> db \<Rightarrow> storage_error + log_state" where
  "get_log_state C io d =
     (case meta_get io d KEY_LAST_PURGED of
        Inl e \<Rightarrow> Inl e
      | Inr b \<Rightarrow>
          (case decode_opt (cd_unlog_id C) b of
             Inl e \<Rightarrow> Inl e
           | Inr last_purged \<Rightarrow>
               (case decode_entries C (entries (db_log d)) of
                  Inl e \<Rightarrow> Inl e
                | Inr es \<Rightarrow>
                    let final = (if es = [] then None else Some (en_log_id (last es)))
                    in Inr \<lparr>ls_last_purged = last_purged,
                            ls_last_log_id = (case final of None \<Rightarrow> last_purged | Some l \<Rightarrow> Some l)\<rparr>)))"

definition save_vote :: "('v, 'm) codec \<Rightarrow> db_io \<Rightarrow> 'v \<Rightarrow> db \<Rightarrow> (storage_error + unit) \<times> db" where
  "save_vote C io v = commit io (put_meta KEY_VOTE (cd_vote C v))"

definition read_vote :: "('v, 'm) codec \<Rightarrow> db_io \<Rightarrow> db \<Rightarrow> storage_error + 'v option" where
  "read_vote C io d = (case meta_get io d KEY_VOTE of Inl e \<Rightarrow> Inl e | Inr b \<Rightarrow> decode_opt (cd_unvote C) b)"

definition save_committed :: "('v, 'm) codec \<Rightarrow> db_io \<Rightarrow> log_id option \<Rightarrow> db \<Rightarrow> (storage_error + unit) \<times> db" where
  "save_committed C io committed = commit io (put_meta KEY_COMMITTED (encode_opt_log_id C committed))"

definition read_committed :: "('v, 'm) codec \<Rightarrow> db_io \<Rightarrow> db \<Rightarrow> storage_error + log_id option" where
  "read_committed C io d = (case meta_get io d KEY_COMMITTED of Inl e \<Rightarrow> Inl e | Inr b \<Rightarrow> decode_opt (cd_unlog_id C) b)"

text \<open>The outcome is also what the flush callback is told.\<close>

definition log_append :: "('v, 'm) codec \<Rightarrow> db_io \<Rightarrow> 'm entry list \<Rightarrow> db \<Rightarrow> (storage_error + unit) \<times> db" where
  "log_append C io es = commit io (\<lambda>d. d\<lparr>db_log :=
     fold (\<lambda>e m. bt_insert (li_index (en_log_id e)) (cd_entry C e) m) es (db_log d)\<rparr>)"

fun remove_keys :: "u64 list \<Rightarrow> (u64, bytes) btmap \<Rightarrow> (u64, bytes) btmap" where
  "remove_keys [] m = m"
| "remove_keys (k # ks) m = remove_keys ks (bt_remove k m)"

definition log_truncate :: "db_io \<Rightarrow> log_id \<Rightarrow> db \<Rightarrow> (storage_error + unit) \<times> db" where
  "log_truncate io l = commit io (\<lambda>d. d\<lparr>db_log :=
     remove_keys (filter (\<lambda>k. k \<ge> li_index l) (bt_keys (db_log d))) (db_log d)\<rparr>)"

definition log_purge :: "('v, 'm) codec \<Rightarrow> db_io \<Rightarrow> log_id \<Rightarrow> db \<Rightarrow> (storage_error + unit) \<times> db" where
  "log_purge C io l = commit io (\<lambda>d. put_meta KEY_LAST_PURGED (cd_log_id C l)
     (d\<lparr>db_log := remove_keys (filter (\<lambda>k. k \<le> li_index l) (bt_keys (db_log d))) (db_log d)\<rparr>))"

section \<open>The state machine store\<close>

record 'm sm_inner =
  si_state :: policy_state
  si_applied :: "log_id option"
  si_membership :: "'m stored_membership"

text \<open>\<open>m0\<close> is the default membership of openraft. The snapshot counter starts at 0.\<close>

record 'm sm_store =
  sm_inner :: "'m sm_inner"
  sm_snapshot_idx :: u64

definition sm_open :: "('v, 'm) codec \<Rightarrow> db_io \<Rightarrow> 'm \<Rightarrow> string \<Rightarrow> db \<Rightarrow> storage_error + 'm sm_store" where
  "sm_open C io m0 network d =
     (case meta_get io d KEY_POLICY_STATE of
        Inl e \<Rightarrow> Inl e
      | Inr sb \<Rightarrow>
          (case decode_opt (cd_unstate C) sb of
             Inl e \<Rightarrow> Inl e
           | Inr st \<Rightarrow>
               (case meta_get io d KEY_APPLIED of
                  Inl e \<Rightarrow> Inl e
                | Inr ab \<Rightarrow>
                    (case decode_opt (cd_unlog_id C) ab of
                       Inl e \<Rightarrow> Inl e
                     | Inr applied \<Rightarrow>
                         (case meta_get io d KEY_MEMBERSHIP of
                            Inl e \<Rightarrow> Inl e
                          | Inr mb \<Rightarrow>
                              (case decode_opt (cd_unmembership C) mb of
                                 Inl e \<Rightarrow> Inl e
                               | Inr mem \<Rightarrow> Inr \<lparr>sm_inner = \<lparr>
                                     si_state = (case st of None \<Rightarrow> policy_new network | Some s \<Rightarrow> s),
                                     si_applied = applied,
                                     si_membership = (case mem of None \<Rightarrow> (None, m0) | Some m \<Rightarrow> m)\<rparr>,
                                   sm_snapshot_idx = 0\<rparr>))))))"

abbreviation applied_index :: "'m sm_store \<Rightarrow> u64 option" where
  "applied_index s \<equiv> map_option li_index (si_applied (sm_inner s))"

definition persist_state ::
  "('v, 'm) codec \<Rightarrow> policy_state \<Rightarrow> log_id option \<Rightarrow> 'm stored_membership \<Rightarrow> db \<Rightarrow> db" where
  "persist_state C st applied mem d =
     put_meta KEY_MEMBERSHIP (cd_membership C mem)
       (put_meta KEY_APPLIED (encode_opt_log_id C applied)
         (put_meta KEY_POLICY_STATE (cd_state C st) d))"

text \<open>One entry of a batch.\<close>

definition apply_entry :: "ext \<Rightarrow> 'm entry \<Rightarrow> 'm sm_inner \<Rightarrow> policy_result \<times> 'm sm_inner" where
  "apply_entry X e s =
     (let l = en_log_id e; s1 = s\<lparr>si_applied := Some l\<rparr> in
      case en_payload e of
        Blank \<Rightarrow> (ResApplied None None (ps_policy_epoch (si_state s)) False, s1)
      | Normal cmd \<Rightarrow>
          (case apply_command_at X cmd (li_index l) (si_state s) of
             (r, st) \<Rightarrow> (r, s1\<lparr>si_state := st\<rparr>))
      | Membership m \<Rightarrow> (ResApplied None None (ps_policy_epoch (si_state s)) True, s1\<lparr>si_membership := (Some l, m)\<rparr>))"

fun apply_entries :: "ext \<Rightarrow> 'm entry list \<Rightarrow> 'm sm_inner \<Rightarrow> policy_result list \<times> 'm sm_inner" where
  "apply_entries X [] s = ([], s)"
| "apply_entries X (e # es) s =
     (case apply_entry X e s of
        (r, s') \<Rightarrow> (case apply_entries X es s' of (rs, s'') \<Rightarrow> (r # rs, s'')))"

definition sm_apply ::
  "ext \<Rightarrow> ('v, 'm) codec \<Rightarrow> db_io \<Rightarrow> 'm entry list \<Rightarrow> 'm sm_store \<Rightarrow> db \<Rightarrow>
   (storage_error + policy_result list) \<times> 'm sm_store \<times> db" where
  "sm_apply X C io es s d =
     (case apply_entries X es (sm_inner s) of
        (rs, i) \<Rightarrow>
          (case commit io (persist_state C (si_state i) (si_applied i) (si_membership i)) d of
             (Inl e, d') \<Rightarrow> (Inl e, s, d')
           | (Inr _, d') \<Rightarrow> (Inr rs, s\<lparr>sm_inner := i\<rparr>, d')))"

definition put_snapshot :: "bytes \<Rightarrow> bytes \<Rightarrow> db \<Rightarrow> db" where
  "put_snapshot mb data d =
     d\<lparr>db_snapshot := bt_insert KEY_SNAPSHOT_DATA data (bt_insert KEY_SNAPSHOT_META mb (db_snapshot d))\<rparr>"

text \<open>\<open>fmt\<close> builds the snapshot id from the log id and the counter.\<close>

definition build_snapshot ::
  "('v, 'm) codec \<Rightarrow> (log_id option \<Rightarrow> u64 \<Rightarrow> string) \<Rightarrow> db_io \<Rightarrow> 'm sm_store \<Rightarrow> db \<Rightarrow>
   (storage_error + 'm snapshot_meta \<times> bytes) \<times> 'm sm_store \<times> db" where
  "build_snapshot C fmt io s d =
     (let i = sm_inner s; data = cd_state C (si_state i); idx = sm_snapshot_idx s + 1;
          meta = \<lparr>sm_last_log_id = si_applied i, sm_last_membership = si_membership i, sm_snapshot_id = fmt (si_applied i) idx\<rparr>;
          s' = s\<lparr>sm_snapshot_idx := idx\<rparr>
      in case commit io (put_snapshot (cd_meta C meta) data) d of
           (Inl e, d') \<Rightarrow> (Inl e, s', d')
         | (Inr _, d') \<Rightarrow> (Inr (meta, data), s', d'))"

definition install_snapshot ::
  "('v, 'm) codec \<Rightarrow> db_io \<Rightarrow> 'm snapshot_meta \<Rightarrow> bytes \<Rightarrow> 'm sm_store \<Rightarrow> db \<Rightarrow> (storage_error + unit) \<times> 'm sm_store \<times> db" where
  "install_snapshot C io meta data s d =
     (case decode (cd_unstate C) data of
        Inl e \<Rightarrow> (Inl e, s, d)
      | Inr st \<Rightarrow>
          (case commit io (\<lambda>d. put_snapshot (cd_meta C meta) data
                   (persist_state C st (sm_last_log_id meta) (sm_last_membership meta) d)) d of
             (Inl e, d') \<Rightarrow> (Inl e, s, d')
           | (Inr _, d') \<Rightarrow> (Inr (), s\<lparr>sm_inner := \<lparr>si_state = st, si_applied = sm_last_log_id meta,
                                     si_membership = sm_last_membership meta\<rparr>\<rparr>, d')))"

definition get_current_snapshot ::
  "('v, 'm) codec \<Rightarrow> db_io \<Rightarrow> db \<Rightarrow> storage_error + ('m snapshot_meta \<times> bytes) option" where
  "get_current_snapshot C io d =
     (case snapshot_get io d KEY_SNAPSHOT_META of
        Inl e \<Rightarrow> Inl e
      | Inr None \<Rightarrow> Inr None
      | Inr (Some mb) \<Rightarrow>
          (case snapshot_get io d KEY_SNAPSHOT_DATA of
             Inl e \<Rightarrow> Inl e
           | Inr None \<Rightarrow> Inr None
           | Inr (Some data) \<Rightarrow>
               (case decode (cd_unmeta C) mb of Inl e \<Rightarrow> Inl e | Inr meta \<Rightarrow> Inr (Some (meta, data)))))"

section \<open>The interface of a durable object\<close>

text \<open>
  An object whose operations either succeed, with the effect of a specification on its abstract value, or fail and leave it
  as it was. Over any sequence of operations the value is the specification's on those that succeeded.
\<close>

text \<open>A sequence of operations, and those of it that succeeded.\<close>

fun exec_run :: "('io \<Rightarrow> 'op \<Rightarrow> 's \<Rightarrow> bool \<times> 's) \<Rightarrow> ('io \<times> 'op) list \<Rightarrow> 's \<Rightarrow> 's" where
  "exec_run exec [] s = s"
| "exec_run exec ((io, op) # ops) s = exec_run exec ops (snd (exec io op s))"

fun exec_succeeded :: "('io \<Rightarrow> 'op \<Rightarrow> 's \<Rightarrow> bool \<times> 's) \<Rightarrow> ('io \<times> 'op) list \<Rightarrow> 's \<Rightarrow> 'op list" where
  "exec_succeeded exec [] s = []"
| "exec_succeeded exec ((io, op) # ops) s =
     (if fst (exec io op s) then op # exec_succeeded exec ops (snd (exec io op s)) else exec_succeeded exec ops (snd (exec io op s)))"

locale durable_object =
  fixes value_of :: "'s \<Rightarrow> 'a"
    and exec :: "'io \<Rightarrow> 'op \<Rightarrow> 's \<Rightarrow> bool \<times> 's"
    and spec :: "'op \<Rightarrow> 'a \<Rightarrow> 'a"
    and good :: "'s \<Rightarrow> bool"
    and admissible :: "'op \<Rightarrow> bool"
  assumes succeeds: "good s \<Longrightarrow> admissible op \<Longrightarrow> exec io op s = (True, s') \<Longrightarrow> good s' \<and> value_of s' = spec op (value_of s)"
    and fails: "exec io op s = (False, s') \<Longrightarrow> s' = s"
begin

theorem run_spec:
  "good s \<Longrightarrow> \<forall>(io, op) \<in> set ops. admissible op \<Longrightarrow>
   good (exec_run exec ops s) \<and> value_of (exec_run exec ops s) = fold spec (exec_succeeded exec ops s) (value_of s)"
proof (induction ops arbitrary: s)
  case (Cons p ops)
  obtain io op where p: "p = (io, op)" by (cases p)
  obtain b s' where e: "exec io op s = (b, s')"
    by (cases "exec io op s")
  show ?case
  proof (cases b)
    case True
    then have "good s' \<and> value_of s' = spec op (value_of s)"
      using succeeds [of s op io s'] e p Cons.prems by simp
    then show ?thesis
      using Cons.IH [of s'] Cons.prems e p True by simp
  next
    case False
    then have "s' = s"
      using fails [of io op s s'] e by simp
    then show ?thesis
      using Cons.IH [of s] Cons.prems e p False by simp
  qed
qed simp

end

section \<open>A concrete codec\<close>

text \<open>
  The stored types are countable, so a number in unary is a codec for them; it is used to show that the laws can hold.
\<close>

instance raft_node_ext :: (countable) countable
  by (rule countable_classI [of "\<lambda>r. to_nat (rn_peer_id r, rn_identity_key r, rn_x25519_key r, raft_node.more r)"]) simp

instance join_token_ext :: (countable) countable
  by (rule countable_classI [of "\<lambda>r. to_nat (jt_v r, jt_jti r, jt_cluster_id r, jt_network r, jt_audience r, jt_expires_at r, jt_max_uses r, jt_bind_peer_id r, jt_kid r, jt_sig r, join_token.more r)"]) simp

instance stored_join_token_ext :: (countable) countable
  by (rule countable_classI [of "\<lambda>r. to_nat (sj_token r, sj_uses r, stored_join_token.more r)"]) simp

instance service_state_ext :: (countable) countable
  by (rule countable_classI [of "\<lambda>r. to_nat (ss_version r, ss_members r, service_state.more r)"]) simp

instance reject_msg :: countable
  by countable_datatype

instance admin_outcome :: countable
  by countable_datatype

instance admin_record_ext :: (countable) countable
  by (rule countable_classI [of "\<lambda>r. to_nat (ar_request_hash r, ar_outcome r, ar_policy_epoch r, ar_raft_index r, ar_request_ts r, admin_record.more r)"]) simp

instance policy_state_ext :: (countable) countable
  by (rule countable_classI [of "\<lambda>r. to_nat (ps_network r, ps_policy_epoch r, ps_index_expires_at r, entries (ps_services r), entries (ps_tombstones r), entries (ps_dedup r), entries (ps_join_tokens r), policy_state.more r)"]) (simp add: entries_inject)

instance log_id_ext :: (countable) countable
  by (rule countable_classI [of "\<lambda>r. to_nat (li_term r, li_node r, li_index r, log_id.more r)"]) simp

instance policy_command :: countable
  by countable_datatype

instance payload :: (countable) countable
  by countable_datatype

instance entry_ext :: (countable, countable) countable
  by (rule countable_classI [of "\<lambda>r. to_nat (en_log_id r, en_payload r, entry.more r)"]) simp

instance snapshot_meta_ext :: (countable, countable) countable
  by (rule countable_classI [of "\<lambda>r. to_nat (sm_last_log_id r, sm_last_membership r, sm_snapshot_id r, snapshot_meta.more r)"]) simp

definition demo_enc :: "'a::countable \<Rightarrow> bytes" where
  "demo_enc v = replicate (Suc (to_nat v)) (CHR ''x'')"

definition demo_dec :: "bytes \<Rightarrow> 'a::countable option" where
  "demo_dec b = (if b = [] then None else Some (from_nat (length b - 1)))"

definition demo_codec :: "(u64, u64 list) codec" where
  "demo_codec = \<lparr>cd_null = [], cd_vote = demo_enc, cd_unvote = demo_dec, cd_log_id = demo_enc, cd_unlog_id = demo_dec,
     cd_entry = demo_enc, cd_unentry = demo_dec, cd_state = demo_enc, cd_unstate = demo_dec, cd_membership = demo_enc,
     cd_unmembership = demo_dec, cd_meta = demo_enc, cd_unmeta = demo_dec\<rparr>"

lemma demo_codec_law: "codec_law demo_codec"
  by (simp add: codec_law_def demo_codec_def demo_enc_def demo_dec_def)

definition demo_io :: db_io where "demo_io = \<lparr>io_read_ok = True, io_write_ok = True\<rparr>"

definition demo_entry :: "u64 \<Rightarrow> u64 list entry" where
  "demo_entry i = \<lparr>en_log_id = \<lparr>li_term = 1, li_node = 1, li_index = i\<rparr>, en_payload = Normal (CreateService ''svc'' [])\<rparr>"

section \<open>The log as a durable object\<close>

definition log_view :: "('v, 'm) codec \<Rightarrow> db \<Rightarrow> u64 \<rightharpoonup> 'm entry" where
  "log_view C d i = (case bt_get (db_log d) i of None \<Rightarrow> None | Some b \<Rightarrow> cd_unentry C b)"

definition purged_view :: "('v, 'm) codec \<Rightarrow> db \<Rightarrow> log_id option" where
  "purged_view C d = (case bt_get (db_meta d) KEY_LAST_PURGED of None \<Rightarrow> None | Some b \<Rightarrow> cd_unlog_id C b)"

text \<open>Every stored entry decodes and is stored under its index; the purge marker decodes.\<close>

definition log_good :: "('v, 'm) codec \<Rightarrow> db \<Rightarrow> bool" where
  "log_good C d \<longleftrightarrow>
     (\<forall>i b. bt_get (db_log d) i = Some b \<longrightarrow> (\<exists>e. cd_unentry C b = Some e \<and> li_index (en_log_id e) = i)) \<and>
     (\<forall>b. bt_get (db_meta d) KEY_LAST_PURGED = Some b \<longrightarrow> cd_unlog_id C b \<noteq> None)"

datatype 'm log_op = OpAppend "'m entry list" | OpTruncate log_id | OpPurge log_id

fun log_exec :: "('v, 'm) codec \<Rightarrow> db_io \<Rightarrow> 'm log_op \<Rightarrow> db \<Rightarrow> bool \<times> db" where
  "log_exec C io (OpAppend es) d = (case log_append C io es d of (r, d') \<Rightarrow> (r = Inr (), d'))"
| "log_exec C io (OpTruncate l) d = (case log_truncate io l d of (r, d') \<Rightarrow> (r = Inr (), d'))"
| "log_exec C io (OpPurge l) d = (case log_purge C io l d of (r, d') \<Rightarrow> (r = Inr (), d'))"

text \<open>The abstract log: a partial map from indexes to entries and the last purged position.\<close>

fun log_spec :: "'m log_op \<Rightarrow> (u64 \<rightharpoonup> 'm entry) \<times> log_id option \<Rightarrow> (u64 \<rightharpoonup> 'm entry) \<times> log_id option" where
  "log_spec (OpAppend es) (m, p) = (m ++ map_of (rev (map (\<lambda>e. (li_index (en_log_id e), e)) es)), p)"
| "log_spec (OpTruncate l) (m, p) = (m |` {i. i < li_index l}, p)"
| "log_spec (OpPurge l) (m, p) = (m |` {i. li_index l < i}, Some l)"

definition log_value :: "('v, 'm) codec \<Rightarrow> db \<Rightarrow> (u64 \<rightharpoonup> 'm entry) \<times> log_id option" where
  "log_value C d = (log_view C d, purged_view C d)"

lemma commit_cases: "commit io f d = (r, d') \<Longrightarrow> r = Inr () \<and> d' = f d \<or> r = Inl IoWrite \<and> d' = d"
  by (auto simp: commit_def split: if_splits)

lemma remove_keys_get: "bt_get (remove_keys ks m) i = (if i \<in> set ks then None else bt_get m i)"
  by (induction ks m rule: remove_keys.induct) auto

lemma remove_keys_filter: "bt_get (remove_keys (filter P (bt_keys m)) m) i = (if P i then None else bt_get m i)"
  by (auto simp: remove_keys_get set_bt_keys)

lemma fold_insert_get:
  "bt_get (fold (\<lambda>e m. bt_insert (f e) (g e) m) es m) i =
   (case map_of (rev (map (\<lambda>e. (f e, e)) es)) i of None \<Rightarrow> bt_get m i | Some e \<Rightarrow> Some (g e))"
  by (induction es arbitrary: m) (auto simp: map_add_def split: option.splits)

lemma map_of_rev_key: "map_of (rev (map (\<lambda>e. (f e, e)) es)) i = Some e \<Longrightarrow> f e = i"
  by (drule map_of_SomeD) auto

lemma append_refines:
  fixes C :: "('v, 'm) codec" and es :: "'m entry list"
  assumes "codec_law C" "log_good C d"
  defines "d' \<equiv> d\<lparr>db_log := fold (\<lambda>e m. bt_insert (li_index (en_log_id e)) (cd_entry C e) m) es (db_log d)\<rparr>"
  shows "log_good C d' \<and> log_value C d' = log_spec (OpAppend es) (log_value C d)"
proof -
  have un: "cd_unentry C (cd_entry C e) = Some e" for e
    using assms(1) by (simp add: codec_law_def)
  have get: "bt_get (db_log d') i = (case map_of (rev (map (\<lambda>e. (li_index (en_log_id e), e)) es)) i of
      None \<Rightarrow> bt_get (db_log d) i | Some e \<Rightarrow> Some (cd_entry C e))" for i
    by (simp add: d'_def fold_insert_get)
  have "log_view C d' i = (log_view C d ++ map_of (rev (map (\<lambda>e. (li_index (en_log_id e), e)) es))) i" for i
    by (simp add: log_view_def get un map_add_def split: option.split)
  moreover have "\<exists>e. cd_unentry C b = Some e \<and> li_index (en_log_id e) = i" if "bt_get (db_log d') i = Some b" for i b
  proof (cases "map_of (rev (map (\<lambda>e. (li_index (en_log_id e), e)) es)) i")
    case None
    then show ?thesis
      using that assms(2) by (simp add: get log_good_def)
  next
    case (Some e)
    then show ?thesis
      using that un map_of_rev_key [of "\<lambda>e. li_index (en_log_id e)" es i e] by (auto simp: get)
  qed
  then have "log_good C d'"
    using assms(2) by (simp add: log_good_def d'_def)
  ultimately show ?thesis
    by (auto simp: log_value_def purged_view_def d'_def fun_eq_iff)
qed

lemma restrict_refines:
  assumes "log_good C d" "\<And>i. bt_get (db_log d') i = (if P i then None else bt_get (db_log d) i)"
    and "bt_get (db_meta d') KEY_LAST_PURGED = bt_get (db_meta d) KEY_LAST_PURGED \<or>
      (\<exists>b. bt_get (db_meta d') KEY_LAST_PURGED = Some b \<and> cd_unlog_id C b \<noteq> None)"
  shows "log_good C d' \<and> log_view C d' = log_view C d |` {i. \<not> P i}"
proof
  show "log_good C d'"
    using assms unfolding log_good_def by (metis option.sel option.simps(3))
  show "log_view C d' = log_view C d |` {i. \<not> P i}"
    by (auto simp: log_view_def fun_eq_iff restrict_map_def assms(2))
qed

lemma truncate_refines:
  fixes C :: "('v, 'm) codec" and l :: log_id
  assumes "log_good C d"
  defines "d' \<equiv> d\<lparr>db_log := remove_keys (filter (\<lambda>k. k \<ge> li_index l) (bt_keys (db_log d))) (db_log d)\<rparr>"
  shows "log_good C d' \<and> log_value C d' = log_spec (OpTruncate l) (log_value C d)"
  using restrict_refines [OF assms(1), of d' "\<lambda>k. k \<ge> li_index l"]
  by (simp add: d'_def remove_keys_filter log_value_def purged_view_def not_le)

lemma purge_refines:
  fixes C :: "('v, 'm) codec" and l :: log_id
  assumes "codec_law C" "log_good C d"
  defines "d' \<equiv> put_meta KEY_LAST_PURGED (cd_log_id C l)
     (d\<lparr>db_log := remove_keys (filter (\<lambda>k. k \<le> li_index l) (bt_keys (db_log d))) (db_log d)\<rparr>)"
  shows "log_good C d' \<and> log_value C d' = log_spec (OpPurge l) (log_value C d)"
  using restrict_refines [OF assms(2), of d' "\<lambda>k. k \<le> li_index l"] assms(1)
  by (simp add: d'_def put_meta_def remove_keys_filter log_value_def purged_view_def not_le codec_law_def)

text \<open>The interpretation is for codecs that satisfy their laws.\<close>

definition codec_good :: "('v, 'm) codec \<Rightarrow> db \<Rightarrow> bool" where
  "codec_good C d \<longleftrightarrow> codec_law C \<and> log_good C d"

interpretation log_store: durable_object "log_value C" "log_exec C" log_spec "codec_good C" "\<lambda>_. True" for C
proof
  fix s op io s'
  assume "codec_good C s" "log_exec C io op s = (True, s')"
  then show "codec_good C s' \<and> log_value C s' = log_spec op (log_value C s)"
    using append_refines [of C s] truncate_refines [of C s] purge_refines [of C s]
    by (cases op) (auto simp: codec_good_def log_append_def log_truncate_def log_purge_def commit_def split: if_splits)
next
  fix io op s s'
  assume "log_exec C io op s = (False, s')"
  then show "s' = s"
    by (cases op) (auto simp: log_append_def log_truncate_def log_purge_def commit_def split: if_splits)
qed

lemma decode_entries_ok:
  "(\<forall>(k, b) \<in> set es. \<exists>e. cd_unentry C b = Some e) \<Longrightarrow>
   decode_entries C es = Inr (map (\<lambda>(k, b). the (cd_unentry C b)) es)"
  by (induction C es rule: decode_entries.induct) (auto simp: decode_def)

text \<open>Reading a range of a good log gives its entries of that range in order of their index.\<close>

lemma try_get_reads_view:
  assumes "log_good C d" "io_read_ok io"
  shows "\<exists>es. try_get_log_entries C io rng d = Inr es \<and> set es = {e. \<exists>i. rng i \<and> log_view C d i = Some e} \<and>
    sorted_wrt (<) (map (\<lambda>e. li_index (en_log_id e)) es)"
proof -
  let ?ps = "filter (\<lambda>(k, _). rng k) (entries (db_log d))"
  have in_db: "(k, b) \<in> set (entries (db_log d)) \<longleftrightarrow> bt_get (db_log d) k = Some b" for k b
    by (simp add: bt.get_ents)
  have dec: "\<exists>e. cd_unentry C b = Some e \<and> li_index (en_log_id e) = k" if "(k, b) \<in> set (entries (db_log d))" for k b
    using assms(1) that in_db by (auto simp: log_good_def)
  have key: "li_index (en_log_id (the (cd_unentry C b))) = k" if "(k, b) \<in> set (entries (db_log d))" for k b
    using dec [OF that] by auto
  have res: "decode_entries C ?ps = Inr (map (\<lambda>(k, b). the (cd_unentry C b)) ?ps)"
    using dec by (intro decode_entries_ok) fastforce
  have mem: "set (map (\<lambda>(k, b). the (cd_unentry C b)) ?ps) = {e. \<exists>i. rng i \<and> log_view C d i = Some e}"
  proof (intro set_eqI iffI)
    fix e
    assume "e \<in> set (map (\<lambda>(k, b). the (cd_unentry C b)) ?ps)"
    then obtain k b where kb: "(k, b) \<in> set (entries (db_log d))" "rng k" "e = the (cd_unentry C b)"
      by auto
    then have "log_view C d k = Some e"
      using dec [OF kb(1)] in_db by (auto simp: log_view_def)
    with kb(2) show "e \<in> {e. \<exists>i. rng i \<and> log_view C d i = Some e}" by blast
  next
    fix e
    assume "e \<in> {e. \<exists>i. rng i \<and> log_view C d i = Some e}"
    then obtain i b where "rng i" "(i, b) \<in> set (entries (db_log d))" "cd_unentry C b = Some e"
      by (auto simp: log_view_def in_db split: option.splits)
    then show "e \<in> set (map (\<lambda>(k, b). the (cd_unentry C b)) ?ps)"
      by force
  qed
  have idx: "map (\<lambda>e. li_index (en_log_id e)) (map (\<lambda>(k, b). the (cd_unentry C b)) ?ps) = map fst ?ps"
    using key by (auto simp: case_prod_unfold)
  have ord: "sorted_wrt (<) (map fst ?ps)"
    using sorted_bt_keys [of "db_log d"] by (simp add: bt_keys_def sorted_wrt_map sorted_wrt_filter case_prod_unfold)
  show ?thesis
  proof (intro exI conjI)
    show "try_get_log_entries C io rng d = Inr (map (\<lambda>(k, b). the (cd_unentry C b)) ?ps)"
      using assms(2) res by (simp add: try_get_log_entries_def)
  qed (rule mem, simp only: idx ord)
qed

lemma log_good_empty: "log_good C db_empty"
  by (simp add: log_good_def db_empty_def)

lemma log_value_empty: "log_value C db_empty = (Map.empty, None)"
  by (simp add: log_value_def log_view_def purged_view_def db_empty_def fun_eq_iff)

text \<open>
  C9: The log store implements a partial map. After any sequence of append, truncate and purge operations, of which some
  fail, the stored log is the map that results from the successful ones: appended entries overwrite their indexes,
  truncation keeps what is below its index, purging what is above. Reading a range gives exactly the entries of the
  map there, in increasing order of their index.
\<close>

theorem log_store_refines:
  assumes "codec_law C" "io_read_ok io" "d = exec_run (log_exec C) ops db_empty"
  shows "(log_view C d, purged_view C d) = fold log_spec (exec_succeeded (log_exec C) ops db_empty) (Map.empty, None) \<and>
    (\<exists>es. try_get_log_entries C io rng d = Inr es \<and> set es = {e. \<exists>i. rng i \<and> log_view C d i = Some e} \<and>
       sorted_wrt (<) (map (\<lambda>e. li_index (en_log_id e)) es))"
proof -
  have good: "codec_good C d \<and> log_value C d = fold log_spec (exec_succeeded (log_exec C) ops db_empty) (log_value C db_empty)"
    using log_store.run_spec [of C db_empty ops] assms(1,3) by (simp add: codec_good_def log_good_empty)
  then show ?thesis
    using try_get_reads_view [of C d io rng] assms(2) log_value_empty [of C] by (simp add: log_value_def codec_good_def)
qed

theorem log_store_refines_witness:
  "log_view demo_codec (exec_run (log_exec demo_codec) [(demo_io, OpAppend [demo_entry 1, demo_entry 2]),
      (\<lparr>io_read_ok = True, io_write_ok = False\<rparr>, OpTruncate (en_log_id (demo_entry 1))), (demo_io, OpPurge (en_log_id (demo_entry 1)))] db_empty) 2 =
   Some (demo_entry 2)"
  using log_store_refines [OF demo_codec_law, of demo_io _ "[(demo_io, OpAppend [demo_entry 1, demo_entry 2]),
      (\<lparr>io_read_ok = True, io_write_ok = False\<rparr>, OpTruncate (en_log_id (demo_entry 1))), (demo_io, OpPurge (en_log_id (demo_entry 1)))]"]
  by (simp add: demo_io_def demo_entry_def log_append_def log_truncate_def log_purge_def commit_def)

section \<open>The state machine as a durable object\<close>

datatype 'm sm_op = OpApply "'m entry list" | OpInstall "'m snapshot_meta" bytes

fun sm_exec :: "ext \<Rightarrow> ('v, 'm) codec \<Rightarrow> db_io \<Rightarrow> 'm sm_op \<Rightarrow> 'm sm_store \<times> db \<Rightarrow> bool \<times> 'm sm_store \<times> db" where
  "sm_exec X C io (OpApply es) (s, d) = (case sm_apply X C io es s d of (r, s', d') \<Rightarrow> (\<exists>rs. r = Inr rs, s', d'))"
| "sm_exec X C io (OpInstall meta data) (s, d) =
     (case install_snapshot C io meta data s d of (r, s', d') \<Rightarrow> (r = Inr (), s', d'))"

fun sm_spec :: "ext \<Rightarrow> ('v, 'm) codec \<Rightarrow> 'm sm_op \<Rightarrow> 'm sm_inner \<Rightarrow> 'm sm_inner" where
  "sm_spec X C (OpApply es) i = snd (apply_entries X es i)"
| "sm_spec X C (OpInstall meta data) i = (case cd_unstate C data of None \<Rightarrow> i
     | Some st \<Rightarrow> \<lparr>si_state = st, si_applied = sm_last_log_id meta, si_membership = sm_last_membership meta\<rparr>)"

text \<open>The batch is not empty and a snapshot names its last log position.\<close>

fun sm_admissible :: "'m sm_op \<Rightarrow> bool" where
  "sm_admissible (OpApply es) \<longleftrightarrow> es \<noteq> []"
| "sm_admissible (OpInstall meta data) \<longleftrightarrow> sm_last_log_id meta \<noteq> None"

text \<open>Opening the database again gives the state in memory.\<close>

definition reopens :: "('v, 'm) codec \<Rightarrow> 'm \<Rightarrow> string \<Rightarrow> 'm sm_store \<times> db \<Rightarrow> bool" where
  "reopens C m0 network sd \<longleftrightarrow> codec_law C \<and>
     (\<forall>io. io_read_ok io \<longrightarrow> sm_open C io m0 network (snd sd) = Inr \<lparr>sm_inner = sm_inner (fst sd), sm_snapshot_idx = 0\<rparr>)"

lemma sm_open_persisted:
  assumes "codec_law C" "io_read_ok io"
  shows "sm_open C io m0 network (persist_state C st (Some l) mem d) =
    Inr \<lparr>sm_inner = \<lparr>si_state = st, si_applied = Some l, si_membership = mem\<rparr>, sm_snapshot_idx = 0\<rparr>"
  using assms by (cases mem) (simp add: sm_open_def persist_state_def put_meta_def meta_get_def decode_opt_def decode_def
      encode_opt_log_id_def codec_law_def key_defs)

lemma sm_open_meta: "db_meta d = db_meta d' \<Longrightarrow> sm_open C io m0 network d = sm_open C io m0 network d'"
proof -
  assume "db_meta d = db_meta d'"
  then have "meta_get io d k = meta_get io d' k" for k
    by (simp add: meta_get_def)
  then show ?thesis
    by (simp add: sm_open_def cong del: sum.case_cong_weak)
qed

lemma apply_entry_applied: "si_applied (snd (apply_entry X e s)) = Some (en_log_id e)"
  by (auto simp: apply_entry_def Let_def split: payload.split prod.split)

lemma apply_entries_applied: "es \<noteq> [] \<Longrightarrow> si_applied (snd (apply_entries X es s)) = Some (en_log_id (last es))"
proof (induction X es s rule: apply_entries.induct)
  case (2 X e es s)
  then show ?case
    using apply_entry_applied [of X e s] by (cases "es = []") (auto split: prod.splits)
qed simp

lemma apply_reopens:
  assumes "reopens C m0 net (s, d)" "es \<noteq> []" "sm_apply X C io es s d = (Inr rs, s', d')"
  shows "reopens C m0 net (s', d') \<and> sm_inner s' = snd (apply_entries X es (sm_inner s))"
proof -
  obtain i where i: "apply_entries X es (sm_inner s) = (rs, i)" "s' = s\<lparr>sm_inner := i\<rparr>"
      "d' = persist_state C (si_state i) (si_applied i) (si_membership i) d"
    using assms(3) by (auto simp: sm_apply_def commit_def split: prod.splits if_splits)
  have "si_applied i = Some (en_log_id (last es))"
    using apply_entries_applied [OF assms(2), of X "sm_inner s"] i(1) by simp
  then show ?thesis
    using assms(1) i sm_open_persisted [of C] by (simp add: reopens_def)
qed

lemma install_reopens:
  assumes "reopens C m0 net (s, d)" "sm_last_log_id meta \<noteq> None" "install_snapshot C io meta data s d = (Inr (), s', d')"
  shows "reopens C m0 net (s', d') \<and> sm_inner s' = sm_spec X C (OpInstall meta data) (sm_inner s)"
proof -
  obtain l where l: "sm_last_log_id meta = Some l"
    using assms(2) by blast
  obtain st where st: "cd_unstate C data = Some st" "s' = s\<lparr>sm_inner := \<lparr>si_state = st, si_applied = Some l, si_membership = sm_last_membership meta\<rparr>\<rparr>"
      "d' = put_snapshot (cd_meta C meta) data (persist_state C st (Some l) (sm_last_membership meta) d)"
    using assms(3) l by (auto simp: install_snapshot_def commit_def decode_def split: option.splits if_splits)
  have "sm_open C io' m0 net d' = sm_open C io' m0 net (persist_state C st (Some l) (sm_last_membership meta) d)" for io'
    by (rule sm_open_meta) (simp add: st(3) put_snapshot_def)
  then show ?thesis
    using assms(1) st l sm_open_persisted [of C] by (simp add: reopens_def)
qed

lemma sm_exec_ok:
  assumes "reopens C m0 net s" "sm_admissible op" "sm_exec X C io op s = (True, s')"
  shows "reopens C m0 net s' \<and> sm_inner (fst s') = sm_spec X C op (sm_inner (fst s))"
proof -
  obtain t d t' d' where sd: "s = (t, d)" "s' = (t', d')"
    by (cases s; cases s') blast
  show ?thesis
  proof (cases op)
    case (OpApply es)
    then obtain rs where "sm_apply X C io es t d = (Inr rs, t', d')"
      using assms(3) by (auto simp: sd split: prod.splits)
    then show ?thesis
      using apply_reopens [of C m0 net t d es X io rs t' d'] assms(1,2) OpApply by (simp add: sd)
  next
    case (OpInstall meta data)
    then have "install_snapshot C io meta data t d = (Inr (), t', d')"
      using assms(3) by (auto simp: sd split: prod.splits)
    then show ?thesis
      using install_reopens [of C m0 net t d meta io data t' d' X] assms(1,2) OpInstall by (simp add: sd)
  qed
qed

definition sm_value :: "'m sm_store \<times> db \<Rightarrow> 'm sm_inner" where "sm_value s = sm_inner (fst s)"

interpretation sm_durable: durable_object sm_value "sm_exec X C" "sm_spec X C" "reopens C m0 net" sm_admissible for X C m0 net
proof
  fix s op io s'
  assume "reopens C m0 net s" "sm_admissible op" "sm_exec X C io op s = (True, s')"
  then show "reopens C m0 net s' \<and> sm_value s' = sm_spec X C op (sm_value s)"
    unfolding sm_value_def by (rule sm_exec_ok)
next
  fix io op s s'
  assume "sm_exec X C io op s = (False, s')"
  then show "s' = s"
    by (cases s; cases op) (auto simp: sm_apply_def install_snapshot_def decode_def commit_def split: prod.splits if_splits option.splits)
qed

lemma sm_open_empty:
  assumes "io_read_ok io"
  shows "sm_open C io m0 network db_empty =
    Inr \<lparr>sm_inner = \<lparr>si_state = policy_new network, si_applied = None, si_membership = (None, m0)\<rparr>, sm_snapshot_idx = 0\<rparr>"
  using assms by (simp add: sm_open_def meta_get_def decode_opt_def db_empty_def)

text \<open>The commands of a sequence of batches, with their log indexes.\<close>

fun entry_commands :: "'m entry list \<Rightarrow> (policy_command \<times> u64) list" where
  "entry_commands [] = []"
| "entry_commands (e # es) =
     (case en_payload e of Normal cmd \<Rightarrow> [(cmd, li_index (en_log_id e))] | _ \<Rightarrow> []) @ entry_commands es"

lemma apply_entries_policy: "si_state (snd (apply_entries X es s)) = policy_run X (entry_commands es) (si_state s)"
proof (induction X es s rule: apply_entries.induct)
  case (2 X e es s)
  have "si_state (snd (apply_entry X e s)) =
      (case en_payload e of Normal cmd \<Rightarrow> snd (apply_command_at X cmd (li_index (en_log_id e)) (si_state s)) | _ \<Rightarrow> si_state s)"
    by (auto simp: apply_entry_def Let_def split: payload.split prod.split)
  then show ?case
    using 2 by (cases "apply_entry X e s") (auto split: payload.split prod.split)
qed simp

text \<open>
  C8: The state machine survives restarts. From a fresh database, after any sequence of batches and snapshot installations of which
  some fail to commit, opening the database again gives exactly the state in memory, and that state is the
  result of the operations that succeeded; a batch runs its commands in log order through the policy state machine. (Batches
  are not empty and snapshots name their last log position.)
\<close>

theorem state_machine_durable:
  assumes "codec_law C" "\<forall>(io, op) \<in> set ops. sm_admissible op" "io_read_ok io" "sm_open C io m0 net db_empty = Inr s0"
    and "exec_run (sm_exec X C) ops (s0, db_empty) = (s, d)"
  shows "sm_open C io m0 net d = Inr \<lparr>sm_inner = sm_inner s, sm_snapshot_idx = 0\<rparr> \<and>
    sm_inner s = fold (sm_spec X C) (exec_succeeded (sm_exec X C) ops (s0, db_empty)) (sm_inner s0) \<and>
    si_state (snd (apply_entries X es (sm_inner s))) = policy_run X (entry_commands es) (si_state (sm_inner s))"
proof -
  have "reopens C m0 net (s0, db_empty)"
    using assms(1,3,4) by (auto simp: reopens_def sm_open_empty)
  from sm_durable.run_spec [OF this assms(2), of X] have
    "reopens C m0 net (s, d)" "sm_inner s = fold (sm_spec X C) (exec_succeeded (sm_exec X C) ops (s0, db_empty)) (sm_inner s0)"
    using assms(5) by (simp_all add: sm_value_def)
  then show ?thesis
    using assms(3) by (simp add: reopens_def apply_entries_policy)
qed

text \<open>At a first batch of two commands, with the open snapshot and a failed batch after it.\<close>

theorem state_machine_durable_witness:
  "\<exists>(s :: u64 list sm_store) d. sm_open demo_codec demo_io [] ''net'' d = Inr \<lparr>sm_inner = sm_inner s, sm_snapshot_idx = 0\<rparr> \<and>
     si_state (sm_inner s) = policy_run demo_ext [(CreateService ''svc'' [], 1), (CreateService ''svc'' [], 2)] (policy_new ''net'')"
proof -
  let ?ops = "[(demo_io, OpApply [demo_entry 1, demo_entry 2]), (\<lparr>io_read_ok = True, io_write_ok = False\<rparr>, OpApply [demo_entry 3])]"
  let ?s0 = "\<lparr>sm_inner = \<lparr>si_state = policy_new ''net'', si_applied = None, si_membership = (None, [])\<rparr>, sm_snapshot_idx = 0\<rparr>"
  obtain s d where sd: "exec_run (sm_exec demo_ext demo_codec) ?ops (?s0, db_empty) = (s, d)"
    by (cases "exec_run (sm_exec demo_ext demo_codec) ?ops (?s0, db_empty)") blast
  have "exec_succeeded (sm_exec demo_ext demo_codec) ?ops (?s0, db_empty) = [OpApply [demo_entry 1, demo_entry 2]]"
    by (simp add: sm_apply_def commit_def demo_io_def case_prod_unfold)
  then have op: "sm_open demo_codec demo_io [] ''net'' d = Inr \<lparr>sm_inner = sm_inner s, sm_snapshot_idx = 0\<rparr>"
    and i: "sm_inner s = snd (apply_entries demo_ext [demo_entry 1, demo_entry 2] (sm_inner ?s0))"
    using state_machine_durable [OF demo_codec_law _ _ sm_open_empty sd, of demo_io]
    by (simp_all add: demo_io_def del: apply_entries.simps)
  have cmds: "entry_commands [demo_entry 1, demo_entry 2] = [(CreateService ''svc'' [], 1), (CreateService ''svc'' [], 2)]"
    by (simp add: demo_entry_def)
  have "si_state (sm_inner s) = policy_run demo_ext [(CreateService ''svc'' [], 1), (CreateService ''svc'' [], 2)] (policy_new ''net'')"
    by (simp only: i apply_entries_policy cmds sm_store.simps sm_inner.simps)
  with op show ?thesis by blast
qed

text \<open>
  C36: An empty first batch makes the state unreadable. The last applied position is written as an option but read as a plain log id; when
  it is absent, which an empty batch on a fresh store leaves it, the next opening of the database fails, and so does reading
  back an absent commit position.
\<close>

theorem absent_position_unreadable:
  assumes "codec_law C" "io_read_ok io" "io_write_ok io" "sm_open C io m0 net db_empty = Inr s0"
  shows "(\<exists>d. sm_apply X C io [] s0 db_empty = (Inr [], s0, d) \<and> sm_open C io m0 net d = Inl IoRead) \<and>
    (\<exists>d. save_committed C io None db_empty = (Inr (), d) \<and> read_committed C io d = Inl IoRead)"
proof -
  have s0: "s0 = \<lparr>sm_inner = \<lparr>si_state = policy_new net, si_applied = None, si_membership = (None, m0)\<rparr>, sm_snapshot_idx = 0\<rparr>"
    using assms(2,4) by (simp add: sm_open_empty)
  show ?thesis
    using assms(1-3)
    by (simp add: s0 sm_apply_def commit_def persist_state_def sm_open_def put_meta_def meta_get_def decode_opt_def decode_def
        save_committed_def read_committed_def encode_opt_log_id_def codec_law_def key_defs)
qed

theorem absent_position_unreadable_witness:
  "\<exists>s0 d. sm_apply demo_ext demo_codec demo_io [] s0 db_empty = (Inr [], s0, d) \<and>
     sm_open demo_codec demo_io [] ''net'' d = Inl IoRead"
proof -
  have "io_read_ok demo_io" "io_write_ok demo_io"
    by (simp_all add: demo_io_def)
  from absent_position_unreadable [OF demo_codec_law this sm_open_empty [OF this(1), of demo_codec "[]" "''net''"], of demo_ext]
  show ?thesis by blast
qed

end
