(* ===== verification/Replay.thy ===== *)
theory Replay
  imports Prelude
begin

text \<open>
  The bounded nonce memory of \<open>src/replay.rs\<close>: \<open>ReplayGuard\<close> and its one operation
  \<open>check_and_insert\<close>. The locale \<open>replay_protection\<close> is the contract its four users (the two
  administration paths, replication and the old join) rely on; the lemmas proved in it bound how soon
  a nonce can be accepted again.
\<close>

section \<open>The guard\<close>

definition MAX_SEEN_NONCES :: nat where
  "MAX_SEEN_NONCES = 10000"

datatype replay_error = Replay_Empty | Replay_Replay

record replay_guard =
  rg_seen :: "string set"
  rg_order :: "string list"

definition guard_default :: replay_guard where
  "guard_default = \<lparr>rg_seen = {}, rg_order = []\<rparr>"

text \<open>The loop \<open>while order.len() > MAX { pop_front; seen.remove }\<close>.\<close>

function evict :: "nat \<Rightarrow> replay_guard \<Rightarrow> replay_guard" where
  "evict cap g =
     (if length (rg_order g) > cap then
        (case rg_order g of
           [] \<Rightarrow> g
         | old # rest \<Rightarrow> evict cap (g\<lparr>rg_seen := rg_seen g - {old}, rg_order := rest\<rparr>))
      else g)"
  by pat_completeness auto
termination
  by (relation "measure (\<lambda>(cap, g). length (rg_order g))") auto

declare evict.simps [simp del]

definition check_and_insert :: "replay_guard \<Rightarrow> string \<Rightarrow> (replay_error + unit) \<times> replay_guard" where
  "check_and_insert g nonce =
     (if nonce = [] then (Inl Replay_Empty, g)
      else if nonce \<in> rg_seen g then (Inl Replay_Replay, g)
      else (Inr (), evict MAX_SEEN_NONCES
        (g\<lparr>rg_seen := insert nonce (rg_seen g), rg_order := rg_order g @ [nonce]\<rparr>)))"

section \<open>Invariant\<close>

definition guard_inv :: "replay_guard \<Rightarrow> bool" where
  "guard_inv g \<longleftrightarrow> rg_seen g = set (rg_order g) \<and> distinct (rg_order g) \<and> length (rg_order g) \<le> MAX_SEEN_NONCES"

lemma guard_inv_default: "guard_inv guard_default"
  by (simp add: guard_inv_def guard_default_def)

lemma evict_drop:
  assumes "distinct (rg_order g)" "rg_seen g = set (rg_order g)"
  shows "evict cap g = g\<lparr>rg_seen := set (drop (length (rg_order g) - cap) (rg_order g)),
    rg_order := drop (length (rg_order g) - cap) (rg_order g)\<rparr>"
  using assms
proof (induction cap g rule: evict.induct)
  case (1 cap g)
  show ?case
  proof (cases "length (rg_order g) > cap")
    case True
    then obtain old rest where o: "rg_order g = old # rest"
      by (cases "rg_order g") auto
    moreover have "evict cap (g\<lparr>rg_seen := rg_seen g - {old}, rg_order := rest\<rparr>) =
      g\<lparr>rg_seen := set (drop (length rest - cap) rest), rg_order := drop (length rest - cap) rest\<rparr>"
      using 1 True o by auto
    moreover have "length (old # rest) - cap = Suc (length rest - cap)"
      using True o by auto
    ultimately show ?thesis
      using True by (subst evict.simps) simp
  next
    case False
    then show ?thesis
      using 1(3) by (subst evict.simps) simp
  qed
qed

lemma guard_accept_iff:
  "guard_inv g \<Longrightarrow> fst (check_and_insert g n) = Inr () \<longleftrightarrow> n \<noteq> [] \<and> n \<notin> set (rg_order g)"
  by (simp add: check_and_insert_def guard_inv_def)

lemma guard_reject_same: "fst (check_and_insert g n) \<noteq> Inr () \<Longrightarrow> snd (check_and_insert g n) = g"
  by (simp add: check_and_insert_def split: if_splits)

lemma guard_accept_order:
  assumes "guard_inv g" "fst (check_and_insert g n) = Inr ()"
  shows "rg_order (snd (check_and_insert g n)) =
    drop (Suc (length (rg_order g)) - MAX_SEEN_NONCES) (rg_order g @ [n])"
  using assms guard_accept_iff [OF assms(1), of n]
  by (simp add: check_and_insert_def guard_inv_def evict_drop)

lemma guard_inv_check:
  assumes "guard_inv g"
  shows "guard_inv (snd (check_and_insert g n))"
proof (cases "n = [] \<or> n \<in> rg_seen g")
  case False
  let ?g = "g\<lparr>rg_seen := insert n (rg_seen g), rg_order := rg_order g @ [n]\<rparr>"
  have "distinct (rg_order ?g)" "rg_seen ?g = set (rg_order ?g)"
    using False assms by (simp_all add: guard_inv_def)
  then have "guard_inv (evict MAX_SEEN_NONCES ?g)"
    using evict_drop [of ?g MAX_SEEN_NONCES] by (simp add: guard_inv_def distinct_drop del: drop_append)
  with False show ?thesis
    by (simp add: check_and_insert_def)
qed (use assms in \<open>auto simp: check_and_insert_def\<close>)

section \<open>The contract and what follows from it\<close>

locale replay_protection =
  fixes check :: "'g \<Rightarrow> string \<Rightarrow> ('e + unit) \<times> 'g"
    and recent :: "'g \<Rightarrow> string list"
    and inv :: "'g \<Rightarrow> bool"
    and cap :: nat
  assumes cap_pos: "0 < cap"
    and check_inv: "inv g \<Longrightarrow> inv (snd (check g n))"
    and accept_iff: "inv g \<Longrightarrow> fst (check g n) = Inr () \<longleftrightarrow> n \<noteq> [] \<and> n \<notin> set (recent g)"
    and reject_same: "fst (check g n) \<noteq> Inr () \<Longrightarrow> snd (check g n) = g"
    and accept_recent: "inv g \<Longrightarrow> fst (check g n) = Inr () \<Longrightarrow>
      recent (snd (check g n)) = drop (Suc (length (recent g)) - cap) (recent g @ [n])"
begin

fun run :: "'g \<Rightarrow> string list \<Rightarrow> 'g" where
  "run g [] = g"
| "run g (n # ns) = run (snd (check g n)) ns"

fun accepted :: "'g \<Rightarrow> string list \<Rightarrow> nat" where
  "accepted g [] = 0"
| "accepted g (n # ns) =
     (if fst (check g n) = Inr () then 1 else 0) + accepted (snd (check g n)) ns"

lemma run_inv: "inv g \<Longrightarrow> inv (run g ns)"
  by (induction g ns rule: run.induct) (simp_all add: check_inv)

lemma remembered_step:
  assumes "inv g" "recent g = xs @ n # ys" "Suc (length ys) < cap \<or> fst (check g m) \<noteq> Inr ()"
  shows "\<exists>xs' ys'. recent (snd (check g m)) = xs' @ n # ys' \<and>
    length ys' = length ys + (if fst (check g m) = Inr () then 1 else 0)"
proof (cases "fst (check g m) = Inr ()")
  case True
  then have "recent (snd (check g m)) = drop (Suc (length (recent g)) - cap) (recent g @ [m])"
    using accept_recent assms(1) by blast
  moreover have "Suc (length (recent g)) - cap \<le> length xs"
    using assms True by simp
  ultimately show ?thesis
    using True assms(2) by (intro exI [of _ "drop (Suc (length (recent g)) - cap) xs"]
        exI [of _ "ys @ [m]"]) simp
next
  case False
  then show ?thesis
    using reject_same assms(2) by auto
qed

lemma remembered_run:
  assumes "inv g" "recent g = xs @ n # ys" "length ys + accepted g ns < cap"
  shows "\<exists>xs' ys'. recent (run g ns) = xs' @ n # ys'"
  using assms
proof (induction g ns arbitrary: xs ys rule: run.induct)
  case (2 g m ns)
  then obtain xs' ys' where "recent (snd (check g m)) = xs' @ n # ys'"
    and "length ys' = length ys + (if fst (check g m) = Inr () then 1 else 0)"
    using remembered_step [of g xs n ys m] by fastforce
  with 2 show ?case
    by (simp add: check_inv add.assoc)
qed auto

lemma accept_last:
  assumes "inv g" "fst (check g n) = Inr ()"
  shows "\<exists>xs. recent (snd (check g n)) = xs @ [n]"
  using accept_recent [OF assms] cap_pos
  by (intro exI [of _ "drop (Suc (length (recent g)) - cap) (recent g)"]) simp

theorem no_early_reuse:
  assumes "inv g" "fst (check g n) = Inr ()" "accepted (snd (check g n)) ns < cap"
  shows "fst (check (run (snd (check g n)) ns) n) \<noteq> Inr ()"
proof -
  obtain xs where "recent (snd (check g n)) = xs @ n # []"
    using accept_last assms by blast
  then have "\<exists>xs ys. recent (run (snd (check g n)) ns) = xs @ n # ys"
    using remembered_run [of "snd (check g n)" xs n "[]" ns] check_inv assms by simp
  then show ?thesis
    using accept_iff [OF run_inv [OF check_inv [OF assms(1), of n]]] by auto
qed

end

interpretation rguard: replay_protection check_and_insert rg_order guard_inv MAX_SEEN_NONCES
  by unfold_locales
    (simp_all add: guard_inv_check guard_accept_iff guard_reject_same guard_accept_order,
      simp add: MAX_SEEN_NONCES_def)

text \<open>The number of accepted nonces of a sequence of calls, and the guard after it.\<close>

primrec guard_run :: "replay_guard \<Rightarrow> string list \<Rightarrow> replay_guard" where
  "guard_run g [] = g"
| "guard_run g (n # ns) = guard_run (snd (check_and_insert g n)) ns"

primrec guard_accepts :: "replay_guard \<Rightarrow> string list \<Rightarrow> nat" where
  "guard_accepts g [] = 0"
| "guard_accepts g (n # ns) =
     (if fst (check_and_insert g n) = Inr () then 1 else 0) + guard_accepts (snd (check_and_insert g n)) ns"

lemma guard_run_eq: "rguard.run g ns = guard_run g ns"
  by (induction ns arbitrary: g) simp_all

lemma guard_accepts_eq: "rguard.accepted g ns = guard_accepts g ns"
  by (induction ns arbitrary: g) simp_all

section \<open>Properties\<close>

text \<open>
  A nonce that was accepted is refused as a replay until ten thousand other nonces have been
  accepted after it, whatever calls (accepted or refused) come in between.
\<close>

theorem nonce_not_reused:
  assumes "guard_inv g" "fst (check_and_insert g n) = Inr ()"
    and "guard_accepts (snd (check_and_insert g n)) ns < MAX_SEEN_NONCES"
  shows "fst (check_and_insert (guard_run (snd (check_and_insert g n)) ns) n) = Inl Replay_Replay"
proof -
  have "n \<noteq> []"
    using assms(2) by (auto simp: check_and_insert_def split: if_splits)
  then show ?thesis
    using rguard.no_early_reuse [OF assms(1,2), of ns] assms(3)
    by (auto simp: guard_run_eq guard_accepts_eq check_and_insert_def split: if_splits)
qed

theorem nonce_not_reused_witness:
  "fst (check_and_insert (guard_run (snd (check_and_insert guard_default ''n1'')) [''n2'', ''n1'', [], ''n3'']) ''n1'')
   = Inl Replay_Replay"
  by (rule nonce_not_reused [OF guard_inv_default])
    (simp_all add: check_and_insert_def guard_default_def evict.simps MAX_SEEN_NONCES_def)

end
