(* ===== verification/Fresh.thy ===== *)
theory Fresh
  imports Replay
begin

text \<open>
  The contract shared by every authenticated message of the program: it is accepted only when its MAC
  or signature is right, its time stamp is close to the clock and its nonce is new, in that order; only
  the nonce of an authentic message enters the memory. The locale \<open>fresh_auth\<close> states it; its lemmas say when a
  message can be accepted again. It is interpreted on the verifiers of \<open>admin.rs\<close>, \<open>admin_v2.rs\<close>,
  \<open>replicate.rs\<close> and \<open>join.rs\<close>.
\<close>

locale fresh_auth =
  fixes verify :: "'st \<Rightarrow> 'req \<Rightarrow> u64 \<Rightarrow> ('e + 'r) \<times> 'st"
    and gd :: "'st \<Rightarrow> replay_guard"
    and nonce :: "'req \<Rightarrow> string"
    and ts :: "'req \<Rightarrow> u64"
    and skew :: u64
    and authentic :: "'st \<Rightarrow> 'req \<Rightarrow> bool"
  assumes accept: "verify s q now = (Inr r, s') \<Longrightarrow>
      authentic s q \<and> abs_diff now (ts q) \<le> skew \<and> check_and_insert (gd s) (nonce q) = (Inr (), gd s')"
    and reject: "verify s q now = (Inl e, s') \<Longrightarrow>
      s' = s \<or> authentic s q \<and> abs_diff now (ts q) \<le> skew \<and> check_and_insert (gd s) (nonce q) = (Inr (), gd s')"
begin

fun run :: "'st \<Rightarrow> ('req \<times> u64) list \<Rightarrow> 'st" where
  "run s [] = s"
| "run s ((q, now) # qs) = run (snd (verify s q now)) qs"

text \<open>The number of messages of a sequence whose nonce entered the memory.\<close>

fun entered :: "'st \<Rightarrow> ('req \<times> u64) list \<Rightarrow> nat" where
  "entered s [] = 0"
| "entered s ((q, now) # qs) =
     (if gd (snd (verify s q now)) = gd s then 0 else 1) + entered (snd (verify s q now)) qs"

lemma verify_cases:
  obtains e where "verify s q now = (Inl e, s)"
  | r s' where "verify s q now = (r, s')" "authentic s q" "abs_diff now (ts q) \<le> skew"
      "check_and_insert (gd s) (nonce q) = (Inr (), gd s')"
  using accept [of s q now] reject [of s q now] by (cases "verify s q now"; cases "fst (verify s q now)") auto

lemma guard_run_nonces:
  "\<exists>ns. gd (run s qs) = guard_run (gd s) ns \<and> guard_accepts (gd s) ns = entered s qs"
proof (induction s qs rule: run.induct)
  case (1 s)
  show ?case by (rule exI [of _ "[]"]) simp
next
  case (2 s q now qs)
  then obtain ns where ns: "gd (run (snd (verify s q now)) qs) = guard_run (gd (snd (verify s q now))) ns"
    "guard_accepts (gd (snd (verify s q now))) ns = entered (snd (verify s q now)) qs"
    by blast
  show ?case
  proof (cases "gd (snd (verify s q now)) = gd s")
    case True
    then show ?thesis
      using ns by (intro exI [of _ ns]) simp
  next
    case False
    then have "check_and_insert (gd s) (nonce q) = (Inr (), gd (snd (verify s q now)))"
      by (cases rule: verify_cases [of s q now]) auto
    then show ?thesis
      using ns False by (intro exI [of _ "nonce q # ns"]) simp
  qed
qed

lemma guard_inv_run: "guard_inv (gd s) \<Longrightarrow> guard_inv (gd (run s qs))"
proof -
  assume "guard_inv (gd s)"
  moreover have "guard_inv g \<Longrightarrow> guard_inv (guard_run g ns)" for g ns
    by (induction ns arbitrary: g) (simp_all add: guard_inv_check)
  ultimately show ?thesis
    using guard_run_nonces [of s qs] by metis
qed

theorem replay_rejected:
  assumes "guard_inv (gd s)" "verify s q now = (Inr r, s1)" "entered s1 qs < MAX_SEEN_NONCES"
    and "nonce q' = nonce q"
  shows "\<exists>e. verify (run s1 qs) q' now' = (Inl e, run s1 qs)"
proof -
  have a: "check_and_insert (gd s) (nonce q) = (Inr (), gd s1)"
    using accept [OF assms(2)] by blast
  obtain ns where ns: "gd (run s1 qs) = guard_run (gd s1) ns" "guard_accepts (gd s1) ns < MAX_SEEN_NONCES"
    using guard_run_nonces [of s1 qs] assms(3) by metis
  have "fst (check_and_insert (gd (run s1 qs)) (nonce q)) \<noteq> Inr ()"
    using rguard.no_early_reuse [OF assms(1), of "nonce q" ns] a ns by (simp add: guard_run_eq guard_accepts_eq)
  then show ?thesis
    using assms(4) by (cases rule: verify_cases [of "run s1 qs" q' now']) auto
qed

text \<open>Whatever happened in between, the same message is too old once twice the allowed skew has passed.\<close>

theorem stale_rejected:
  assumes "verify s q now = (Inr r, s1)" "unat now + 2 * unat skew < unat now'"
  shows "\<exists>e. verify s2 q now' = (Inl e, s2)"
proof -
  have "unat (abs_diff now (ts q)) \<le> unat skew"
    using accept [OF assms(1)] by (simp add: word_le_nat_alt)
  then have "\<not> abs_diff now' (ts q) \<le> skew"
    using assms(2) by (simp add: word_le_nat_alt unat_abs_diff)
  then show ?thesis
    by (cases rule: verify_cases [of s2 q now']) auto
qed

end

end
