(* ===== verification/Admin.thy ===== *)
theory Admin
  imports External Fresh
begin

text \<open>
  \<open>src/admin.rs\<close>: requests authenticated with a MAC under a key derived from the management password.
  The verifier meets the contract \<open>fresh_auth\<close> (interpretation \<open>hmac_admin\<close>).
\<close>

section \<open>Data\<close>

abbreviation MAX_TS_SKEW_SECS :: u64 where "MAX_TS_SKEW_SECS \<equiv> 300"
abbreviation MGMT_SALT :: bytes where "MGMT_SALT \<equiv> ''nexusauth/mgmt''"
abbreviation MAC_LEN :: nat where "MAC_LEN \<equiv> 32"

datatype admin_error = EmptyPassword | Kdf | BadMac | ExpiredTimestamp | AdminReplay | BadNonce

record management_request =
  mr_op :: string
  mr_service :: string
  mr_peers :: "string list"
  mr_nonce :: string
  mr_ts :: u64
  mr_mac :: string

record admin_auth =
  aa_mac_key :: bytes
  aa_guard :: replay_guard

text \<open>\<open>MacInput\<close> in its field order, with the peers sorted.\<close>

definition mac_input :: "string \<Rightarrow> string \<Rightarrow> string list \<Rightarrow> string \<Rightarrow> u64 \<Rightarrow> sval" where
  "mac_input op service peers nonce ts = SMap [(''op'', SStr op), (''service'', SStr service),
     (''peers'', SSeq (map SStr (sort peers))), (''nonce'', SStr nonce), (''ts'', SInt ts)]"

section \<open>Operations\<close>

definition admin_auth_new :: "ext \<Rightarrow> string \<Rightarrow> string \<Rightarrow> admin_error + admin_auth" where
  "admin_auth_new X password network =
     (if password = [] then Inl EmptyPassword
      else (case x_hkdf X MGMT_SALT password network of
         None \<Rightarrow> Inl Kdf
       | Some key \<Rightarrow> Inr \<lparr>aa_mac_key = key, aa_guard = guard_default\<rparr>))"

text \<open>\<open>None\<close> is the panic of the \<open>expect\<close> on the JSON encoding.\<close>

definition compute_mac ::
  "ext \<Rightarrow> admin_auth \<Rightarrow> string \<Rightarrow> string \<Rightarrow> string list \<Rightarrow> string \<Rightarrow> u64 \<Rightarrow> string option" where
  "compute_mac X a op service peers nonce ts =
     map_option (\<lambda>b. x_b64url X (x_hmac X (aa_mac_key a) b)) (x_json X (mac_input op service peers nonce ts))"

definition admin_verify ::
  "ext \<Rightarrow> admin_auth \<Rightarrow> management_request \<Rightarrow> u64 \<Rightarrow> (admin_error + unit) \<times> admin_auth" where
  "admin_verify X a q now =
     (case x_unb64url X (mr_mac q) of
        None \<Rightarrow> (Inl BadMac, a)
      | Some provided \<Rightarrow>
          if length provided \<noteq> MAC_LEN then (Inl BadMac, a)
          else (case x_json X (mac_input (mr_op q) (mr_service q) (mr_peers q) (mr_nonce q) (mr_ts q)) of
             None \<Rightarrow> (Inl BadMac, a)
           | Some b \<Rightarrow>
               if x_hmac X (aa_mac_key a) b \<noteq> provided then (Inl BadMac, a)
               else if abs_diff now (mr_ts q) > MAX_TS_SKEW_SECS then (Inl ExpiredTimestamp, a)
               else (case check_and_insert (aa_guard a) (mr_nonce q) of
                  (Inl Replay_Empty, g) \<Rightarrow> (Inl BadNonce, a\<lparr>aa_guard := g\<rparr>)
                | (Inl Replay_Replay, g) \<Rightarrow> (Inl AdminReplay, a\<lparr>aa_guard := g\<rparr>)
                | (Inr _, g) \<Rightarrow> (Inr (), a\<lparr>aa_guard := g\<rparr>))))"

section \<open>The contract\<close>

definition mac_ok :: "ext \<Rightarrow> admin_auth \<Rightarrow> management_request \<Rightarrow> bool" where
  "mac_ok X a q \<longleftrightarrow> (\<exists>b. x_json X (mac_input (mr_op q) (mr_service q) (mr_peers q) (mr_nonce q) (mr_ts q)) = Some b
     \<and> x_unb64url X (mr_mac q) = Some (x_hmac X (aa_mac_key a) b))"

lemma guard_result_cases:
  "check_and_insert g n = (Inl e, g') \<Longrightarrow> g' = g"
  using guard_reject_same [of g n] by simp

interpretation hmac_admin: fresh_auth "admin_verify X" aa_guard mr_nonce mr_ts MAX_TS_SKEW_SECS "mac_ok X" for X
proof
  fix s q now r s'
  assume "admin_verify X s q now = (Inr r, s')"
  then show "mac_ok X s q \<and> abs_diff now (mr_ts q) \<le> MAX_TS_SKEW_SECS \<and>
    check_and_insert (aa_guard s) (mr_nonce q) = (Inr (), aa_guard s')"
    by (auto simp: admin_verify_def mac_ok_def split: option.splits if_splits prod.splits sum.splits
        replay_error.splits)
next
  fix s q now e s'
  assume "admin_verify X s q now = (Inl e, s')"
  then show "s' = s \<or> mac_ok X s q \<and> abs_diff now (mr_ts q) \<le> MAX_TS_SKEW_SECS \<and>
    check_and_insert (aa_guard s) (mr_nonce q) = (Inr (), aa_guard s')"
    by (auto simp: admin_verify_def split: option.splits if_splits prod.splits sum.splits
        replay_error.splits dest: guard_result_cases)
qed

text \<open>What the MAC covers: everything but the order of the peers.\<close>

lemma mac_input_inject:
  "mac_input op sv ps n t = mac_input op' sv' ps' n' t' \<longleftrightarrow>
   op = op' \<and> sv = sv' \<and> sort ps = sort ps' \<and> n = n' \<and> t = t'"
proof -
  have "map SStr xs = map SStr ys \<longleftrightarrow> xs = ys" for xs ys
    by (rule inj_map_eq_map) (simp add: inj_def)
  then show ?thesis
    by (auto simp: mac_input_def)
qed

end
