(* ===== verification/Admin_V2.thy ===== *)
theory Admin_V2
  imports Admin BTree_Map
begin

text \<open>
  \<open>src/admin_v2.rs\<close>: Ed25519-signed administrator requests with viewer and root keys. The signature
  covers the canonical CBOR of the request; the request hash used for deduplication covers its identity
  without nonce and time stamp. The verifier meets the contract \<open>fresh_auth\<close> (interpretation \<open>sig_admin\<close>).
\<close>

section \<open>Data\<close>

abbreviation ADMIN_REQUEST_VERSION :: u8 where "ADMIN_REQUEST_VERSION \<equiv> 2"
abbreviation ADMIN_MAX_TS_SKEW_SECS :: u64 where "ADMIN_MAX_TS_SKEW_SECS \<equiv> 300"
abbreviation ADMIN_MAX_NONCE_LEN :: nat where "ADMIN_MAX_NONCE_LEN \<equiv> 64"
abbreviation ADMIN_MAX_REQUEST_ID_LEN :: nat where "ADMIN_MAX_REQUEST_ID_LEN \<equiv> 128"
abbreviation FORWARDED_ADMIN_VERSION :: u8 where "FORWARDED_ADMIN_VERSION \<equiv> 1"
definition FORWARDED_ADMIN_OP :: string where "FORWARDED_ADMIN_OP = ''forwarded_admin''"

datatype admin_role = Viewer | Root

definition role_parse :: "string \<Rightarrow> admin_role option" where
  "role_parse v = (if v = ''viewer'' then Some Viewer else if v = ''root'' then Some Root else None)"

record admin_member_spec =
  am_node_id :: u64
  am_peer_id :: string
  am_identity_key :: string
  am_x25519_key :: string

record admin_join_token_spec =
  aj_jti :: string
  aj_audience :: string
  aj_expires_at :: u64
  aj_max_uses :: u32
  aj_bind_peer_id :: string
  aj_sig :: string

record admin_request =
  rq_v :: u8
  rq_op :: string
  rq_service :: string
  rq_peers :: "string list"
  rq_kid :: string
  rq_request_id :: string
  rq_nonce :: string
  rq_ts :: u64
  rq_sig :: string
  rq_member :: "admin_member_spec option"
  rq_join_token :: "admin_join_token_spec option"

record admin_key_config =
  ak_kid :: string
  ak_public_key :: string
  ak_role :: string

text \<open>The reason of a \<open>BadRequest\<close> or \<open>Config\<close> error, one constructor per message of the source.\<close>

datatype admin_v2_reason =
    RVersion u8 | RMissingKid | RMissingRequestId | RRequestIdTooLong | RMissingNonce | RNonceTooLong | RCbor
  | RKidEmpty | RDuplicateKid string | RInvalidRole string string | RInvalidBase64 string
  | RKeyLength string | RInvalidKey string | RNoRootKey

datatype admin_v2_error =
    A2_BadRequest admin_v2_reason
  | A2_UnknownKey
  | A2_BadSignature
  | A2_ExpiredTimestamp
  | A2_Replay
  | A2_Config admin_v2_reason

fun admin_v2_code :: "admin_v2_error \<Rightarrow> string" where
  "admin_v2_code (A2_BadRequest _) = ''bad_request''"
| "admin_v2_code A2_UnknownKey = ''unknown_admin_key''"
| "admin_v2_code A2_BadSignature = ''bad_signature''"
| "admin_v2_code A2_ExpiredTimestamp = ''expired_timestamp''"
| "admin_v2_code A2_Replay = ''replay''"
| "admin_v2_code (A2_Config _) = ''admin_config_invalid''"

record verified_admin =
  va_kid :: string
  va_role :: admin_role
  va_request_hash :: string
  va_signed_bytes :: bytes

record admin_verifier =
  av_keys :: "(string, bytes \<times> admin_role) btmap"
  av_guard :: replay_guard

definition admin_verifier_default :: admin_verifier where
  "admin_verifier_default = \<lparr>av_keys = bt_empty, av_guard = guard_default\<rparr>"

section \<open>Canonical encodings\<close>

definition canonical_peers :: "string list \<Rightarrow> string list" where
  "canonical_peers peers = sorted_list_of_fset (fset_of_list peers)"

definition sint8 :: "u8 \<Rightarrow> sval" where "sint8 v = SInt (ucast v)"
definition sint32 :: "u32 \<Rightarrow> sval" where "sint32 v = SInt (ucast v)"

definition member_spec_sval :: "admin_member_spec \<Rightarrow> sval" where
  "member_spec_sval m = SMap [(''node_id'', SInt (am_node_id m)), (''peer_id'', SStr (am_peer_id m)),
     (''identity_key'', SStr (am_identity_key m)), (''x25519_key'', SStr (am_x25519_key m))]"

definition join_token_spec_sval :: "admin_join_token_spec \<Rightarrow> sval" where
  "join_token_spec_sval t = SMap [(''jti'', SStr (aj_jti t)), (''audience'', SStr (aj_audience t)),
     (''expires_at'', SInt (aj_expires_at t)), (''max_uses'', sint32 (aj_max_uses t)),
     (''bind_peer_id'', SStr (aj_bind_peer_id t)), (''sig'', SStr (aj_sig t))]"

definition opt_sval :: "('a \<Rightarrow> sval) \<Rightarrow> 'a option \<Rightarrow> sval" where
  "opt_sval f x = (case x of None \<Rightarrow> SNull | Some y \<Rightarrow> f y)"

definition identity_fields :: "admin_request \<Rightarrow> (string \<times> sval) list" where
  "identity_fields q = [(''v'', sint8 (rq_v q)), (''op'', SStr (rq_op q)), (''service'', SStr (rq_service q)),
     (''peers'', SSeq (map SStr (canonical_peers (rq_peers q)))), (''kid'', SStr (rq_kid q)),
     (''request_id'', SStr (rq_request_id q))]"

definition extension_fields :: "admin_request \<Rightarrow> (string \<times> sval) list" where
  "extension_fields q =
     (if rq_member q = None \<and> rq_join_token q = None then []
      else [(''member'', opt_sval member_spec_sval (rq_member q)),
            (''join_token'', opt_sval join_token_spec_sval (rq_join_token q))])"

text \<open>\<open>AdminSigned\<close> or \<open>AdminSignedExtended\<close>, and \<open>AdminIdentity\<close> or \<open>AdminIdentityExtended\<close>.\<close>

definition signing_bytes :: "ext \<Rightarrow> admin_request \<Rightarrow> admin_v2_error + bytes" where
  "signing_bytes X q =
     (case x_cbor X (SMap (identity_fields q @ [(''nonce'', SStr (rq_nonce q)), (''ts'', SInt (rq_ts q))]
        @ extension_fields q)) of
        None \<Rightarrow> Inl (A2_BadRequest RCbor)
      | Some b \<Rightarrow> Inr b)"

definition request_hash :: "ext \<Rightarrow> admin_request \<Rightarrow> admin_v2_error + string" where
  "request_hash X q =
     (case x_cbor X (SMap (identity_fields q @ extension_fields q)) of
        None \<Rightarrow> Inl (A2_BadRequest RCbor)
      | Some b \<Rightarrow> Inr (x_b64url X (x_sha256 X b)))"

section \<open>The key table\<close>

fun config_keys ::
  "ext \<Rightarrow> admin_key_config list \<Rightarrow> (string, bytes \<times> admin_role) btmap \<Rightarrow> bool \<Rightarrow>
   admin_v2_error + (string, bytes \<times> admin_role) btmap \<times> bool" where
  "config_keys X [] m has_root = Inr (m, has_root)"
| "config_keys X (e # es) m has_root =
     (if is_blank (ak_kid e) then Inl (A2_Config RKidEmpty)
      else if bt_contains m (ak_kid e) then Inl (A2_Config (RDuplicateKid (ak_kid e)))
      else (case role_parse (ak_role e) of
         None \<Rightarrow> Inl (A2_Config (RInvalidRole (ak_kid e) (ak_role e)))
       | Some role \<Rightarrow>
           (case x_unb64 X (ak_public_key e) of
              None \<Rightarrow> Inl (A2_Config (RInvalidBase64 (ak_kid e)))
            | Some raw \<Rightarrow>
                if length raw \<noteq> 32 then Inl (A2_Config (RKeyLength (ak_kid e)))
                else if \<not> x_ed_key_ok X raw then Inl (A2_Config (RInvalidKey (ak_kid e)))
                else config_keys X es (bt_insert (ak_kid e) (raw, role) m) (has_root \<or> role = Root))))"

definition from_config :: "ext \<Rightarrow> admin_key_config list \<Rightarrow> bool \<Rightarrow> admin_v2_error + admin_verifier" where
  "from_config X keys require_root =
     (case config_keys X keys bt_empty False of
        Inl e \<Rightarrow> Inl e
      | Inr (m, has_root) \<Rightarrow>
          if require_root \<and> \<not> has_root then Inl (A2_Config RNoRootKey)
          else Inr \<lparr>av_keys = m, av_guard = guard_default\<rparr>)"

section \<open>Verification\<close>

definition sig_bytes_ok :: "ext \<Rightarrow> bytes \<Rightarrow> bytes \<Rightarrow> string \<Rightarrow> bool" where
  "sig_bytes_ok X pk msg sig_b64 =
     (case x_unb64url X sig_b64 of
        None \<Rightarrow> False
      | Some sig \<Rightarrow> length sig = 64 \<and> x_ed_verify X pk msg sig)"

definition admin_v2_verify ::
  "ext \<Rightarrow> admin_verifier \<Rightarrow> admin_request \<Rightarrow> u64 \<Rightarrow> (admin_v2_error + verified_admin) \<times> admin_verifier" where
  "admin_v2_verify X a q now =
     (if rq_v q \<noteq> ADMIN_REQUEST_VERSION then (Inl (A2_BadRequest (RVersion (rq_v q))), a)
      else if is_blank (rq_kid q) then (Inl (A2_BadRequest RMissingKid), a)
      else if is_blank (rq_request_id q) then (Inl (A2_BadRequest RMissingRequestId), a)
      else if length (rq_request_id q) > ADMIN_MAX_REQUEST_ID_LEN then (Inl (A2_BadRequest RRequestIdTooLong), a)
      else if rq_nonce q = [] then (Inl (A2_BadRequest RMissingNonce), a)
      else if length (rq_nonce q) > ADMIN_MAX_NONCE_LEN then (Inl (A2_BadRequest RNonceTooLong), a)
      else (case bt_get (av_keys a) (rq_kid q) of
         None \<Rightarrow> (Inl A2_UnknownKey, a)
       | Some (pk, role) \<Rightarrow>
           (case signing_bytes X q of
              Inl e \<Rightarrow> (Inl e, a)
            | Inr msg \<Rightarrow>
                if \<not> sig_bytes_ok X pk msg (rq_sig q) then (Inl A2_BadSignature, a)
                else if abs_diff now (rq_ts q) > ADMIN_MAX_TS_SKEW_SECS then (Inl A2_ExpiredTimestamp, a)
                else (case check_and_insert (av_guard a) (rq_nonce q) of
                   (Inl Replay_Empty, g) \<Rightarrow> (Inl (A2_BadRequest RMissingNonce), a\<lparr>av_guard := g\<rparr>)
                 | (Inl Replay_Replay, g) \<Rightarrow> (Inl A2_Replay, a\<lparr>av_guard := g\<rparr>)
                 | (Inr _, g) \<Rightarrow>
                     (case request_hash X q of
                        Inl e \<Rightarrow> (Inl e, a\<lparr>av_guard := g\<rparr>)
                      | Inr h \<Rightarrow> (Inr \<lparr>va_kid = rq_kid q, va_role = role, va_request_hash = h,
                                     va_signed_bytes = msg\<rparr>, a\<lparr>av_guard := g\<rparr>))))))"

definition verify_signature :: "ext \<Rightarrow> admin_verifier \<Rightarrow> string \<Rightarrow> bytes \<Rightarrow> string \<Rightarrow> admin_v2_error + admin_role" where
  "verify_signature X a kid msg sig_b64 =
     (case bt_get (av_keys a) kid of
        None \<Rightarrow> Inl A2_UnknownKey
      | Some (pk, role) \<Rightarrow> if sig_bytes_ok X pk msg sig_b64 then Inr role else Inl A2_BadSignature)"

definition sign_request :: "ext \<Rightarrow> bytes \<Rightarrow> admin_request \<Rightarrow> admin_v2_error + admin_request" where
  "sign_request X sk q =
     (case signing_bytes X q of
        Inl e \<Rightarrow> Inl e
      | Inr b \<Rightarrow> Inr (q\<lparr>rq_sig := x_b64url X (x_ed_sign X sk b)\<rparr>))"

record forwarded_admin_envelope =
  fe_op :: string
  fe_v :: u8
  fe_request_b64 :: string
  fe_edge_peer :: string
  fe_edge_sig :: string

record raft_status_member =
  sm_node_id :: u64
  sm_peer_id :: string
  sm_voter :: bool

record raft_status_snapshot =
  rs_cluster_id :: string
  rs_node_id :: u64
  rs_leader :: "string option"
  rs_term :: u64
  rs_state :: string
  rs_applied_index :: "u64 option"
  rs_last_log_index :: "u64 option"
  rs_voters :: "raft_status_member list"
  rs_learners :: "raft_status_member list"
  rs_stale :: bool

definition health :: "raft_status_snapshot \<Rightarrow> string" where
  "health s = (if rs_leader s = None then ''no_leader'' else if rs_stale s then ''stale'' else ''ok'')"

section \<open>The contract\<close>

definition signature_ok :: "ext \<Rightarrow> admin_verifier \<Rightarrow> admin_request \<Rightarrow> bool" where
  "signature_ok X a q \<longleftrightarrow> (\<exists>pk role msg. bt_get (av_keys a) (rq_kid q) = Some (pk, role) \<and>
     signing_bytes X q = Inr msg \<and> sig_bytes_ok X pk msg (rq_sig q))"

lemma admin_v2_verify_ok:
  assumes "admin_v2_verify X a q now = (Inr r, a')"
  shows "rq_v q = 2 \<and> \<not> is_blank (rq_kid q) \<and> \<not> is_blank (rq_request_id q) \<and> length (rq_request_id q) \<le> 128 \<and>
    length (rq_nonce q) \<le> 64 \<and>
    (\<exists>pk msg. bt_get (av_keys a) (rq_kid q) = Some (pk, va_role r) \<and> signing_bytes X q = Inr msg \<and>
       sig_bytes_ok X pk msg (rq_sig q) \<and> va_signed_bytes r = msg) \<and>
    request_hash X q = Inr (va_request_hash r) \<and> va_kid r = rq_kid q \<and>
    abs_diff now (rq_ts q) \<le> ADMIN_MAX_TS_SKEW_SECS \<and>
    check_and_insert (av_guard a) (rq_nonce q) = (Inr (), av_guard a') \<and> av_keys a' = av_keys a"
  using assms
  by (auto simp: admin_v2_verify_def
      split: option.splits if_splits prod.splits sum.splits replay_error.splits)

lemma admin_v2_verify_err:
  assumes "admin_v2_verify X a q now = (Inl e, a')"
  shows "a' = a \<or> signature_ok X a q \<and> abs_diff now (rq_ts q) \<le> ADMIN_MAX_TS_SKEW_SECS \<and>
    check_and_insert (av_guard a) (rq_nonce q) = (Inr (), av_guard a')"
  using assms
  by (auto simp: admin_v2_verify_def signature_ok_def
      split: option.splits if_splits prod.splits sum.splits replay_error.splits dest: guard_result_cases)

interpretation sig_admin: fresh_auth "admin_v2_verify X" av_guard rq_nonce rq_ts ADMIN_MAX_TS_SKEW_SECS
  "signature_ok X" for X
proof
  show "admin_v2_verify X s q now = (Inr r, s') \<Longrightarrow> signature_ok X s q \<and> abs_diff now (rq_ts q) \<le> ADMIN_MAX_TS_SKEW_SECS \<and>
    check_and_insert (av_guard s) (rq_nonce q) = (Inr (), av_guard s')" for s q now r s'
    by (drule admin_v2_verify_ok) (auto simp: signature_ok_def)
qed (rule admin_v2_verify_err)

section \<open>What the signature and the hash cover\<close>

lemma unat_ucast8 [simp]: "unat (ucast a :: u64) = unat a" for a :: u8
  using unsigned_less [of a, where 'a = nat] by (simp add: unsigned_ucast_eq take_bit_nat_eq_self)

lemma unat_ucast32 [simp]: "unat (ucast a :: u64) = unat a" for a :: u32
  using unsigned_less [of a, where 'a = nat] by (simp add: unsigned_ucast_eq take_bit_nat_eq_self)

lemma sint_inject [simp]: "sint8 a = sint8 b \<longleftrightarrow> a = b" "sint32 c = sint32 d \<longleftrightarrow> c = d"
  using unat_ucast8 unat_ucast32 by (auto simp: sint8_def sint32_def word_unat_eq_iff)

lemma canonical_peers_eq: "canonical_peers xs = canonical_peers ys \<longleftrightarrow> set xs = set ys"
proof -
  have "fset_of_list xs = fset_of_list ys \<longleftrightarrow> set xs = set ys"
    by (metis fset_of_list.rep_eq fset_inject)
  then show ?thesis
    by (simp add: canonical_peers_def sorted_list_of_fset_inject)
qed

lemma map_SStr_eq [simp]: "map SStr xs = map SStr ys \<longleftrightarrow> xs = ys"
  by (rule inj_map_eq_map) (simp add: inj_def)

lemma member_spec_sval_inject [simp]:
  "member_spec_sval m = member_spec_sval m' \<longleftrightarrow> m = m'" "member_spec_sval m \<noteq> SNull" "SNull \<noteq> member_spec_sval m"
  by (cases m, cases m') (auto simp: member_spec_sval_def)

lemma join_token_spec_sval_inject [simp]:
  "join_token_spec_sval t = join_token_spec_sval t' \<longleftrightarrow> t = t'" "join_token_spec_sval t \<noteq> SNull"
  "SNull \<noteq> join_token_spec_sval t"
  by (cases t, cases t') (auto simp: join_token_spec_sval_def)

text \<open>The identity of a request: all that the request hash is computed from.\<close>

definition same_identity :: "admin_request \<Rightarrow> admin_request \<Rightarrow> bool" where
  "same_identity q r \<longleftrightarrow> rq_v q = rq_v r \<and> rq_op q = rq_op r \<and> rq_service q = rq_service r \<and>
     set (rq_peers q) = set (rq_peers r) \<and> rq_kid q = rq_kid r \<and> rq_request_id q = rq_request_id r \<and>
     rq_member q = rq_member r \<and> rq_join_token q = rq_join_token r"

lemma extension_fields_inject:
  "extension_fields q = extension_fields r \<longleftrightarrow> rq_member q = rq_member r \<and> rq_join_token q = rq_join_token r"
  by (auto simp: extension_fields_def opt_sval_def split: option.splits)

lemma identity_fields_inject:
  "identity_fields q @ xs = identity_fields r @ ys \<longleftrightarrow>
   rq_v q = rq_v r \<and> rq_op q = rq_op r \<and> rq_service q = rq_service r \<and> set (rq_peers q) = set (rq_peers r) \<and>
   rq_kid q = rq_kid r \<and> rq_request_id q = rq_request_id r \<and> xs = ys"
  by (auto simp: identity_fields_def canonical_peers_eq)

lemma cbor_total:
  assumes "cbor_law X"
  obtains b where "x_cbor X v = Some b"
  using assms unfolding cbor_law_def by blast

lemma cbor_inject: "cbor_law X \<Longrightarrow> x_cbor X v = x_cbor X w \<longleftrightarrow> v = w"
  by (auto simp: cbor_law_def)

lemma signing_bytes_total:
  assumes "cbor_law X"
  obtains b where "signing_bytes X q = Inr b"
  using assms by (metis cbor_total option.simps(5) signing_bytes_def)

lemma request_hash_total:
  assumes "cbor_law X"
  obtains h where "request_hash X q = Inr h"
  using assms by (metis cbor_total option.simps(5) request_hash_def)

lemma b64url_inject: "b64url_law X \<Longrightarrow> x_b64url X a = x_b64url X b \<longleftrightarrow> a = b"
  by (metis b64url_law_def option.inject)

lemma signing_bytes_inject:
  assumes "cbor_law X"
  shows "signing_bytes X q = signing_bytes X r \<longleftrightarrow>
    same_identity q r \<and> rq_nonce q = rq_nonce r \<and> rq_ts q = rq_ts r"
proof -
  let ?v = "\<lambda>q. SMap (identity_fields q @ [(''nonce'', SStr (rq_nonce q)), (''ts'', SInt (rq_ts q))] @ extension_fields q)"
  have "signing_bytes X q = signing_bytes X r \<longleftrightarrow> x_cbor X (?v q) = x_cbor X (?v r)"
    using assms by (auto simp: signing_bytes_def cbor_law_def split: option.splits)
  also have "\<dots> \<longleftrightarrow> ?v q = ?v r"
    by (rule cbor_inject [OF assms])
  also have "\<dots> \<longleftrightarrow> same_identity q r \<and> rq_nonce q = rq_nonce r \<and> rq_ts q = rq_ts r"
    by (auto simp: identity_fields_inject same_identity_def extension_fields_inject)
  finally show ?thesis .
qed

lemma request_hash_inject:
  assumes "cbor_law X" "sha256_injective X" "b64url_law X"
  shows "request_hash X q = request_hash X r \<longleftrightarrow> same_identity q r"
proof -
  let ?v = "\<lambda>q. SMap (identity_fields q @ extension_fields q)"
  have "request_hash X q = request_hash X r \<longleftrightarrow> x_cbor X (?v q) = x_cbor X (?v r)"
    using assms by (auto simp: request_hash_def cbor_law_def b64url_inject sha256_injective_def split: option.splits)
  also have "\<dots> \<longleftrightarrow> ?v q = ?v r"
    by (rule cbor_inject [OF assms(1)])
  also have "\<dots> \<longleftrightarrow> same_identity q r"
    by (auto simp: identity_fields_inject same_identity_def extension_fields_inject)
  finally show ?thesis .
qed

section \<open>Properties\<close>

lemma check_and_insert_new:
  "n \<noteq> [] \<Longrightarrow> n \<notin> rg_seen g \<Longrightarrow> \<exists>g'. check_and_insert g n = (Inr (), g')"
  by (simp add: check_and_insert_def)

definition well_formed_request :: "admin_request \<Rightarrow> bool" where
  "well_formed_request q \<longleftrightarrow> rq_v q = 2 \<and> \<not> is_blank (rq_kid q) \<and> \<not> is_blank (rq_request_id q) \<and>
     length (rq_request_id q) \<le> 128 \<and> rq_nonce q \<noteq> [] \<and> length (rq_nonce q) \<le> 64"

lemma signing_ignores_sig: "signing_bytes X (q\<lparr>rq_sig := s\<rparr>) = signing_bytes X q"
  "request_hash X (q\<lparr>rq_sig := s\<rparr>) = request_hash X q"
  by (simp_all add: signing_bytes_def request_hash_def identity_fields_def extension_fields_def)

lemma sign_request_ok:
  assumes "sig_law X" "b64url_law X" "sign_request X sk q = Inr q'"
  obtains msg s where "signing_bytes X q = Inr msg" "q' = q\<lparr>rq_sig := s\<rparr>" "sig_bytes_ok X (x_ed_pub X sk) msg s"
  using assms by (auto simp: sign_request_def sig_bytes_ok_def sig_law_def b64url_law_def split: sum.splits)

lemma signed_accepted:
  assumes "sig_law X" "cbor_law X" "b64url_law X" "well_formed_request q" "sign_request X sk q = Inr q'"
    and "bt_get (av_keys a) (rq_kid q) = Some (x_ed_pub X sk, role)"
    and "abs_diff now (rq_ts q) \<le> 300" "rq_nonce q \<notin> rg_seen (av_guard a)"
  shows "\<exists>h b. admin_v2_verify X a q' now =
      (Inr \<lparr>va_kid = rq_kid q, va_role = role, va_request_hash = h, va_signed_bytes = b\<rparr>,
       a\<lparr>av_guard := snd (check_and_insert (av_guard a) (rq_nonce q))\<rparr>) \<and>
    request_hash X q = Inr h \<and> signing_bytes X q = Inr b"
proof -
  obtain msg s where q': "signing_bytes X q = Inr msg" "q' = q\<lparr>rq_sig := s\<rparr>" "sig_bytes_ok X (x_ed_pub X sk) msg s"
    using sign_request_ok [OF assms(1,3,5)] by blast
  obtain h where h: "request_hash X q = Inr h"
    using request_hash_total [OF assms(2)] by blast
  obtain g where g: "check_and_insert (av_guard a) (rq_nonce q) = (Inr (), g)"
    using check_and_insert_new assms(4,8) by (metis well_formed_request_def)
  show ?thesis
    using assms(4,6,7) q' h g
    by (simp add: admin_v2_verify_def well_formed_request_def signing_ignores_sig
        not_less)
qed

text \<open>A run of the verifier over a sequence of requests with their arrival times, and how many of the
  requests entered their nonce in its memory.\<close>

fun admin_run :: "ext \<Rightarrow> admin_verifier \<Rightarrow> (admin_request \<times> u64) list \<Rightarrow> admin_verifier" where
  "admin_run X a [] = a"
| "admin_run X a ((q, now) # qs) = admin_run X (snd (admin_v2_verify X a q now)) qs"

fun admin_entered :: "ext \<Rightarrow> admin_verifier \<Rightarrow> (admin_request \<times> u64) list \<Rightarrow> nat" where
  "admin_entered X a [] = 0"
| "admin_entered X a ((q, now) # qs) =
     (if av_guard (snd (admin_v2_verify X a q now)) = av_guard a then 0 else 1) +
     admin_entered X (snd (admin_v2_verify X a q now)) qs"

lemma admin_run_eq: "sig_admin.run X a qs = admin_run X a qs" "sig_admin.entered X a qs = admin_entered X a qs"
  by (induction X a qs rule: admin_run.induct) simp_all

lemma from_config_guard: "from_config X keys rr = Inr a \<Longrightarrow> av_guard a = guard_default"
  by (auto simp: from_config_def split: sum.splits if_splits)

text \<open>
  An administrator request is accepted at most once. After a verifier built from the configuration
  has accepted a request, the same request is refused, and the verifier left alone, as long as fewer than
  ten thousand nonces of other requests entered the memory, and whatever happened in between once ten
  minutes have passed.
\<close>

theorem admin_request_not_replayed:
  assumes "from_config X keys rr = Inr a0" "admin_v2_verify X (admin_run X a0 qs0) q now = (Inr r, a1)"
    and "admin_entered X a1 qs < MAX_SEEN_NONCES \<or> unat now + 600 < unat now'"
  shows "\<exists>e. admin_v2_verify X (admin_run X a1 qs) q now' = (Inl e, admin_run X a1 qs)"
proof (cases "admin_entered X a1 qs < MAX_SEEN_NONCES")
  case True
  have "guard_inv (av_guard (sig_admin.run X a0 qs0))"
    by (rule sig_admin.guard_inv_run) (simp add: from_config_guard [OF assms(1)] guard_inv_default)
  then show ?thesis
    using sig_admin.replay_rejected [OF _ assms(2), of qs q] True by (simp add: admin_run_eq)
next
  case False
  then show ?thesis
    using assms(3) by (intro sig_admin.stale_rejected [OF assms(2)]) simp
qed

definition demo_sk :: bytes where "demo_sk = replicate 32 (CHR ''k'')"

definition demo_keys :: "admin_key_config list" where
  "demo_keys = [\<lparr>ak_kid = ''ops'', ak_public_key = x_b64 demo_ext (x_ed_pub demo_ext demo_sk), ak_role = ''root''\<rparr>]"

definition demo_request :: admin_request where
  "demo_request = \<lparr>rq_v = 2, rq_op = ''add'', rq_service = ''cmd'', rq_peers = [''p'', ''q''], rq_kid = ''ops'',
     rq_request_id = ''r1'', rq_nonce = ''n1'', rq_ts = 1000, rq_sig = [], rq_member = None, rq_join_token = None\<rparr>"

definition demo_verifier :: admin_verifier where
  "demo_verifier = \<lparr>av_keys = bt_insert ''ops'' (x_ed_pub demo_ext demo_sk, Root) bt_empty, av_guard = guard_default\<rparr>"

lemma demo_nonblank: "\<not> is_blank ''ops''" "\<not> is_blank ''r1''"
  by (simp_all add: is_blank_def trim_start.simps)

lemma demo_from_config: "from_config demo_ext demo_keys True = Inr demo_verifier"
proof -
  have "x_unb64 demo_ext (x_b64 demo_ext (x_ed_pub demo_ext demo_sk)) = Some (x_ed_pub demo_ext demo_sk)"
    using demo_laws(1) by (simp add: b64_law_def)
  moreover have "length (x_ed_pub demo_ext demo_sk) = 32" "x_ed_key_ok demo_ext (x_ed_pub demo_ext demo_sk)"
    by (simp_all add: demo_ext_def demo_sk_def)
  ultimately show ?thesis
    by (simp add: from_config_def demo_keys_def demo_verifier_def role_parse_def demo_nonblank bt_contains_def)
qed

lemma demo_request_ok: "well_formed_request demo_request"
  by (simp add: well_formed_request_def demo_request_def demo_nonblank)

lemma demo_signed: obtains q where "sign_request demo_ext demo_sk demo_request = Inr q"
proof -
  obtain b where "signing_bytes demo_ext demo_request = Inr b"
    by (rule signing_bytes_total [OF demo_laws(5)])
  then show thesis
    by (intro that) (simp add: sign_request_def)
qed

lemma demo_known: "bt_get (av_keys demo_verifier) (rq_kid demo_request) = Some (x_ed_pub demo_ext demo_sk, Root)"
  "rq_nonce demo_request \<notin> rg_seen (av_guard demo_verifier)" "abs_diff 1000 (rq_ts demo_request) \<le> 300"
  by (simp_all add: demo_verifier_def demo_request_def guard_default_def abs_diff_def)

theorem admin_request_not_replayed_witness:
  "\<exists>q r a e. sign_request demo_ext demo_sk demo_request = Inr q \<and>
     admin_v2_verify demo_ext demo_verifier q 1000 = (Inr r, a) \<and> admin_v2_verify demo_ext a q 1001 = (Inl e, a)"
proof -
  obtain q where q: "sign_request demo_ext demo_sk demo_request = Inr q"
    by (rule demo_signed)
  then obtain r a where a: "admin_v2_verify demo_ext (admin_run demo_ext demo_verifier []) q 1000 = (Inr r, a)"
    using signed_accepted [OF _ _ _ demo_request_ok q demo_known(1,3,2)] by auto
  show ?thesis
    using admin_request_not_replayed [OF demo_from_config a, of "[]" 1001] a q by (auto simp: MAX_SEEN_NONCES_def)
qed

text \<open>
  A request signed with a configured key is accepted. A well-formed request whose nonce is new and
  whose time stamp is within five minutes of the clock, signed with the private key of its key id, is
  accepted with that key's role and the hash of the request, and only its nonce is recorded.
\<close>

theorem signed_request_accepted:
  assumes "sig_law X" "cbor_law X" "b64url_law X" "well_formed_request q" "sign_request X sk q = Inr q'"
    and "bt_get (av_keys a) (rq_kid q) = Some (x_ed_pub X sk, role)"
    and "abs_diff now (rq_ts q) \<le> 300" "rq_nonce q \<notin> rg_seen (av_guard a)"
  shows "\<exists>r. admin_v2_verify X a q' now =
      (Inr r, a\<lparr>av_guard := snd (check_and_insert (av_guard a) (rq_nonce q))\<rparr>) \<and>
    va_kid r = rq_kid q \<and> va_role r = role \<and> request_hash X q = Inr (va_request_hash r)"
  using signed_accepted [OF assms] by fastforce

theorem signed_request_accepted_witness:
  "\<exists>q r a. sign_request demo_ext demo_sk demo_request = Inr q \<and>
     admin_v2_verify demo_ext demo_verifier q 1000 = (Inr r, a) \<and> va_role r = Root"
proof -
  obtain q where q: "sign_request demo_ext demo_sk demo_request = Inr q"
    by (rule demo_signed)
  show ?thesis
    using signed_request_accepted [OF _ _ _ demo_request_ok q demo_known(1,3,2)] q by auto
qed

text \<open>
  What the signature and the deduplication hash cover. Two requests have the same hash exactly
  when they agree on everything but nonce, time stamp, signature and the order and repetition of the
  peers; the signature covers nonce and time stamp too.
\<close>

theorem request_identity:
  assumes "cbor_law X" "sha256_injective X" "b64url_law X"
  shows "(request_hash X q = request_hash X r \<longleftrightarrow> same_identity q r) \<and>
    (signing_bytes X q = signing_bytes X r \<longleftrightarrow> same_identity q r \<and> rq_nonce q = rq_nonce r \<and> rq_ts q = rq_ts r)"
  using request_hash_inject [OF assms] signing_bytes_inject [OF assms(1)] by simp

theorem request_identity_witness:
  "request_hash demo_ext demo_request = request_hash demo_ext (demo_request\<lparr>rq_nonce := ''n2'', rq_peers := [''q'', ''p'']\<rparr>) \<and>
   signing_bytes demo_ext demo_request \<noteq> signing_bytes demo_ext (demo_request\<lparr>rq_nonce := ''n2'', rq_peers := [''q'', ''p'']\<rparr>)"
  using request_identity [where X = demo_ext and q = demo_request and
    r = "demo_request\<lparr>rq_nonce := ''n2'', rq_peers := [''q'', ''p'']\<rparr>"]
  by (auto simp: same_identity_def demo_request_def)

text \<open>What \<open>from_config\<close> keeps of an entry of the configuration.\<close>

definition key_entry_ok :: "ext \<Rightarrow> admin_key_config \<Rightarrow> (bytes \<times> admin_role) option \<Rightarrow> bool" where
  "key_entry_ok X e v \<longleftrightarrow> (\<exists>raw role. v = Some (raw, role) \<and> x_unb64 X (ak_public_key e) = Some raw \<and>
     length raw = 32 \<and> x_ed_key_ok X raw \<and> role_parse (ak_role e) = Some role)"

lemma config_keys_step:
  assumes "config_keys X (e # es) m hr = Inr res"
  obtains raw role where "bt_get m (ak_kid e) = None" "\<not> is_blank (ak_kid e)" "key_entry_ok X e (Some (raw, role))"
    "config_keys X es (bt_insert (ak_kid e) (raw, role) m) (hr \<or> role = Root) = Inr res"
  using assms
  by (cases "bt_get m (ak_kid e)") (auto simp: key_entry_ok_def bt_contains_def split: if_splits option.splits)

lemma config_keys_table:
  "config_keys X es m hr = Inr (m', hr') \<Longrightarrow>
   distinct (map ak_kid es) \<and>
   (\<forall>e \<in> set es. bt_get m (ak_kid e) = None \<and> \<not> is_blank (ak_kid e) \<and> key_entry_ok X e (bt_get m' (ak_kid e))) \<and>
   (\<forall>k. k \<notin> ak_kid ` set es \<longrightarrow> bt_get m' k = bt_get m k) \<and>
   (hr' \<longleftrightarrow> hr \<or> (\<exists>e \<in> set es. role_parse (ak_role e) = Some Root))"
proof (induction es arbitrary: m hr)
  case (Cons e es)
  from Cons.prems obtain raw role where e: "bt_get m (ak_kid e) = None" "\<not> is_blank (ak_kid e)"
      "key_entry_ok X e (Some (raw, role))"
      "config_keys X es (bt_insert (ak_kid e) (raw, role) m) (hr \<or> role = Root) = Inr (m', hr')"
    by (rule config_keys_step)
  note ih = Cons.IH [OF e(4)]
  have nin: "ak_kid e \<notin> ak_kid ` set es"
    using ih by force
  have old: "bt_get m (ak_kid e') = None" if "e' \<in> set es" for e'
    using ih that nin by (metis bt.get_ins image_eqI)
  have "role_parse (ak_role e) = Some role"
    using e(3) by (auto simp: key_entry_ok_def)
  then show ?case
    using ih nin old e by auto
qed simp

text \<open>
  The administrator key table is fail-closed. Every accepted configuration has distinct non-blank key
  ids, each with a valid 32-byte key and a known role, the table holds exactly those ids, and in cluster
  mode at least one of them is a root key.
\<close>

theorem admin_keys_fail_closed:
  assumes "from_config X keys require_root = Inr a"
  shows "distinct (map ak_kid keys) \<and>
    (\<forall>e \<in> set keys. \<not> is_blank (ak_kid e) \<and> key_entry_ok X e (bt_get (av_keys a) (ak_kid e))) \<and>
    (\<forall>k. bt_get (av_keys a) k \<noteq> None \<longrightarrow> k \<in> ak_kid ` set keys) \<and>
    (require_root \<longrightarrow> (\<exists>kid pk. bt_get (av_keys a) kid = Some (pk, Root)))"
proof -
  obtain hr where a: "config_keys X keys bt_empty False = Inr (av_keys a, hr)" "require_root \<longrightarrow> hr"
    using assms by (auto simp: from_config_def split: sum.splits if_splits)
  note t = config_keys_table [OF a(1)]
  have "\<exists>kid pk. bt_get (av_keys a) kid = Some (pk, Root)" if rr: "require_root"
  proof -
    obtain e where "e \<in> set keys" "role_parse (ak_role e) = Some Root"
      using t a(2) rr by auto
    then show ?thesis
      using t by (fastforce simp: key_entry_ok_def)
  qed
  then show ?thesis
    using t by fastforce
qed

theorem admin_keys_fail_closed_witness:
  "\<exists>kid pk. bt_get (av_keys demo_verifier) kid = Some (pk, Root)"
  using admin_keys_fail_closed [OF demo_from_config] by simp

end
