(* ===== verification/Transport.thy ===== *)
theory Transport
  imports Policy_Runs Admin_V2
begin

text \<open>
  \<open>src/raft/transport.rs\<close>: the sidecar's Ed25519 identity and the signed envelopes of Raft RPCs. The body of an RPC
  (a request of openraft) is of any type \<open>'b\<close>, with its CBOR encoder and decoder as arguments.
\<close>

section \<open>Data\<close>

definition RAFT_RPC_OP :: string where "RAFT_RPC_OP = ''raft_rpc''"
abbreviation IDENTITY_SEED_LEN :: nat where "IDENTITY_SEED_LEN \<equiv> 32"
abbreviation REQ_DOMAIN :: bytes where "REQ_DOMAIN \<equiv> ''nexusauth/raft/rpc''"
abbreviation RESP_DOMAIN :: bytes where "RESP_DOMAIN \<equiv> ''nexusauth/raft/resp''"

datatype decode_reason = CodecError | UnexpectedOp | RemoteError string

datatype transport_error =
    T_Io io_error | T_InvalidSeed | T_InvalidKey | T_BadBase64 | T_BadSignature | T_WrongCluster | T_WrongTarget
  | T_WrongSender | T_UnknownNode node_id | T_Decode decode_reason

record raft_rpc_envelope =
  ev_op :: string
  ev_cluster_id :: string
  ev_from :: node_id
  ev_to :: node_id
  ev_body :: string
  ev_signature :: string

text \<open>The fields of type \<open>String\<close> hold valid UTF-8 in the program; here they are any bytes.\<close>

record raft_rpc_reply =
  rr_op :: string
  rr_cluster_id :: string
  rr_from :: node_id
  rr_to :: node_id
  rr_ok :: bool
  rr_body :: string
  rr_error :: string
  rr_signature :: string

section \<open>The identity key\<close>

record identity_key =
  ik_seed :: bytes
  ik_public_key_b64 :: string

definition identity_from_seed :: "ext \<Rightarrow> bytes \<Rightarrow> identity_key" where
  "identity_from_seed X seed = \<lparr>ik_seed = seed, ik_public_key_b64 = x_b64 X (x_ed_pub X seed)\<rparr>"

text \<open>\<open>fresh\<close> is the random seed drawn when there is no file.\<close>

definition identity_load_or_create ::
  "ext \<Rightarrow> io \<Rightarrow> bytes \<Rightarrow> path \<Rightarrow> fs \<Rightarrow> (transport_error + identity_key) \<times> fs" where
  "identity_load_or_create X e fresh p s =
     (case fs_read e p s of
        Inr b \<Rightarrow> if length b \<noteq> IDENTITY_SEED_LEN then (Inl T_InvalidSeed, s) else (Inr (identity_from_seed X b), s)
      | Inl Io_NotFound \<Rightarrow>
          (case atomic_write e p fresh (Some 0x180) s of
             (Inl x, s') \<Rightarrow> (Inl (T_Io x), s')
           | (Inr _, s') \<Rightarrow> (Inr (identity_from_seed X fresh), s'))
      | Inl x \<Rightarrow> (Inl (T_Io x), s))"

definition sign_b64 :: "ext \<Rightarrow> identity_key \<Rightarrow> bytes \<Rightarrow> string" where
  "sign_b64 X k msg = x_b64url X (x_ed_sign X (ik_seed k) msg)"

section \<open>Signed inputs and envelopes\<close>

definition request_input :: "string \<Rightarrow> node_id \<Rightarrow> node_id \<Rightarrow> bytes \<Rightarrow> bytes" where
  "request_input cluster_id src dst body = REQ_DOMAIN @ [CHR 0x00] @ cluster_id @ [CHR 0x00] @ be_bytes 8 (unat src)
     @ [CHR 0x00] @ be_bytes 8 (unat dst) @ [CHR 0x00] @ body"

definition response_input :: "string \<Rightarrow> node_id \<Rightarrow> node_id \<Rightarrow> bool \<Rightarrow> bytes \<Rightarrow> string \<Rightarrow> bytes" where
  "response_input cluster_id src dst ok body error = RESP_DOMAIN @ [CHR 0x00] @ cluster_id @ [CHR 0x00] @ be_bytes 8 (unat src)
     @ [CHR 0x00] @ be_bytes 8 (unat dst) @ [CHR 0x00] @ [if ok then CHR 0x01 else CHR 0x00] @ [CHR 0x00] @ body
     @ [CHR 0x00] @ error"

definition envelope_sval :: "raft_rpc_envelope \<Rightarrow> sval" where
  "envelope_sval v = SMap [(''op'', SStr (ev_op v)), (''cluster_id'', SStr (ev_cluster_id v)), (''from'', SInt (ev_from v)),
     (''to'', SInt (ev_to v)), (''body'', SStr (ev_body v)), (''signature'', SStr (ev_signature v))]"

definition reply_sval :: "raft_rpc_reply \<Rightarrow> sval" where
  "reply_sval r = SMap [(''op'', SStr (rr_op r)), (''cluster_id'', SStr (rr_cluster_id r)), (''from'', SInt (rr_from r)),
     (''to'', SInt (rr_to r)), (''ok'', SBool (rr_ok r)), (''body'', SStr (rr_body r)), (''error'', SStr (rr_error r)),
     (''signature'', SStr (rr_signature r))]"

definition request_envelope :: "ext \<Rightarrow> identity_key \<Rightarrow> string \<Rightarrow> node_id \<Rightarrow> node_id \<Rightarrow> bytes \<Rightarrow> raft_rpc_envelope" where
  "request_envelope X k cluster_id src dst body = \<lparr>ev_op = RAFT_RPC_OP, ev_cluster_id = cluster_id, ev_from = src, ev_to = dst,
     ev_body = x_b64url X body, ev_signature = sign_b64 X k (request_input cluster_id src dst body)\<rparr>"

definition encode_request ::
  "ext \<Rightarrow> ('b \<Rightarrow> bytes option) \<Rightarrow> identity_key \<Rightarrow> string \<Rightarrow> node_id \<Rightarrow> node_id \<Rightarrow> 'b \<Rightarrow> transport_error + bytes" where
  "encode_request X enc k cluster_id src dst body =
     (case enc body of
        None \<Rightarrow> Inl (T_Decode CodecError)
      | Some b \<Rightarrow>
          (case x_json X (envelope_sval (request_envelope X k cluster_id src dst b)) of
             None \<Rightarrow> Inl (T_Decode CodecError)
           | Some j \<Rightarrow> Inr j))"

definition reply_envelope ::
  "ext \<Rightarrow> identity_key \<Rightarrow> string \<Rightarrow> node_id \<Rightarrow> node_id \<Rightarrow> bool \<Rightarrow> bytes \<Rightarrow> string \<Rightarrow> raft_rpc_reply" where
  "reply_envelope X k cluster_id src dst ok body error = \<lparr>rr_op = RAFT_RPC_OP, rr_cluster_id = cluster_id, rr_from = src,
     rr_to = dst, rr_ok = ok, rr_body = x_b64url X body, rr_error = error,
     rr_signature = sign_b64 X k (response_input cluster_id src dst ok body error)\<rparr>"

definition encode_reply ::
  "ext \<Rightarrow> identity_key \<Rightarrow> string \<Rightarrow> node_id \<Rightarrow> node_id \<Rightarrow> bool \<Rightarrow> bytes \<Rightarrow> string \<Rightarrow> transport_error + bytes" where
  "encode_reply X k cluster_id src dst ok body error =
     (case x_json X (reply_sval (reply_envelope X k cluster_id src dst ok body error)) of
        None \<Rightarrow> Inl (T_Decode CodecError)
      | Some j \<Rightarrow> Inr j)"

section \<open>The verifier\<close>

record rpc_verifier =
  rv_cluster_id :: string
  rv_local_id :: node_id
  rv_keys :: "(node_id, bytes) btmap"

definition rpc_verifier_new :: "string \<Rightarrow> node_id \<Rightarrow> rpc_verifier" where
  "rpc_verifier_new cluster_id local_id = \<lparr>rv_cluster_id = cluster_id, rv_local_id = local_id, rv_keys = bt_empty\<rparr>"

definition parse_verifying_key :: "ext \<Rightarrow> string \<Rightarrow> transport_error + bytes" where
  "parse_verifying_key X b64 =
     (case x_unb64 X b64 of
        None \<Rightarrow> Inl T_InvalidKey
      | Some raw \<Rightarrow> if length raw \<noteq> 32 \<or> \<not> x_ed_key_ok X raw then Inl T_InvalidKey else Inr raw)"

definition add_node :: "ext \<Rightarrow> node_id \<Rightarrow> string \<Rightarrow> rpc_verifier \<Rightarrow> (transport_error + unit) \<times> rpc_verifier" where
  "add_node X n b64 v =
     (case parse_verifying_key X b64 of
        Inl e \<Rightarrow> (Inl e, v)
      | Inr key \<Rightarrow> (Inr (), v\<lparr>rv_keys := bt_insert n key (rv_keys v)\<rparr>))"

definition remove_node :: "node_id \<Rightarrow> rpc_verifier \<Rightarrow> rpc_verifier" where
  "remove_node n v = v\<lparr>rv_keys := bt_remove n (rv_keys v)\<rparr>"

fun parse_nodes :: "ext \<Rightarrow> (node_id \<times> string) list \<Rightarrow> (node_id, bytes) btmap \<Rightarrow> transport_error + (node_id, bytes) btmap" where
  "parse_nodes X [] m = Inr m"
| "parse_nodes X ((n, b64) # ns) m =
     (case parse_verifying_key X b64 of
        Inl e \<Rightarrow> Inl e
      | Inr key \<Rightarrow> parse_nodes X ns (bt_insert n key m))"

definition replace_nodes ::
  "ext \<Rightarrow> (node_id \<times> string) list \<Rightarrow> rpc_verifier \<Rightarrow> (transport_error + unit) \<times> rpc_verifier" where
  "replace_nodes X nodes v =
     (case parse_nodes X nodes bt_empty of
        Inl e \<Rightarrow> (Inl e, v)
      | Inr m \<Rightarrow> (Inr (), v\<lparr>rv_keys := m\<rparr>))"

definition has_node :: "rpc_verifier \<Rightarrow> node_id \<Rightarrow> bool" where
  "has_node v n = bt_contains (rv_keys v) n"

definition node_ids :: "rpc_verifier \<Rightarrow> node_id list" where
  "node_ids v = bt_keys (rv_keys v)"

definition verify_node_signature :: "ext \<Rightarrow> rpc_verifier \<Rightarrow> node_id \<Rightarrow> bytes \<Rightarrow> string \<Rightarrow> transport_error + unit" where
  "verify_node_signature X v n msg sig_b64 =
     (case bt_get (rv_keys v) n of
        None \<Rightarrow> Inl (T_UnknownNode n)
      | Some key \<Rightarrow> if sig_bytes_ok X key msg sig_b64 then Inr () else Inl T_BadSignature)"

definition rpc_verify_request ::
  "ext \<Rightarrow> (bytes \<Rightarrow> 'b option) \<Rightarrow> rpc_verifier \<Rightarrow> raft_rpc_envelope \<Rightarrow> transport_error + node_id \<times> 'b" where
  "rpc_verify_request X dec v e =
     (if ev_op e \<noteq> RAFT_RPC_OP then Inl (T_Decode UnexpectedOp)
      else if ev_cluster_id e \<noteq> rv_cluster_id v then Inl T_WrongCluster
      else if ev_to e \<noteq> rv_local_id v then Inl T_WrongTarget
      else (case bt_get (rv_keys v) (ev_from e) of
         None \<Rightarrow> Inl (T_UnknownNode (ev_from e))
       | Some key \<Rightarrow>
           (case x_unb64url X (ev_body e) of
              None \<Rightarrow> Inl T_BadBase64
            | Some body \<Rightarrow>
                (case x_unb64url X (ev_signature e) of
                   None \<Rightarrow> Inl T_BadBase64
                 | Some sig \<Rightarrow>
                     if length sig \<noteq> 64 then Inl T_BadSignature
                     else if \<not> x_ed_verify X key (request_input (ev_cluster_id e) (ev_from e) (ev_to e) body) sig
                     then Inl T_BadSignature
                     else (case dec body of
                        None \<Rightarrow> Inl (T_Decode CodecError)
                      | Some b \<Rightarrow> Inr (ev_from e, b))))))"

definition rpc_verify_reply :: "ext \<Rightarrow> rpc_verifier \<Rightarrow> node_id \<Rightarrow> raft_rpc_reply \<Rightarrow> transport_error + bytes" where
  "rpc_verify_reply X v expected_from r =
     (if rr_op r \<noteq> RAFT_RPC_OP then Inl (T_Decode UnexpectedOp)
      else if rr_cluster_id r \<noteq> rv_cluster_id v then Inl T_WrongCluster
      else if rr_from r \<noteq> expected_from then Inl T_WrongSender
      else if rr_to r \<noteq> rv_local_id v then Inl T_WrongTarget
      else (case bt_get (rv_keys v) expected_from of
         None \<Rightarrow> Inl (T_UnknownNode expected_from)
       | Some key \<Rightarrow>
           (case x_unb64url X (rr_body r) of
              None \<Rightarrow> Inl T_BadBase64
            | Some body \<Rightarrow>
                (case x_unb64url X (rr_signature r) of
                   None \<Rightarrow> Inl T_BadBase64
                 | Some sig \<Rightarrow>
                     if length sig \<noteq> 64 then Inl T_BadSignature
                     else if \<not> x_ed_verify X key
                         (response_input (rr_cluster_id r) (rr_from r) (rr_to r) (rr_ok r) body (rr_error r)) sig
                     then Inl T_BadSignature
                     else if \<not> rr_ok r then Inl (T_Decode (RemoteError (rr_error r)))
                     else Inr body))))"

fun add_nodes :: "ext \<Rightarrow> (node_id \<times> string) list \<Rightarrow> rpc_verifier \<Rightarrow> transport_error + rpc_verifier" where
  "add_nodes X [] v = Inr v"
| "add_nodes X ((n, b64) # ns) v =
     (case add_node X n b64 v of
        (Inl e, _) \<Rightarrow> Inl e
      | (Inr _, v') \<Rightarrow> add_nodes X ns v')"

definition verifier_with_nodes :: "ext \<Rightarrow> string \<Rightarrow> node_id \<Rightarrow> (node_id \<times> string) list \<Rightarrow> transport_error + rpc_verifier" where
  "verifier_with_nodes X cluster_id local_id nodes = add_nodes X nodes (rpc_verifier_new cluster_id local_id)"

definition node_id_from_peer_id :: "ext \<Rightarrow> string \<Rightarrow> node_id" where
  "node_id_from_peer_id X peer_id =
     (let i = of_nat (of_be_bytes (take 8 (x_sha256 X peer_id))) in if i = 0 then 1 else i)"

section \<open>Lemmas\<close>

lemma node_id_nonzero: "node_id_from_peer_id X p \<noteq> 0"
  by (simp add: node_id_from_peer_id_def Let_def)

lemma request_input_inject:
  assumes "CHR 0x00 \<notin> set c" "CHR 0x00 \<notin> set c'"
  shows "request_input c a b m = request_input c' a' b' m' \<longleftrightarrow> c = c' \<and> a = a' \<and> b = b' \<and> m = m'"
  using assms by (simp add: request_input_def terminated_append_inject be8_prefix)

lemma domains_differ: "request_input c a b m \<noteq> response_input c' a' b' ok m' err"
  by (simp add: request_input_def response_input_def)

lemma response_input_inject:
  assumes "CHR 0x00 \<notin> set c" "CHR 0x00 \<notin> set c'"
  shows "response_input c a b ok m err = response_input c' a' b' ok' m' err' \<longleftrightarrow>
    c = c' \<and> a = a' \<and> b = b' \<and> ok = ok' \<and> m @ CHR 0x00 # err = m' @ CHR 0x00 # err'"
  using assms by (simp add: response_input_def terminated_append_inject be8_prefix)

text \<open>The key table after a replacement: the last key given for each node, and no other node.\<close>

lemma parse_nodes_get:
  "parse_nodes X ns m = Inr m' \<Longrightarrow>
   bt_get m' n = (case map_of (rev ns) n of None \<Rightarrow> bt_get m n | Some b64 \<Rightarrow> x_unb64 X b64)"
proof (induction ns arbitrary: m)
  case (Cons p ns)
  obtain k b64 where p: "p = (k, b64)" by (cases p)
  with Cons.prems obtain key where key: "parse_verifying_key X b64 = Inr key" "parse_nodes X ns (bt_insert k key m) = Inr m'"
    by (auto split: sum.splits)
  then have "x_unb64 X b64 = Some key"
    by (auto simp: parse_verifying_key_def split: option.splits if_splits)
  then show ?case
    using Cons.IH [OF key(2)] p by (auto split: option.splits)
qed simp

lemma parse_own_key:
  assumes "b64_law X" "sig_law X" "key_len_law X" "length sk = 32"
  shows "parse_verifying_key X (ik_public_key_b64 (identity_from_seed X sk)) = Inr (x_ed_pub X sk)"
  using assms by (simp add: parse_verifying_key_def identity_from_seed_def b64_law_def sig_law_def key_len_law_def)

section \<open>Properties\<close>

text \<open>
  C18: An accepted Raft RPC is authentic. It names this node as target, this cluster and a known sender, and the sender's
  registered key verifies the signature over exactly that cluster, sender, target and body; for cluster ids
  without NUL byte the signed bytes determine all four, and they are never the signed bytes of a reply.
\<close>

theorem raft_rpc_authentic:
  assumes "rpc_verify_request X dec v e = Inr (n, b)" "CHR 0x00 \<notin> set (rv_cluster_id v)"
  shows "\<exists>key body sig. n = ev_from e \<and> ev_to e = rv_local_id v \<and> ev_cluster_id e = rv_cluster_id v \<and> bt_get (rv_keys v) n = Some key \<and>
    x_unb64url X (ev_body e) = Some body \<and> dec body = Some b \<and> x_unb64url X (ev_signature e) = Some sig \<and>
    x_ed_verify X key (request_input (rv_cluster_id v) n (rv_local_id v) body) sig \<and>
    (\<forall>c a d m. CHR 0x00 \<notin> set c \<and> request_input c a d m = request_input (rv_cluster_id v) n (rv_local_id v) body \<longrightarrow>
       c = rv_cluster_id v \<and> a = n \<and> d = rv_local_id v \<and> m = body) \<and>
    (\<forall>c a d ok m err. response_input c a d ok m err \<noteq> request_input (rv_cluster_id v) n (rv_local_id v) body)"
proof -
  obtain key body sig where "n = ev_from e" "ev_to e = rv_local_id v" "ev_cluster_id e = rv_cluster_id v"
      "bt_get (rv_keys v) n = Some key" "x_unb64url X (ev_body e) = Some body" "dec body = Some b"
      "x_unb64url X (ev_signature e) = Some sig" "x_ed_verify X key (request_input (rv_cluster_id v) n (rv_local_id v) body) sig"
    using assms(1) by (auto simp: rpc_verify_request_def split: if_splits option.splits)
  moreover have "c = rv_cluster_id v \<and> a = n \<and> d = rv_local_id v \<and> m = body'"
    if "CHR 0x00 \<notin> set c \<and> request_input c a d m = request_input (rv_cluster_id v) n (rv_local_id v) body'" for c a d m body'
    using that request_input_inject [of c "rv_cluster_id v"] assms(2) by blast
  moreover have "response_input c a d ok m err \<noteq> request_input (rv_cluster_id v) n (rv_local_id v) body'" for c a d ok m err body'
    by (rule domains_differ [symmetric])
  ultimately show ?thesis by blast
qed

lemma signed_request_verifies:
  assumes "sig_law X" "b64url_law X" "bt_get (rv_keys v) src = Some (x_ed_pub X (ik_seed k))" "dec body = Some b"
  shows "rpc_verify_request X dec v (request_envelope X k (rv_cluster_id v) src (rv_local_id v) body) = Inr (src, b)"
  using assms by (simp add: rpc_verify_request_def request_envelope_def sign_b64_def sig_law_def b64url_law_def)

lemma signed_reply_verifies:
  assumes "sig_law X" "b64url_law X" "bt_get (rv_keys v) src = Some (x_ed_pub X (ik_seed k))"
  shows "rpc_verify_reply X v src (reply_envelope X k (rv_cluster_id v) src (rv_local_id v) ok body err) =
    (if ok then Inr body else Inl (T_Decode (RemoteError err)))"
  using assms by (simp add: rpc_verify_reply_def reply_envelope_def sign_b64_def sig_law_def b64url_law_def)

definition demo_peer_key :: identity_key where
  "demo_peer_key = identity_from_seed demo_ext demo_sk"

definition demo_rpc :: rpc_verifier where
  "demo_rpc = \<lparr>rv_cluster_id = ''c'', rv_local_id = 2, rv_keys = bt_insert 1 (x_ed_pub demo_ext demo_sk) bt_empty\<rparr>"

lemma demo_rpc_key: "bt_get (rv_keys demo_rpc) 1 = Some (x_ed_pub demo_ext (ik_seed demo_peer_key))"
  by (simp add: demo_rpc_def demo_peer_key_def identity_from_seed_def)

theorem raft_rpc_authentic_witness:
  "\<exists>key sig. bt_get (rv_keys demo_rpc) 1 = Some key \<and>
     x_unb64url demo_ext (ev_signature (request_envelope demo_ext demo_peer_key ''c'' 1 2 ''vote'')) = Some sig \<and>
     x_ed_verify demo_ext key (request_input ''c'' 1 2 ''vote'') sig"
proof -
  have "rpc_verify_request demo_ext Some demo_rpc (request_envelope demo_ext demo_peer_key ''c'' 1 2 ''vote'') = Inr (1, ''vote'')"
    using signed_request_verifies [OF demo_laws(3,2) demo_rpc_key, of Some "''vote''" "''vote''"] by (simp add: demo_rpc_def)
  from raft_rpc_authentic [OF this] show ?thesis
    by (auto simp: demo_rpc_def)
qed

text \<open>
  Members understand each other. The envelope a member signs for a node that has its key is accepted
  there with the sender and the body that was encoded, and the signed reply is accepted by the caller: its body when
  it is ok, its error message otherwise.
\<close>

theorem raft_rpc_round_trip:
  assumes "sig_law X" "b64url_law X" "json_law X" "enc body = Some bytes" "dec bytes = Some body"
    and "bt_get (rv_keys server) src = Some (x_ed_pub X (ik_seed k))" "dst = rv_local_id server"
    and "bt_get (rv_keys client) dst = Some (x_ed_pub X (ik_seed k'))" "src = rv_local_id client"
    and "rv_cluster_id server = c" "rv_cluster_id client = c"
  shows "\<exists>e. encode_request X enc k c src dst body = Inr (the (x_json X (envelope_sval e))) \<and>
    rpc_verify_request X dec server e = Inr (src, body) \<and>
    (\<forall>ok res err. \<exists>r. encode_reply X k' c dst src ok res err = Inr (the (x_json X (reply_sval r))) \<and>
       rpc_verify_reply X client dst r = (if ok then Inr res else Inl (T_Decode (RemoteError err))))"
proof -
  have json: "x_json X v = Some (the (x_json X v))" for v
    using assms(3) unfolding json_law_def by force
  have "encode_request X enc k c src dst body = Inr (the (x_json X (envelope_sval (request_envelope X k c src dst bytes))))"
    using json by (simp add: encode_request_def assms(4) split: option.split) (metis option.sel)
  moreover have "rpc_verify_request X dec server (request_envelope X k c src dst bytes) = Inr (src, body)"
    using signed_request_verifies [OF assms(1,2,6), of dec bytes body] assms(5,7,10) by simp
  moreover have "encode_reply X k' c dst src ok res err = Inr (the (x_json X (reply_sval (reply_envelope X k' c dst src ok res err))))" for ok res err
    using json by (simp add: encode_reply_def split: option.split) (metis option.sel)
  moreover have "rpc_verify_reply X client dst (reply_envelope X k' c dst src ok res err) =
      (if ok then Inr res else Inl (T_Decode (RemoteError err)))" for ok res err
    using signed_reply_verifies [OF assms(1,2,8)] assms(9,11) by simp
  ultimately show ?thesis by blast
qed

theorem raft_rpc_round_trip_witness:
  "\<exists>e. encode_request demo_ext Some demo_peer_key ''c'' 1 2 ''vote'' = Inr (the (x_json demo_ext (envelope_sval e))) \<and>
     rpc_verify_request demo_ext Some demo_rpc e = Inr (1, ''vote'')"
  using raft_rpc_round_trip [where X = demo_ext and enc = Some and dec = Some and body = "''vote''" and bytes = "''vote''"
      and server = demo_rpc and src = 1 and dst = 2 and k = demo_peer_key and k' = demo_peer_key and c = "''c''"
      and client = "\<lparr>rv_cluster_id = ''c'', rv_local_id = 1, rv_keys = bt_insert 2 (x_ed_pub demo_ext (ik_seed demo_peer_key)) bt_empty\<rparr>"]
  by (auto simp: demo_rpc_key) (auto simp: demo_rpc_def)

text \<open>The second field of a pair joined by a NUL byte, when the whole ends in one.\<close>

lemma nul_joined:
  "p' @ CHR 0x00 # e' = body @ [CHR 0x00] \<longleftrightarrow> p' = body \<and> e' = [] \<or> (\<exists>q. body = p' @ CHR 0x00 # q \<and> e' = q @ [CHR 0x00])"
proof (cases e' rule: rev_cases)
  case (snoc q c)
  then have "p' @ CHR 0x00 # e' = (p' @ CHR 0x00 # q) @ [c]"
    by simp
  then show ?thesis
    using snoc by auto
qed auto

text \<open>
  C33: The signature of a reply does not fix where its body ends. The body and the error text are joined by a NUL
  byte that the body may contain as well: from the signed ok reply with body \<open>p, NUL, q\<close>, where \<open>q\<close> is valid UTF-8 and so can be an error
  text, anyone can make, without the key, a reply that verifies under the same signature and delivers only \<open>p\<close>. This is the only way: another body and
  error text that give the signed bytes of the reply are such a split of its body at a NUL byte before valid UTF-8.
\<close>

theorem reply_body_malleable:
  fixes p q :: bytes
  assumes "sig_law X" "b64url_law X" "bt_get (rv_keys v) src = Some (x_ed_pub X (ik_seed k))" "valid_utf8 q"
  defines "c \<equiv> rv_cluster_id v" and "me \<equiv> rv_local_id v" and "body \<equiv> p @ CHR 0x00 # q"
  defines "r \<equiv> reply_envelope X k c src me True body []"
  defines "forged \<equiv> r\<lparr>rr_body := x_b64url X p, rr_error := q @ [CHR 0x00]\<rparr>"
  shows "rpc_verify_reply X v src r = Inr body \<and> rpc_verify_reply X v src forged = Inr p \<and> valid_utf8 (rr_error forged) \<and>
    (\<forall>body' e'. valid_utf8 e' \<and> response_input c src me True body' e' = response_input c src me True body [] \<longleftrightarrow>
       body' = body \<and> e' = [] \<or> (\<exists>q'. valid_utf8 q' \<and> body = body' @ CHR 0x00 # q' \<and> e' = q' @ [CHR 0x00]))"
proof (intro conjI allI)
  show "rpc_verify_reply X v src r = Inr body"
    using signed_reply_verifies [OF assms(1-3)] by (simp add: r_def c_def me_def)
  have "response_input c src me True body [] = response_input c src me True p (q @ [CHR 0x00])"
    by (simp add: response_input_def body_def)
  then show "rpc_verify_reply X v src forged = Inr p"
    using assms(1-3) by (simp add: forged_def r_def c_def me_def rpc_verify_reply_def reply_envelope_def sign_b64_def sig_law_def b64url_law_def)
  show "valid_utf8 (rr_error forged)"
    using assms(4) by (simp add: forged_def valid_utf8_nul)
  fix body' e'
  have "response_input c src me True body' e' = response_input c src me True body [] \<longleftrightarrow>
      body' = body \<and> e' = [] \<or> (\<exists>q'. body = body' @ CHR 0x00 # q' \<and> e' = q' @ [CHR 0x00])"
    by (simp add: response_input_def nul_joined)
  then show "valid_utf8 e' \<and> response_input c src me True body' e' = response_input c src me True body [] \<longleftrightarrow>
      body' = body \<and> e' = [] \<or> (\<exists>q'. valid_utf8 q' \<and> body = body' @ CHR 0x00 # q' \<and> e' = q' @ [CHR 0x00])"
    by (auto simp: valid_utf8_nul valid_utf8.simps [of "[]"])
qed

theorem reply_body_malleable_witness:
  "\<exists>r. rpc_verify_reply demo_ext demo_rpc 1 r = Inr (''ab'' @ [CHR 0x00] @ ''cd'') \<and>
     rpc_verify_reply demo_ext demo_rpc 1 (r\<lparr>rr_body := x_b64url demo_ext ''ab'', rr_error := ''cd'' @ [CHR 0x00]\<rparr>) = Inr ''ab''"
proof -
  have "valid_utf8 ''cd''"
    by (simp add: valid_utf8.simps utf8_char_def byte_in_def)
  from reply_body_malleable [OF demo_laws(3,2) demo_rpc_key this, of "''ab''"] show ?thesis
    by auto
qed

end
