(* ===== verification/Seed.thy ===== *)
theory Seed
  imports Transport
begin

text \<open>
  \<open>src/raft/seed.rs\<close>: how the leader hands the authority seed to a voter and takes it back. The seed is encrypted under a key
  agreed by X25519 between an ephemeral key and the target's exchange key, bound to cluster, network, node and
  identity; envelope, receipt and drop request are signed by sidecar identities. Random values are arguments.
\<close>

section \<open>Data\<close>

abbreviation X25519_KEY_LEN :: nat where "X25519_KEY_LEN \<equiv> 32"
abbreviation SEED_ENVELOPE_VERSION :: u8 where "SEED_ENVELOPE_VERSION \<equiv> 1"
definition SEED_DELIVERY_OP :: string where "SEED_DELIVERY_OP = ''raft_seed_delivery''"
definition SEED_DROP_OP :: string where "SEED_DROP_OP = ''raft_seed_drop''"
abbreviation SEED_AAD_INFO :: bytes where "SEED_AAD_INFO \<equiv> ''nexusauth/seed/v1''"

datatype seed_error =
  SE_Io io_error | SE_InvalidKey | SE_InvalidSeed | SE_BadSignature | SE_WrongCluster | SE_WrongNode | SE_Encrypt | SE_Decrypt | SE_Encode

record seed_exchange_key =
  sx_secret :: bytes
  sx_public_b64 :: string

definition exchange_from_bytes :: "ext \<Rightarrow> bytes \<Rightarrow> seed_error + seed_exchange_key" where
  "exchange_from_bytes X b =
     (if length b \<noteq> X25519_KEY_LEN then Inl SE_InvalidKey
      else Inr \<lparr>sx_secret = b, sx_public_b64 = x_b64 X (x_dh_pub X b)\<rparr>)"

definition exchange_load_or_create ::
  "ext \<Rightarrow> io \<Rightarrow> bytes \<Rightarrow> path \<Rightarrow> fs \<Rightarrow> (seed_error + seed_exchange_key) \<times> fs" where
  "exchange_load_or_create X e fresh p s =
     (case fs_read e p s of
        Inr b \<Rightarrow> (exchange_from_bytes X b, s)
      | Inl Io_NotFound \<Rightarrow>
          (case exchange_from_bytes X fresh of
             Inl x \<Rightarrow> (Inl x, s)
           | Inr key \<Rightarrow>
               (case atomic_write e p fresh (Some 0x180) s of
                  (Inl x, s') \<Rightarrow> (Inl (SE_Io x), s')
                | (Inr _, s') \<Rightarrow> (Inr key, s')))
      | Inl x \<Rightarrow> (Inl (SE_Io x), s))"

record seed_binding =
  sb_network :: string
  sb_cluster_id :: string
  sb_node_id :: node_id
  sb_peer_id :: string
  sb_identity_key :: string
  sb_ephemeral_key :: string

record seed_envelope =
  sv_v :: u8
  sv_from_node :: node_id
  sv_cluster_id :: string
  sv_network :: string
  sv_node_id :: node_id
  sv_peer_id :: string
  sv_identity_key :: string
  sv_ephemeral_key :: string
  sv_aead_nonce :: string
  sv_ciphertext :: string
  sv_sig :: string

definition binding_bytes :: "ext \<Rightarrow> seed_binding \<Rightarrow> seed_error + bytes" where
  "binding_bytes X b =
     (case x_cbor X (SMap [(''network'', SStr (sb_network b)), (''cluster_id'', SStr (sb_cluster_id b)), (''node_id'', SInt (sb_node_id b)),
        (''peer_id'', SStr (sb_peer_id b)), (''identity_key'', SStr (sb_identity_key b)), (''ephemeral_key'', SStr (sb_ephemeral_key b))]) of
        None \<Rightarrow> Inl SE_Encode
      | Some c \<Rightarrow> Inr c)"

definition seed_derive_key :: "ext \<Rightarrow> bytes \<Rightarrow> string \<Rightarrow> seed_binding \<Rightarrow> seed_error + bytes" where
  "seed_derive_key X shared cluster_id b =
     (case binding_bytes X b of
        Inl e \<Rightarrow> Inl e
      | Inr c \<Rightarrow>
          (case x_hkdf X cluster_id shared (SEED_AAD_INFO @ [CHR 0x00] @ c) of
             None \<Rightarrow> Inl SE_Encrypt
           | Some key \<Rightarrow> Inr key))"

definition envelope_signing_bytes :: "ext \<Rightarrow> seed_envelope \<Rightarrow> seed_error + bytes" where
  "envelope_signing_bytes X v =
     (case x_cbor X (SMap [(''v'', sint8 (sv_v v)), (''from_node'', SInt (sv_from_node v)), (''cluster_id'', SStr (sv_cluster_id v)),
        (''network'', SStr (sv_network v)), (''node_id'', SInt (sv_node_id v)), (''peer_id'', SStr (sv_peer_id v)),
        (''identity_key'', SStr (sv_identity_key v)), (''ephemeral_key'', SStr (sv_ephemeral_key v)),
        (''aead_nonce'', SStr (sv_aead_nonce v)), (''ciphertext'', SStr (sv_ciphertext v))]) of
        None \<Rightarrow> Inl SE_Encode
      | Some c \<Rightarrow> Inr c)"

section \<open>Delivery\<close>

text \<open>\<open>eph\<close> and \<open>aead\<close> are the random ephemeral secret and the random nonce.\<close>

definition seal_seed ::
  "ext \<Rightarrow> bytes \<Rightarrow> bytes \<Rightarrow> identity_key \<Rightarrow> node_id \<Rightarrow> string \<Rightarrow> string \<Rightarrow> node_id \<Rightarrow> raft_node \<Rightarrow> bytes \<Rightarrow> seed_error + seed_envelope" where
  "seal_seed X eph aead leader_identity leader_node cluster_id network target_node target seed =
     (case x_unb64 X (rn_x25519_key target) of
        None \<Rightarrow> Inl SE_InvalidKey
      | Some target_public \<Rightarrow>
          if length target_public \<noteq> X25519_KEY_LEN then Inl SE_InvalidKey
          else
            let ephemeral_key = x_b64 X (x_dh_pub X eph);
                binding = \<lparr>sb_network = network, sb_cluster_id = cluster_id, sb_node_id = target_node,
                  sb_peer_id = rn_peer_id target, sb_identity_key = rn_identity_key target, sb_ephemeral_key = ephemeral_key\<rparr>
            in case seed_derive_key X (x_dh X eph target_public) cluster_id binding of
                 Inl e \<Rightarrow> Inl e
               | Inr key \<Rightarrow>
                   (case x_seal X key aead [] seed of
                      None \<Rightarrow> Inl SE_Encrypt
                    | Some ciphertext \<Rightarrow>
                        let envelope = \<lparr>sv_v = SEED_ENVELOPE_VERSION, sv_from_node = leader_node, sv_cluster_id = cluster_id,
                              sv_network = network, sv_node_id = target_node, sv_peer_id = rn_peer_id target,
                              sv_identity_key = rn_identity_key target, sv_ephemeral_key = ephemeral_key,
                              sv_aead_nonce = x_b64 X aead, sv_ciphertext = x_b64 X ciphertext, sv_sig = []\<rparr>
                        in case envelope_signing_bytes X envelope of
                             Inl e \<Rightarrow> Inl e
                           | Inr b \<Rightarrow> Inr (envelope\<lparr>sv_sig := sign_b64 X leader_identity b\<rparr>)))"

definition open_seed ::
  "ext \<Rightarrow> seed_exchange_key \<Rightarrow> rpc_verifier \<Rightarrow> node_id \<Rightarrow> string \<Rightarrow> string \<Rightarrow> string \<Rightarrow> string \<Rightarrow> node_id option \<Rightarrow> seed_envelope \<Rightarrow>
   seed_error + bytes" where
  "open_seed X local_key verifier local_node_id local_peer_id local_identity_key cluster_id network expected_leader v =
     (if sv_v v \<noteq> SEED_ENVELOPE_VERSION then Inl SE_Decrypt
      else if sv_cluster_id v \<noteq> cluster_id \<or> sv_network v \<noteq> network then Inl SE_WrongCluster
      else if sv_node_id v \<noteq> local_node_id \<or> sv_peer_id v \<noteq> local_peer_id \<or> sv_identity_key v \<noteq> local_identity_key
      then Inl SE_WrongNode
      else if (case expected_leader of None \<Rightarrow> False | Some leader \<Rightarrow> sv_from_node v \<noteq> leader) then Inl SE_WrongNode
      else (case envelope_signing_bytes X v of
         Inl e \<Rightarrow> Inl e
       | Inr b \<Rightarrow>
           (case verify_node_signature X verifier (sv_from_node v) b (sv_sig v) of
              Inl _ \<Rightarrow> Inl SE_BadSignature
            | Inr _ \<Rightarrow>
                (case x_unb64 X (sv_ephemeral_key v) of
                   None \<Rightarrow> Inl SE_InvalidKey
                 | Some eph_public \<Rightarrow>
                     if length eph_public \<noteq> X25519_KEY_LEN then Inl SE_InvalidKey
                     else
                       let binding = \<lparr>sb_network = sv_network v, sb_cluster_id = sv_cluster_id v, sb_node_id = sv_node_id v,
                             sb_peer_id = sv_peer_id v, sb_identity_key = sv_identity_key v, sb_ephemeral_key = sv_ephemeral_key v\<rparr>
                       in case seed_derive_key X (x_dh X (sx_secret local_key) eph_public) (sv_cluster_id v) binding of
                            Inl _ \<Rightarrow> Inl SE_Decrypt
                          | Inr key \<Rightarrow>
                              (case x_unb64 X (sv_aead_nonce v) of
                                 None \<Rightarrow> Inl SE_Decrypt
                               | Some nonce \<Rightarrow>
                                   if length nonce \<noteq> 12 then Inl SE_Decrypt
                                   else (case x_unb64 X (sv_ciphertext v) of
                                      None \<Rightarrow> Inl SE_Decrypt
                                    | Some ciphertext \<Rightarrow>
                                        (case x_open X key nonce [] ciphertext of
                                           None \<Rightarrow> Inl SE_Decrypt
                                         | Some plaintext \<Rightarrow>
                                             if length plaintext \<noteq> SEED_LEN then Inl SE_InvalidSeed else Inr plaintext)))))))"

section \<open>Receipts\<close>

record seed_ack =
  sa_v :: u8
  sa_from :: node_id
  sa_to :: node_id
  sa_ok :: bool
  sa_error :: string
  sa_sig :: string

definition ack_signing_bytes :: "ext \<Rightarrow> seed_ack \<Rightarrow> seed_error + bytes" where
  "ack_signing_bytes X a =
     (case x_cbor X (SMap [(''v'', sint8 (sa_v a)), (''from'', SInt (sa_from a)), (''to'', SInt (sa_to a)), (''ok'', SBool (sa_ok a)),
        (''error'', SStr (sa_error a))]) of
        None \<Rightarrow> Inl SE_Encode
      | Some c \<Rightarrow> Inr c)"

definition sign_ack :: "ext \<Rightarrow> identity_key \<Rightarrow> node_id \<Rightarrow> node_id \<Rightarrow> bool \<Rightarrow> string \<Rightarrow> seed_error + seed_ack" where
  "sign_ack X k src dst ok error =
     (let a = \<lparr>sa_v = SEED_ENVELOPE_VERSION, sa_from = src, sa_to = dst, sa_ok = ok, sa_error = error, sa_sig = []\<rparr>
      in case ack_signing_bytes X a of
           Inl e \<Rightarrow> Inl e
         | Inr b \<Rightarrow> Inr (a\<lparr>sa_sig := sign_b64 X k b\<rparr>))"

definition verify_ack :: "ext \<Rightarrow> rpc_verifier \<Rightarrow> node_id \<Rightarrow> seed_ack \<Rightarrow> seed_error + unit" where
  "verify_ack X verifier expected_from a =
     (if sa_v a \<noteq> SEED_ENVELOPE_VERSION \<or> sa_from a \<noteq> expected_from then Inl SE_BadSignature
      else (case ack_signing_bytes X a of
         Inl e \<Rightarrow> Inl e
       | Inr b \<Rightarrow>
           (case verify_node_signature X verifier (sa_from a) b (sa_sig a) of
              Inl _ \<Rightarrow> Inl SE_BadSignature
            | Inr _ \<Rightarrow> if sa_ok a then Inr () else Inl SE_Decrypt)))"

section \<open>Withdrawal\<close>

record seed_drop_request =
  sd_op :: string
  sd_v :: u8
  sd_cluster_id :: string
  sd_from_node :: node_id
  sd_node_id :: node_id
  sd_peer_id :: string
  sd_sig :: string

definition drop_signing_bytes :: "ext \<Rightarrow> seed_drop_request \<Rightarrow> seed_error + bytes" where
  "drop_signing_bytes X q =
     (case x_cbor X (SMap [(''v'', sint8 (sd_v q)), (''cluster_id'', SStr (sd_cluster_id q)), (''from_node'', SInt (sd_from_node q)),
        (''node_id'', SInt (sd_node_id q)), (''peer_id'', SStr (sd_peer_id q))]) of
        None \<Rightarrow> Inl SE_Encode
      | Some c \<Rightarrow> Inr c)"

definition sign_drop_request ::
  "ext \<Rightarrow> identity_key \<Rightarrow> node_id \<Rightarrow> string \<Rightarrow> node_id \<Rightarrow> raft_node \<Rightarrow> seed_error + seed_drop_request" where
  "sign_drop_request X k leader_node cluster_id target_node target =
     (let q = \<lparr>sd_op = SEED_DROP_OP, sd_v = SEED_ENVELOPE_VERSION, sd_cluster_id = cluster_id, sd_from_node = leader_node,
               sd_node_id = target_node, sd_peer_id = rn_peer_id target, sd_sig = []\<rparr>
      in case drop_signing_bytes X q of
           Inl e \<Rightarrow> Inl e
         | Inr b \<Rightarrow> Inr (q\<lparr>sd_sig := sign_b64 X k b\<rparr>))"

definition verify_drop_request ::
  "ext \<Rightarrow> rpc_verifier \<Rightarrow> node_id option \<Rightarrow> seed_drop_request \<Rightarrow> node_id \<Rightarrow> string \<Rightarrow> string \<Rightarrow> seed_error + unit" where
  "verify_drop_request X verifier expected_leader q local_node_id local_peer_id cluster_id =
     (if sd_op q \<noteq> SEED_DROP_OP \<or> sd_v q \<noteq> SEED_ENVELOPE_VERSION \<or> sd_cluster_id q \<noteq> cluster_id \<or> sd_node_id q \<noteq> local_node_id
         \<or> sd_peer_id q \<noteq> local_peer_id then Inl SE_WrongNode
      else if (case expected_leader of None \<Rightarrow> False | Some leader \<Rightarrow> sd_from_node q \<noteq> leader) then Inl SE_WrongNode
      else (case drop_signing_bytes X q of
         Inl e \<Rightarrow> Inl e
       | Inr b \<Rightarrow>
           (case verify_node_signature X verifier (sd_from_node q) b (sd_sig q) of
              Inl _ \<Rightarrow> Inl SE_BadSignature
            | Inr _ \<Rightarrow> Inr ())))"

definition write_seed_file :: "io \<Rightarrow> path \<Rightarrow> bytes \<Rightarrow> fs \<Rightarrow> (seed_error + unit) \<times> fs" where
  "write_seed_file e p seed s =
     (case atomic_write e p seed (Some 0x180) s of
        (Inl x, s') \<Rightarrow> (Inl (SE_Io x), s')
      | (Inr _, s') \<Rightarrow> (Inr (), s'))"

text \<open>\<open>fail\<close> is the error of \<open>remove_file\<close> on an existing file, if it fails.\<close>

definition remove_seed_file :: "io_error option \<Rightarrow> path \<Rightarrow> fs \<Rightarrow> (seed_error + unit) \<times> fs" where
  "remove_seed_file fail p s =
     (case fs_files s p of
        None \<Rightarrow> (Inr (), s)
      | Some _ \<Rightarrow>
          (case fail of
             None \<Rightarrow> (Inr (), s\<lparr>fs_files := (fs_files s)(p := None)\<rparr>)
           | Some Io_NotFound \<Rightarrow> (Inr (), s)
           | Some x \<Rightarrow> (Inl (SE_Io x), s)))"

section \<open>Lemmas\<close>

lemma own_signature_ok:
  assumes "sig_law X" "b64url_law X" "bt_get (rv_keys v) n = Some (x_ed_pub X (ik_seed k))"
  shows "verify_node_signature X v n m (sign_b64 X k m) = Inr ()"
  using assms by (simp add: verify_node_signature_def sig_bytes_ok_def sign_b64_def sig_law_def b64url_law_def)

lemma envelope_signing_ignores_sig: "envelope_signing_bytes X (v\<lparr>sv_sig := s\<rparr>) = envelope_signing_bytes X v"
  by (simp add: envelope_signing_bytes_def)

lemma cbor_case: "cbor_law X \<Longrightarrow> \<exists>b. (case x_cbor X v of None \<Rightarrow> Inl e | Some c \<Rightarrow> Inr c) = Inr b"
  by (erule cbor_total [where v = v]) simp

lemma signing_totals:
  assumes "cbor_law X"
  shows "\<exists>c. binding_bytes X b = Inr c" "\<exists>c. envelope_signing_bytes X v = Inr c" "\<exists>c. ack_signing_bytes X a = Inr c"
    "\<exists>c. drop_signing_bytes X q = Inr c"
  unfolding binding_bytes_def envelope_signing_bytes_def ack_signing_bytes_def drop_signing_bytes_def
  by (rule cbor_case [OF assms])+

lemma seed_derive_key_total:
  assumes "hkdf_law X" "cbor_law X"
  shows "\<exists>k. seed_derive_key X sh c b = Inr k"
proof -
  obtain d where d: "binding_bytes X b = Inr d"
    using signing_totals [OF assms(2)] by blast
  moreover obtain k where "x_hkdf X c sh (SEED_AAD_INFO @ [CHR 0x00] @ d) = Some k"
    using assms(1) unfolding hkdf_law_def by blast
  ultimately show ?thesis
    by (simp add: seed_derive_key_def)
qed

lemma open_seed_ok:
  assumes "open_seed X lk v n p ik c net leader e = Inr seed"
  shows "sv_cluster_id e = c \<and> sv_network e = net \<and> sv_node_id e = n \<and> sv_peer_id e = p \<and> sv_identity_key e = ik \<and>
    (\<forall>l. leader = Some l \<longrightarrow> sv_from_node e = l) \<and> length seed = 32 \<and>
    (\<exists>b. envelope_signing_bytes X e = Inr b \<and> verify_node_signature X v (sv_from_node e) b (sv_sig e) = Inr ())"
  using assms
  by (auto simp: open_seed_def Let_def split: if_splits sum.splits option.splits)

lemma sealed_seed_opens:
  assumes "sig_law X" "b64url_law X" "b64_law X" "cbor_law X" "hkdf_law X" "aead_law X" "dh_law X" "key_len_law X"
    and "length seed = 32" "length eph = 32" "length aead = 12" "exchange_from_bytes X xs = Inr lk"
    and "rn_x25519_key target = sx_public_b64 lk" "bt_get (rv_keys v) leader = Some (x_ed_pub X (ik_seed k))"
    and "expected = None \<or> expected = Some leader"
  shows "\<exists>e. seal_seed X eph aead k leader c net n target seed = Inr e \<and>
    open_seed X lk v n (rn_peer_id target) (rn_identity_key target) c net expected e = Inr seed"
proof -
  have lk: "length xs = 32" "sx_secret lk = xs" "sx_public_b64 lk = x_b64 X (x_dh_pub X xs)"
    using assms(12) by (auto simp: exchange_from_bytes_def split: if_splits)
  have pub: "x_unb64 X (rn_x25519_key target) = Some (x_dh_pub X xs)" "length (x_dh_pub X xs) = 32" "length (x_dh_pub X eph) = 32"
    using assms(3,8,10,13) lk by (simp_all add: b64_law_def key_len_law_def)
  define b where "b = \<lparr>sb_network = net, sb_cluster_id = c, sb_node_id = n, sb_peer_id = rn_peer_id target,
    sb_identity_key = rn_identity_key target, sb_ephemeral_key = x_b64 X (x_dh_pub X eph)\<rparr>"
  obtain key where key: "seed_derive_key X (x_dh X eph (x_dh_pub X xs)) c b = Inr key"
    using seed_derive_key_total [OF assms(5,4)] by blast
  obtain ct where ct: "x_seal X key aead [] seed = Some ct" "x_open X key aead [] ct = Some seed"
    using assms(6) unfolding aead_law_def by blast
  define e where "e = \<lparr>sv_v = SEED_ENVELOPE_VERSION, sv_from_node = leader, sv_cluster_id = c, sv_network = net, sv_node_id = n,
    sv_peer_id = rn_peer_id target, sv_identity_key = rn_identity_key target, sv_ephemeral_key = x_b64 X (x_dh_pub X eph),
    sv_aead_nonce = x_b64 X aead, sv_ciphertext = x_b64 X ct, sv_sig = []\<rparr>"
  obtain m where m: "envelope_signing_bytes X e = Inr m"
    using signing_totals [OF assms(4)] by blast
  define e' where "e' = e\<lparr>sv_sig := sign_b64 X k m\<rparr>"
  have "seal_seed X eph aead k leader c net n target seed = Inr e'"
    using pub key [unfolded b_def] ct(1) m [unfolded e_def]
    by (simp add: seal_seed_def Let_def e'_def e_def)
  moreover have "open_seed X lk v n (rn_peer_id target) (rn_identity_key target) c net expected e' = Inr seed"
  proof -
    have fields: "sv_v e' = SEED_ENVELOPE_VERSION" "sv_from_node e' = leader" "sv_cluster_id e' = c" "sv_network e' = net" "sv_node_id e' = n"
        "sv_peer_id e' = rn_peer_id target" "sv_identity_key e' = rn_identity_key target" "sv_ephemeral_key e' = x_b64 X (x_dh_pub X eph)"
        "sv_aead_nonce e' = x_b64 X aead" "sv_ciphertext e' = x_b64 X ct" "sv_sig e' = sign_b64 X k m"
      by (simp_all add: e'_def e_def)
    have "envelope_signing_bytes X e' = Inr m"
      using m by (simp add: e'_def envelope_signing_ignores_sig)
    moreover have "verify_node_signature X v leader m (sign_b64 X k m) = Inr ()"
      by (rule own_signature_ok [OF assms(1,2,14)])
    moreover have "x_dh X xs (x_dh_pub X eph) = x_dh X eph (x_dh_pub X xs)"
      using assms(7) by (simp add: dh_law_def)
    moreover have "x_unb64 X (x_b64 X y) = Some y" for y
      using assms(3) by (simp add: b64_law_def)
    ultimately show ?thesis
      using assms(9,11,15) pub(3) ct(2) key [unfolded b_def] lk(2)
      by (auto simp: open_seed_def fields Let_def)
  qed
  ultimately show ?thesis by blast
qed

section \<open>Properties\<close>

text \<open>
  C35: The seed arrives. What the leader seals for a voter's exchange key, node and identity opens at that voter, when it knows
  the leader's identity key, to exactly the seed; the receipt it signs is accepted by the leader.
\<close>

theorem seed_delivery_round_trip:
  assumes "sig_law X" "b64url_law X" "b64_law X" "cbor_law X" "hkdf_law X" "aead_law X" "dh_law X" "key_len_law X"
    and "length seed = 32" "length eph = 32" "length aead = 12" "exchange_from_bytes X xs = Inr lk"
    and "rn_x25519_key target = sx_public_b64 lk" "bt_get (rv_keys v) leader = Some (x_ed_pub X (ik_seed k))"
    and "expected = None \<or> expected = Some leader" "bt_get (rv_keys lv) n = Some (x_ed_pub X (ik_seed tk))"
  shows "(\<exists>e. seal_seed X eph aead k leader c net n target seed = Inr e \<and>
      open_seed X lk v n (rn_peer_id target) (rn_identity_key target) c net expected e = Inr seed) \<and>
    (\<exists>a. sign_ack X tk n leader True [] = Inr a \<and> verify_ack X lv n a = Inr ())"
proof
  show "\<exists>e. seal_seed X eph aead k leader c net n target seed = Inr e \<and>
      open_seed X lk v n (rn_peer_id target) (rn_identity_key target) c net expected e = Inr seed"
    by (rule sealed_seed_opens [OF assms(1-15)])
  define a where "a = \<lparr>sa_v = SEED_ENVELOPE_VERSION, sa_from = n, sa_to = leader, sa_ok = True, sa_error = [], sa_sig = []\<rparr>"
  obtain b where b: "ack_signing_bytes X a = Inr b"
    using signing_totals [OF assms(4)] by blast
  have "sign_ack X tk n leader True [] = Inr (a\<lparr>sa_sig := sign_b64 X tk b\<rparr>)"
    using b by (simp add: sign_ack_def Let_def flip: a_def)
  moreover have "ack_signing_bytes X (a\<lparr>sa_sig := s\<rparr>) = Inr b" for s
    using b by (simp add: ack_signing_bytes_def)
  then have "verify_ack X lv n (a\<lparr>sa_sig := sign_b64 X tk b\<rparr>) = Inr ()"
    using own_signature_ok [OF assms(1,2,16), of b] by (simp add: verify_ack_def) (simp add: a_def)
  ultimately show "\<exists>r. sign_ack X tk n leader True [] = Inr r \<and> verify_ack X lv n r = Inr ()"
    by blast
qed

definition demo_exchange :: seed_exchange_key where
  "demo_exchange = \<lparr>sx_secret = demo_sk, sx_public_b64 = x_b64 demo_ext (x_dh_pub demo_ext demo_sk)\<rparr>"

definition demo_target :: raft_node where
  "demo_target = \<lparr>rn_peer_id = ''p2'', rn_identity_key = ''id2'', rn_x25519_key = sx_public_b64 demo_exchange\<rparr>"

lemma demo_exchange_ok: "exchange_from_bytes demo_ext demo_sk = Inr demo_exchange" "length demo_sk = 32"
  by (simp_all add: exchange_from_bytes_def demo_exchange_def demo_sk_def)

theorem seed_delivery_round_trip_witness:
  "\<exists>e. seal_seed demo_ext demo_sk (replicate 12 (CHR ''a'')) demo_peer_key 1 ''c'' ''net'' 2 demo_target demo_sk = Inr e \<and>
     open_seed demo_ext demo_exchange demo_rpc 2 ''p2'' ''id2'' ''c'' ''net'' (Some 1) e = Inr demo_sk"
  using seed_delivery_round_trip [where X = demo_ext and seed = demo_sk and eph = demo_sk and aead = "replicate 12 (CHR ''a'')" and xs = demo_sk
      and lk = demo_exchange and target = demo_target and v = demo_rpc and leader = 1 and k = demo_peer_key and expected = "Some 1"
      and n = 2 and c = "''c''" and net = "''net''" and tk = demo_peer_key
      and lv = "\<lparr>rv_cluster_id = ''c'', rv_local_id = 1, rv_keys = bt_insert 2 (x_ed_pub demo_ext (ik_seed demo_peer_key)) bt_empty\<rparr>"]
    demo_exchange_ok demo_rpc_key
  by (simp add: demo_target_def)

text \<open>
  C19: A node takes or drops a seed only on a member's order. A seed is accepted, and a drop order obeyed, only when the message names this
  node, its PeerId and its cluster and its sender's registered identity key signed it; and when the leader is known, the sender
  is the leader.
\<close>

theorem seed_orders_authentic:
  assumes "open_seed X lk v n p ik c net leader e = Inr seed \<and> src = sv_from_node e \<or>
      verify_drop_request X v leader q n p c = Inr () \<and> src = sd_from_node q"
  shows "bt_get (rv_keys v) src \<noteq> None \<and> (\<forall>l. leader = Some l \<longrightarrow> src = l) \<and>
    (\<exists>m s. verify_node_signature X v src m s = Inr () \<and>
       (envelope_signing_bytes X e = Inr m \<and> s = sv_sig e \<and> sv_node_id e = n \<and> sv_peer_id e = p \<and> sv_cluster_id e = c \<and>
          sv_network e = net \<and> sv_identity_key e = ik \<and> length seed = 32 \<or>
        drop_signing_bytes X q = Inr m \<and> s = sd_sig q \<and> sd_node_id q = n \<and> sd_peer_id q = p \<and> sd_cluster_id q = c))"
proof -
  have known: "bt_get (rv_keys v) src \<noteq> None" if "verify_node_signature X v src m s = Inr ()" for m s
    using that by (auto simp: verify_node_signature_def split: option.splits)
  show ?thesis
    using assms
  proof
    assume "open_seed X lk v n p ik c net leader e = Inr seed \<and> src = sv_from_node e"
    then show ?thesis
      using open_seed_ok [of X lk v n p ik c net leader e seed] known by blast
  next
    assume d: "verify_drop_request X v leader q n p c = Inr () \<and> src = sd_from_node q"
    then obtain m where "drop_signing_bytes X q = Inr m" "verify_node_signature X v src m (sd_sig q) = Inr ()" "sd_node_id q = n"
        "sd_peer_id q = p" "sd_cluster_id q = c" "\<forall>l. leader = Some l \<longrightarrow> src = l"
      by (auto simp: verify_drop_request_def split: if_splits sum.splits option.splits)
    then show ?thesis
      using known by blast
  qed
qed

theorem seed_orders_authentic_witness:
  "\<exists>q. sign_drop_request demo_ext demo_peer_key 1 ''c'' 2 demo_target = Inr q \<and>
     verify_drop_request demo_ext demo_rpc (Some 1) q 2 ''p2'' ''c'' = Inr () \<and> bt_get (rv_keys demo_rpc) (sd_from_node q) \<noteq> None"
proof -
  define q where "q = \<lparr>sd_op = SEED_DROP_OP, sd_v = SEED_ENVELOPE_VERSION, sd_cluster_id = ''c'', sd_from_node = 1, sd_node_id = 2,
    sd_peer_id = ''p2'', sd_sig = []\<rparr>"
  obtain b where b: "drop_signing_bytes demo_ext q = Inr b"
    using signing_totals [OF demo_laws(5)] by blast
  moreover have "drop_signing_bytes demo_ext (q\<lparr>sd_sig := s\<rparr>) = drop_signing_bytes demo_ext q" for s
    by (simp add: drop_signing_bytes_def)
  ultimately have "verify_drop_request demo_ext demo_rpc (Some 1) (q\<lparr>sd_sig := sign_b64 demo_ext demo_peer_key b\<rparr>) 2 ''p2'' ''c'' = Inr ()"
    using own_signature_ok [OF demo_laws(3,2) demo_rpc_key, of b]
    by (simp add: verify_drop_request_def) (simp add: q_def)
  moreover have "sign_drop_request demo_ext demo_peer_key 1 ''c'' 2 demo_target = Inr (q\<lparr>sd_sig := sign_b64 demo_ext demo_peer_key b\<rparr>)"
    using b by (simp add: sign_drop_request_def demo_target_def Let_def q_def)
  ultimately show ?thesis
    using seed_orders_authentic [where X = demo_ext and v = demo_rpc and leader = "Some 1" and n = 2 and p = "''p2''" and c = "''c''"
      and q = "q\<lparr>sd_sig := sign_b64 demo_ext demo_peer_key b\<rparr>" and src = "sd_from_node (q\<lparr>sd_sig := sign_b64 demo_ext demo_peer_key b\<rparr>)"]
    by blast
qed

end
