(* ===== verification/Protocol.thy ===== *)
theory Protocol
  imports External
begin

text \<open>
  \<open>src/protocol.rs\<close>: the messages between the sidecar and its node, and their length-prefixed frames.
  A byte stream is the list of bytes not read yet. The CBOR decoder of messages is a parameter \<open>dec\<close>, with
  the law \<open>frame_codec\<close> that it reads back what ciborium wrote.
\<close>

section \<open>Messages\<close>

type_synonym uuid = "128 word"

abbreviation PROTOCOL_VERSION :: u32 where "PROTOCOL_VERSION \<equiv> 2"
definition MAX_FRAME :: nat where "MAX_FRAME = 16777216"

record sidecar_error =
  se_code :: string
  se_message :: string
  se_publish_error :: "string option"

definition sidecar_error_new :: "string \<Rightarrow> string \<Rightarrow> sidecar_error" where
  "sidecar_error_new code msg = \<lparr>se_code = code, se_message = msg, se_publish_error = None\<rparr>"

abbreviation with_publish_error :: "string \<Rightarrow> sidecar_error \<Rightarrow> sidecar_error" where
  "with_publish_error err e \<equiv> e\<lparr>se_publish_error := Some err\<rparr>"

datatype message =
    Hello u32
  | Request uuid string bytes
  | Reply uuid bool "bytes option" "sidecar_error option"
  | ListServices uuid
  | DiscoverProviders uuid string
  | QueryPublicIp uuid
  | Whoami uuid
  | ReconnectBootstrap uuid
  | ReannounceServices uuid
  | ReloadConfig uuid
  | RelayStatus uuid
  | PqStatus uuid
  | AuthStatus uuid
  | QueryKey uuid string
  | AddKey uuid string "bytes option" bool
  | ServiceRequest uuid string bytes
  | ServiceRequestTo uuid string string bytes

fun message_id :: "message \<Rightarrow> uuid option" where
  "message_id (Hello _) = None"
| "message_id (Request i _ _) = Some i"
| "message_id (Reply i _ _ _) = Some i"
| "message_id (ListServices i) = Some i"
| "message_id (DiscoverProviders i _) = Some i"
| "message_id (QueryPublicIp i) = Some i"
| "message_id (Whoami i) = Some i"
| "message_id (ReconnectBootstrap i) = Some i"
| "message_id (ReannounceServices i) = Some i"
| "message_id (ReloadConfig i) = Some i"
| "message_id (RelayStatus i) = Some i"
| "message_id (PqStatus i) = Some i"
| "message_id (AuthStatus i) = Some i"
| "message_id (QueryKey i _) = Some i"
| "message_id (AddKey i _ _ _) = Some i"
| "message_id (ServiceRequest i _ _) = Some i"
| "message_id (ServiceRequestTo i _ _ _) = Some i"

fun message_kind :: "message \<Rightarrow> string" where
  "message_kind (Hello _) = ''hello''"
| "message_kind (Request _ _ _) = ''request''"
| "message_kind (Reply _ _ _ _) = ''reply''"
| "message_kind (ListServices _) = ''list_services''"
| "message_kind (DiscoverProviders _ _) = ''discover_providers''"
| "message_kind (QueryPublicIp _) = ''query_public_ip''"
| "message_kind (Whoami _) = ''whoami''"
| "message_kind (ReconnectBootstrap _) = ''reconnect_bootstrap''"
| "message_kind (ReannounceServices _) = ''reannounce_services''"
| "message_kind (ReloadConfig _) = ''reload_config''"
| "message_kind (RelayStatus _) = ''relay_status''"
| "message_kind (PqStatus _) = ''pq_status''"
| "message_kind (AuthStatus _) = ''auth_status''"
| "message_kind (QueryKey _ _) = ''query_key''"
| "message_kind (AddKey _ _ _ _) = ''add_key''"
| "message_kind (ServiceRequest _ _ _) = ''service_request''"
| "message_kind (ServiceRequestTo _ _ _ _) = ''service_request_to''"

section \<open>Serialisation\<close>

text \<open>
  The internally tagged serde form: the field \<open>t\<close> first, then the fields of the variant; an absent option
  marked \<open>skip_serializing_if\<close> is left out. A \<open>Vec<u8>\<close> is a sequence of integers, a Uuid 16 bytes.
\<close>

definition vec_u8_sval :: "bytes \<Rightarrow> sval" where
  "vec_u8_sval b = SSeq (map (\<lambda>c. SInt (of_nat (of_char c))) b)"

definition uuid_sval :: "uuid \<Rightarrow> sval" where
  "uuid_sval i = SBytes (be_bytes 16 (unat i))"

definition opt_field :: "string \<Rightarrow> ('a \<Rightarrow> sval) \<Rightarrow> 'a option \<Rightarrow> (string \<times> sval) list" where
  "opt_field k f x = (case x of None \<Rightarrow> [] | Some y \<Rightarrow> [(k, f y)])"

definition sidecar_error_sval :: "sidecar_error \<Rightarrow> sval" where
  "sidecar_error_sval e = SMap ([(''code'', SStr (se_code e)), (''message'', SStr (se_message e))]
     @ opt_field ''publish_error'' SStr (se_publish_error e))"

fun message_fields :: "message \<Rightarrow> (string \<times> sval) list" where
  "message_fields (Hello v) = [(''version'', SInt (ucast v))]"
| "message_fields (Request i s p) = [(''id'', uuid_sval i), (''service'', SStr s), (''payload'', vec_u8_sval p)]"
| "message_fields (Reply i ok r e) = [(''id'', uuid_sval i), (''ok'', SBool ok)]
     @ opt_field ''result'' vec_u8_sval r @ opt_field ''error'' sidecar_error_sval e"
| "message_fields (DiscoverProviders i s) = [(''id'', uuid_sval i), (''service'', SStr s)]"
| "message_fields (QueryKey i k) = [(''id'', uuid_sval i), (''key'', SStr k)]"
| "message_fields (AddKey i k v p) = [(''id'', uuid_sval i), (''key'', SStr k)]
     @ opt_field ''value'' vec_u8_sval v @ [(''providing'', SBool p)]"
| "message_fields (ServiceRequest i s p) =
     [(''id'', uuid_sval i), (''service'', SStr s), (''payload'', vec_u8_sval p)]"
| "message_fields (ServiceRequestTo i s q p) =
     [(''id'', uuid_sval i), (''service'', SStr s), (''peer'', SStr q), (''payload'', vec_u8_sval p)]"
| "message_fields m = (case message_id m of Some i \<Rightarrow> [(''id'', uuid_sval i)] | None \<Rightarrow> [])"

definition message_sval :: "message \<Rightarrow> sval" where
  "message_sval m = SMap ((''t'', SStr (message_kind m)) # message_fields m)"

section \<open>Frames\<close>

datatype frame_error = FrameEof | FrameIo | TooLarge nat | FrameEncode | FrameDecode

definition encode_frame :: "ext \<Rightarrow> message \<Rightarrow> frame_error + bytes" where
  "encode_frame X m =
     (case x_cbor X (message_sval m) of
        None \<Rightarrow> Inl FrameEncode
      | Some body \<Rightarrow>
          if length body > MAX_FRAME then Inl (TooLarge (length body))
          else Inr (be_bytes 4 (unat (of_nat (length body) :: u32)) @ body))"

definition decode_frame :: "(bytes \<Rightarrow> message option) \<Rightarrow> bytes \<Rightarrow> frame_error + message" where
  "decode_frame dec body =
     (if length body > MAX_FRAME then Inl (TooLarge (length body))
      else (case dec body of None \<Rightarrow> Inl FrameDecode | Some m \<Rightarrow> Inr m))"

text \<open>The result and the bytes left in the stream; \<open>read_exact\<close> fails when the stream ends too early.\<close>

definition read_frame :: "(bytes \<Rightarrow> message option) \<Rightarrow> bytes \<Rightarrow> (frame_error + message) \<times> bytes" where
  "read_frame dec input =
     (if length input < 4 then (Inl FrameEof, [])
      else let len = of_be_bytes (take 4 input); rest = drop 4 input in
        if len > MAX_FRAME then (Inl (TooLarge len), rest)
        else if length rest < len then (Inl FrameEof, [])
        else (decode_frame dec (take len rest), drop len rest))"

text \<open>Writing: the outcome and the stream written so far; \<open>fail = Some k\<close> is an I/O error after \<open>k\<close> bytes.\<close>

definition write_frame :: "ext \<Rightarrow> nat option \<Rightarrow> message \<Rightarrow> bytes \<Rightarrow> (frame_error + unit) \<times> bytes" where
  "write_frame X fail m out =
     (case encode_frame X m of
        Inl e \<Rightarrow> (Inl e, out)
      | Inr b \<Rightarrow> (case fail of None \<Rightarrow> (Inr (), out @ b) | Some k \<Rightarrow> (Inl FrameIo, out @ take k b)))"

text \<open>All the messages the read loop gets before the error that ends it.\<close>

function read_frames :: "(bytes \<Rightarrow> message option) \<Rightarrow> bytes \<Rightarrow> message list \<times> frame_error" where
  "read_frames dec input =
     (case read_frame dec input of
        (Inl e, _) \<Rightarrow> ([], e)
      | (Inr m, rest) \<Rightarrow> (let (ms, e) = read_frames dec rest in (m # ms, e)))"
  by pat_completeness auto

lemma read_frame_shorter: "read_frame dec input = (Inr m, rest) \<Longrightarrow> length rest < length input"
  by (auto simp: read_frame_def Let_def split: if_splits)

termination read_frames
  by (relation "measure (\<lambda>(dec, input). length input)") (auto dest: read_frame_shorter [OF sym])

declare read_frames.simps [simp del]

section \<open>Round trip\<close>

definition frame_codec :: "ext \<Rightarrow> (bytes \<Rightarrow> message option) \<Rightarrow> message \<Rightarrow> bool" where
  "frame_codec X dec m \<longleftrightarrow> (\<forall>b. x_cbor X (message_sval m) = Some b \<longrightarrow> dec b = Some m)"

lemma frame_length_fits:
  assumes "n \<le> MAX_FRAME"
  shows "unat (of_nat n :: u32) = n"
  using assms by (simp add: unat_of_nat MAX_FRAME_def take_bit_nat_eq_self)

lemma read_written_frame:
  assumes "encode_frame X m = Inr b" "frame_codec X dec m"
  shows "read_frame dec (b @ rest) = (Inr m, rest)"
proof -
  obtain body where b: "x_cbor X (message_sval m) = Some body" "length body \<le> MAX_FRAME"
    "b = be_bytes 4 (length body) @ body"
    using assms(1) by (auto simp: encode_frame_def frame_length_fits split: option.splits if_splits)
  have "of_be_bytes (be_bytes 4 (length body)) = length body"
    using b(2) by (simp add: of_be_bytes_be_bytes MAX_FRAME_def)
  then show ?thesis
    using b assms(2) by (simp add: read_frame_def decode_frame_def frame_codec_def)
qed

fun write_frames :: "ext \<Rightarrow> message list \<Rightarrow> bytes \<Rightarrow> (frame_error + unit) \<times> bytes" where
  "write_frames X [] out = (Inr (), out)"
| "write_frames X (m # ms) out =
     (case write_frame X None m out of
        (Inl e, out') \<Rightarrow> (Inl e, out')
      | (Inr _, out') \<Rightarrow> write_frames X ms out')"

lemma read_frames_step:
  "read_frame dec input = (Inr m, rest) \<Longrightarrow>
   read_frames dec input = (m # fst (read_frames dec rest), snd (read_frames dec rest))"
  by (subst read_frames.simps) (simp add: case_prod_unfold Let_def)

lemma read_written_frames:
  "write_frames X ms out = (Inr (), b) \<Longrightarrow> \<forall>m \<in> set ms. frame_codec X dec m \<Longrightarrow>
   \<exists>c. b = out @ c \<and> (\<forall>rest. read_frames dec (c @ rest) = (ms @ fst (read_frames dec rest), snd (read_frames dec rest)))"
proof (induction ms arbitrary: out)
  case (Cons m ms)
  then obtain d where d: "encode_frame X m = Inr d" "write_frames X ms (out @ d) = (Inr (), b)"
    by (auto simp: write_frame_def split: sum.splits)
  obtain c where c: "b = (out @ d) @ c"
      "\<And>rest. read_frames dec (c @ rest) = (ms @ fst (read_frames dec rest), snd (read_frames dec rest))"
    using Cons.IH [OF d(2)] Cons.prems(2) by auto
  have "read_frames dec ((d @ c) @ rest) = ((m # ms) @ fst (read_frames dec rest), snd (read_frames dec rest))" for rest
    using read_frames_step [OF read_written_frame [OF d(1), of dec "c @ rest"]] Cons.prems(2) c(2) by simp
  then show ?case
    using c(1) by (intro exI [of _ "d @ c"]) simp
qed simp

text \<open>
  C30: Framing is lossless. Messages written one after the other as frames are read back as exactly those
  messages, in order, whatever follows them in the stream; a message is refused as too large exactly when
  its encoding is longer than 16 MiB, and a frame announcing more than that is refused before its body is
  read.
\<close>

theorem frames_round_trip:
  assumes "cbor_law X" "\<forall>m \<in> set ms. frame_codec X dec m" "write_frames X ms [] = (Inr (), b)"
  shows "read_frames dec (b @ rest) = (ms @ fst (read_frames dec rest), snd (read_frames dec rest)) \<and>
    ((\<exists>e. encode_frame X m = Inl e) \<longleftrightarrow> (\<exists>body. x_cbor X (message_sval m) = Some body \<and> MAX_FRAME < length body)) \<and>
    (MAX_FRAME < n \<and> n < 2 ^ 32 \<longrightarrow> read_frame dec (be_bytes 4 n @ rest) = (Inl (TooLarge n), rest))"
proof (intro conjI)
  show "read_frames dec (b @ rest) = (ms @ fst (read_frames dec rest), snd (read_frames dec rest))"
    using read_written_frames [OF assms(3,2)] by auto
  show "(\<exists>e. encode_frame X m = Inl e) \<longleftrightarrow> (\<exists>body. x_cbor X (message_sval m) = Some body \<and> MAX_FRAME < length body)"
    using assms(1) by (auto simp: encode_frame_def cbor_law_def split: option.splits)
  show "MAX_FRAME < n \<and> n < 2 ^ 32 \<longrightarrow> read_frame dec (be_bytes 4 n @ rest) = (Inl (TooLarge n), rest)"
    by (simp add: read_frame_def of_be_bytes_be_bytes)
qed

definition demo_dec :: "bytes \<Rightarrow> message option" where
  "demo_dec b = find (\<lambda>m. x_cbor demo_ext (message_sval m) = Some b) [Hello 2, Whoami 7]"

lemma demo_frames: "\<exists>b. write_frames demo_ext [Hello 2, Whoami 7] [] = (Inr (), b)"
  by (simp add: write_frame_def encode_frame_def message_sval_def demo_ext_def uuid_sval_def enc_str_def enc_len_def
      MAX_FRAME_def)

lemma demo_codec: "\<forall>m \<in> set [Hello 2, Whoami 7]. frame_codec demo_ext demo_dec m"
  by (auto simp: frame_codec_def demo_dec_def message_sval_def demo_ext_def enc_sval_inject enc_str_prefix)

theorem frames_round_trip_witness:
  "\<exists>b. write_frames demo_ext [Hello 2, Whoami 7] [] = (Inr (), b) \<and> read_frames demo_dec b = ([Hello 2, Whoami 7], FrameEof)"
proof -
  obtain b where b: "write_frames demo_ext [Hello 2, Whoami 7] [] = (Inr (), b)"
    using demo_frames by blast
  moreover have "read_frames demo_dec [] = ([], FrameEof)"
    by (simp add: read_frames.simps read_frame_def)
  ultimately show ?thesis
    using frames_round_trip [OF demo_laws(5) demo_codec b, of "[]"] by auto
qed

end
