(* ===== verification/Connection.thy ===== *)
theory Connection
  imports Protocol
begin

text \<open>
  \<open>src/connection.rs\<close>: the connection to a node. A control call puts a one-shot sender into the pending table
  under a fresh id, writes its message and waits; the read loop answers requests and hands each reply to the
  sender of its id. Every step that holds the table's lock is one event of the model, in any interleaving.
\<close>

section \<open>Requests and the handshake\<close>

abbreviation MSG_NOT_READY :: string where
  "MSG_NOT_READY \<equiv> [CHR 0xE8, CHR 0xBE, CHR 0xB9, CHR 0xE8, CHR 0xBD, CHR 0xA6, CHR 0xE5, CHR 0xB0, CHR 0x9A, CHR 0xE6, CHR 0x9C, CHR 0xAA, CHR 0xE5, CHR 0xB0, CHR 0xB1, CHR 0xE7, CHR 0xBB, CHR 0xAA]"

text \<open>The reply to a \<open>Request\<close>: the result of the service handler, or \<open>joining\<close> when there is no context.\<close>

definition request_reply :: "uuid \<Rightarrow> (sidecar_error + bytes) option \<Rightarrow> message" where
  "request_reply i handled =
     (case handled of
        Some (Inr result) \<Rightarrow> Reply i True (Some result) None
      | Some (Inl e) \<Rightarrow> Reply i False None (Some e)
      | None \<Rightarrow> Reply i False None (Some (sidecar_error_new ''joining'' MSG_NOT_READY)))"

definition reply_outcome :: "bool \<Rightarrow> bytes option \<Rightarrow> sidecar_error option \<Rightarrow> sidecar_error + bytes" where
  "reply_outcome ok result error =
     (if ok then Inr (case result of None \<Rightarrow> [] | Some r \<Rightarrow> r)
      else Inl (case error of None \<Rightarrow> sidecar_error_new ''backend_error'' ''unknown error'' | Some e \<Rightarrow> e))"

datatype handshake_error = VersionMismatch u32 | ExpectedHello string | HandshakeFrame frame_error

definition handshake ::
  "ext \<Rightarrow> (bytes \<Rightarrow> message option) \<Rightarrow> nat option \<Rightarrow> bytes \<Rightarrow> bytes \<Rightarrow> (handshake_error + unit) \<times> bytes \<times> bytes" where
  "handshake X dec fail input out =
     (case read_frame dec input of
        (Inr (Hello v), rest) \<Rightarrow>
          if v = PROTOCOL_VERSION then
            (case write_frame X fail (Hello PROTOCOL_VERSION) out of
               (Inl e, out') \<Rightarrow> (Inl (HandshakeFrame e), rest, out')
             | (Inr _, out') \<Rightarrow> (Inr (), rest, out'))
          else (Inl (VersionMismatch v), rest, out)
      | (Inr other, rest) \<Rightarrow> (Inl (ExpectedHello (message_kind other)), rest, out)
      | (Inl e, rest) \<Rightarrow> (Inl (HandshakeFrame e), rest, out))"

section \<open>Control calls\<close>

text \<open>The one-shot channel of a call: its sender still held, dropped, or used.\<close>

datatype slot = SlotOpen | SlotClosed | SlotFull "sidecar_error + bytes"

datatype phase = Writing | Waiting | Returned "sidecar_error + bytes"

record call =
  ca_id :: uuid
  ca_slot :: slot
  ca_phase :: phase

text \<open>The calls made so far, in order, and the pending table from ids to calls.\<close>

record conn =
  cn_calls :: "call list"
  cn_pending :: "uuid \<rightharpoonup> nat"

definition conn_new :: conn where
  "conn_new = \<lparr>cn_calls = [], cn_pending = Map.empty\<rparr>"

datatype conn_event =
    Start uuid
  | Written nat
  | WriteFailed nat string
  | ReplyRead uuid bool "bytes option" "sidecar_error option"
  | Wake nat
  | TimedOut nat

definition upd_call :: "nat \<Rightarrow> (call \<Rightarrow> call) \<Rightarrow> conn \<Rightarrow> conn" where
  "upd_call w f c = c\<lparr>cn_calls := (cn_calls c)[w := f (cn_calls c ! w)]\<rparr>"

text \<open>Dropping the sender held under an id closes the channel of that call.\<close>

definition drop_sender :: "uuid \<Rightarrow> conn \<Rightarrow> conn" where
  "drop_sender i c =
     (case cn_pending c i of
        None \<Rightarrow> c
      | Some w \<Rightarrow> (upd_call w (ca_slot_update (\<lambda>_. SlotClosed)) c)\<lparr>cn_pending := (cn_pending c)(i := None)\<rparr>)"

definition phase_of :: "conn \<Rightarrow> nat \<Rightarrow> phase option" where
  "phase_of c w = (if w < length (cn_calls c) then Some (ca_phase (cn_calls c ! w)) else None)"

definition return_call :: "nat \<Rightarrow> (sidecar_error + bytes) \<Rightarrow> conn \<Rightarrow> conn" where
  "return_call w r = upd_call w (ca_phase_update (\<lambda>_. Returned r))"

text \<open>One event; \<open>None\<close> when it cannot happen in the state.\<close>

fun conn_step :: "conn_event \<Rightarrow> conn \<Rightarrow> conn option" where
  "conn_step (Start i) c =
     (let d = drop_sender i c in
      Some (d\<lparr>cn_calls := cn_calls d @ [\<lparr>ca_id = i, ca_slot = SlotOpen, ca_phase = Writing\<rparr>],
              cn_pending := (cn_pending d)(i \<mapsto> length (cn_calls d))\<rparr>))"
| "conn_step (Written w) c =
     (if phase_of c w = Some Writing then Some (upd_call w (ca_phase_update (\<lambda>_. Waiting)) c) else None)"
| "conn_step (WriteFailed w e) c =
     (if phase_of c w = Some Writing
      then Some (return_call w (Inl (sidecar_error_new ''io_error'' e)) (drop_sender (ca_id (cn_calls c ! w)) c))
      else None)"
| "conn_step (ReplyRead i ok result error) c =
     (case cn_pending c i of
        None \<Rightarrow> Some c
      | Some w \<Rightarrow> Some ((upd_call w (ca_slot_update (\<lambda>_. SlotFull (reply_outcome ok result error))) c)
                    \<lparr>cn_pending := (cn_pending c)(i := None)\<rparr>))"
| "conn_step (Wake w) c =
     (if phase_of c w = Some Waiting then
        (case ca_slot (cn_calls c ! w) of
           SlotOpen \<Rightarrow> None
         | SlotFull r \<Rightarrow> Some (return_call w r c)
         | SlotClosed \<Rightarrow> Some (return_call w (Inl (sidecar_error_new ''node_gone'' ''response channel closed'')) c))
      else None)"
| "conn_step (TimedOut w) c =
     (if phase_of c w = Some Waiting \<and> ca_slot (cn_calls c ! w) = SlotOpen
      then Some (return_call w (Inl (sidecar_error_new ''timeout'' ''control command timed out''))
                  (drop_sender (ca_id (cn_calls c ! w)) c))
      else None)"

fun conn_run :: "conn_event list \<Rightarrow> conn \<Rightarrow> conn option" where
  "conn_run [] c = Some c"
| "conn_run (e # es) c = (case conn_step e c of None \<Rightarrow> None | Some c' \<Rightarrow> conn_run es c')"

section \<open>Every call gets the reply to its own id\<close>

text \<open>Why a call returned what it returned, in terms of the events that happened.\<close>

definition return_reason :: "conn_event set \<Rightarrow> nat \<Rightarrow> uuid \<Rightarrow> (sidecar_error + bytes) \<Rightarrow> bool" where
  "return_reason H w i r \<longleftrightarrow>
     (\<exists>ok res err. ReplyRead i ok res err \<in> H \<and> r = reply_outcome ok res err) \<or>
     (\<exists>m. WriteFailed w m \<in> H \<and> r = Inl (sidecar_error_new ''io_error'' m)) \<or>
     (TimedOut w \<in> H \<and> r = Inl (sidecar_error_new ''timeout'' ''control command timed out''))"

definition call_inv :: "conn_event set \<Rightarrow> (uuid \<rightharpoonup> nat) \<Rightarrow> nat \<Rightarrow> call \<Rightarrow> bool" where
  "call_inv H p w k \<longleftrightarrow>
     (ca_slot k = SlotOpen \<longleftrightarrow> p (ca_id k) = Some w) \<and>
     (ca_slot k = SlotOpen \<longrightarrow> (\<forall>r. ca_phase k \<noteq> Returned r)) \<and>
     (ca_slot k = SlotClosed \<longrightarrow> (\<exists>r. ca_phase k = Returned r)) \<and>
     (\<forall>r. ca_slot k = SlotFull r \<longrightarrow> (\<exists>ok res err. ReplyRead (ca_id k) ok res err \<in> H \<and> r = reply_outcome ok res err)) \<and>
     (\<forall>r. ca_phase k = Returned r \<longrightarrow> return_reason H w (ca_id k) r)"

definition conn_inv :: "conn_event set \<Rightarrow> conn \<Rightarrow> bool" where
  "conn_inv H c \<longleftrightarrow> distinct (map ca_id (cn_calls c)) \<and>
     (\<forall>i w. cn_pending c i = Some w \<longrightarrow> w < length (cn_calls c) \<and> ca_id (cn_calls c ! w) = i) \<and>
     (\<forall>w < length (cn_calls c). call_inv H (cn_pending c) w (cn_calls c ! w))"

lemma conn_inv_new: "conn_inv {} conn_new"
  by (simp add: conn_inv_def conn_new_def)

lemma call_inv_mono: "call_inv H p w k \<Longrightarrow> H \<subseteq> H' \<Longrightarrow> call_inv H' p w k"
  unfolding call_inv_def return_reason_def by (meson subsetD)

lemma conn_inv_mono: "conn_inv H c \<Longrightarrow> H \<subseteq> H' \<Longrightarrow> conn_inv H' c"
  by (auto simp: conn_inv_def intro: call_inv_mono)

lemma conn_inv_same:
  assumes "conn_inv H c" "v < length (cn_calls c)" "w < length (cn_calls c)"
    and "ca_id (cn_calls c ! v) = ca_id (cn_calls c ! w)"
  shows "v = w"
  using assms nth_eq_iff_index_eq [of "map ca_id (cn_calls c)" v w] by (simp add: conn_inv_def)

lemma conn_inv_table:
  assumes "conn_inv H c" "cn_pending c i = Some w"
  shows "w < length (cn_calls c)" "ca_id (cn_calls c ! w) = i"
  using assms by (simp_all add: conn_inv_def)

lemma conn_inv_call: "conn_inv H c \<Longrightarrow> w < length (cn_calls c) \<Longrightarrow> call_inv H (cn_pending c) w (cn_calls c ! w)"
  by (simp add: conn_inv_def)

lemma conn_inv_absent:
  assumes "conn_inv H c" "w < length (cn_calls c)" "cn_pending c (ca_id (cn_calls c ! w)) \<noteq> Some w"
  shows "cn_pending c (ca_id (cn_calls c ! w)) = None"
proof (rule ccontr)
  assume "\<not> ?thesis"
  then obtain v where v: "cn_pending c (ca_id (cn_calls c ! w)) = Some v" by blast
  then have "v = w"
    using conn_inv_same [OF assms(1) conn_inv_table(1) assms(2)] conn_inv_table(2) assms(1) by blast
  with v assms(3) show False by simp
qed

text \<open>A step that changes one call, and takes its id out of the table or leaves the table alone.\<close>

lemma conn_inv_update:
  assumes inv: "conn_inv H c" and w: "w < length (cn_calls c)" and k: "ca_id k = ca_id (cn_calls c ! w)"
    and p: "p = cn_pending c \<or> p = (cn_pending c)(ca_id k := None)" and ok: "call_inv H p w k"
  shows "conn_inv H (c\<lparr>cn_calls := (cn_calls c)[w := k], cn_pending := p\<rparr>)"
proof -
  have ids: "map ca_id ((cn_calls c)[w := k]) = map ca_id (cn_calls c)"
    using k w by (simp add: map_update list_update_same_conv)
  have pending: "v < length (cn_calls c) \<and> ca_id ((cn_calls c)[w := k] ! v) = i" if "p i = Some v" for i v
  proof -
    have "cn_pending c i = Some v"
      using that p by (auto split: if_splits)
    then show ?thesis
      using k conn_inv_table [OF inv] by (cases "v = w") simp_all
  qed
  have calls: "call_inv H p v ((cn_calls c)[w := k] ! v)" if v: "v < length (cn_calls c)" for v
  proof (cases "v = w")
    case False
    then have "ca_id (cn_calls c ! v) \<noteq> ca_id k"
      using conn_inv_same [OF inv v w] k by auto
    then have "p (ca_id (cn_calls c ! v)) = cn_pending c (ca_id (cn_calls c ! v))"
      using p by auto
    then show ?thesis
      using False conn_inv_call [OF inv v] by (simp add: call_inv_def)
  qed (use ok w in simp)
  show ?thesis
    using inv ids pending calls by (simp add: conn_inv_def)
qed

lemma conn_inv_update_calls:
  assumes "conn_inv H c" "w < length (cn_calls c)" "ca_id k = ca_id (cn_calls c ! w)" "call_inv H (cn_pending c) w k"
  shows "conn_inv H (c\<lparr>cn_calls := (cn_calls c)[w := k]\<rparr>)"
  using conn_inv_update [OF assms(1,2,3) _ assms(4)] by (simp add: conn_inv_def)

lemma phase_of_Some: "phase_of c w = Some ph \<longleftrightarrow> w < length (cn_calls c) \<and> ca_phase (cn_calls c ! w) = ph"
  by (auto simp: phase_of_def)

lemma drop_sender_own:
  assumes "conn_inv H c" "w < length (cn_calls c)"
  shows "drop_sender (ca_id (cn_calls c ! w)) c =
    (if ca_slot (cn_calls c ! w) = SlotOpen
     then c\<lparr>cn_calls := (cn_calls c)[w := (cn_calls c ! w)\<lparr>ca_slot := SlotClosed\<rparr>],
            cn_pending := (cn_pending c)(ca_id (cn_calls c ! w) := None)\<rparr>
     else c)"
  using conn_inv_call [OF assms] conn_inv_absent [OF assms]
  by (cases "ca_slot (cn_calls c ! w) = SlotOpen") (auto simp: drop_sender_def upd_call_def call_inv_def)

lemma conn_inv_start:
  assumes inv: "conn_inv H c" and i: "i \<notin> ca_id ` set (cn_calls c)" and step: "conn_step (Start i) c = Some c'"
  shows "conn_inv H c'"
proof -
  have p: "cn_pending c i = None"
    using conn_inv_table [OF inv, of i] i by (cases "cn_pending c i") auto
  let ?k = "\<lparr>ca_id = i, ca_slot = SlotOpen, ca_phase = Writing\<rparr>" and ?n = "length (cn_calls c)"
  have c': "c' = c\<lparr>cn_calls := cn_calls c @ [?k], cn_pending := (cn_pending c)(i \<mapsto> ?n)\<rparr>"
    using step p by (simp add: drop_sender_def)
  have calls: "call_inv H ((cn_pending c)(i \<mapsto> ?n)) w ((cn_calls c @ [?k]) ! w)" if w: "w < Suc ?n" for w
  proof (cases "w = ?n")
    case False
    with w have "w < ?n" by simp
    moreover from this have "ca_id (cn_calls c ! w) \<noteq> i"
      using i nth_mem by blast
    ultimately show ?thesis
      using conn_inv_call [OF inv, of w] by (simp add: call_inv_def nth_append)
  qed (simp add: call_inv_def)
  have "w < Suc ?n \<and> ca_id ((cn_calls c @ [?k]) ! w) = j" if "((cn_pending c)(i \<mapsto> ?n)) j = Some w" for j w
    using that conn_inv_table [OF inv, of j w] by (auto simp: nth_append split: if_splits)
  moreover have "distinct (map ca_id (cn_calls c @ [?k]))"
    using inv i by (simp add: conn_inv_def)
  ultimately show ?thesis
    using calls unfolding c' conn_inv_def by simp
qed

lemma conn_inv_reply:
  assumes inv: "conn_inv H c" and step: "conn_step (ReplyRead i ok res err) c = Some c'" and h: "ReplyRead i ok res err \<in> H"
  shows "conn_inv H c'"
proof (cases "cn_pending c i")
  case (Some w)
  note w = conn_inv_table [OF inv Some]
  let ?k = "(cn_calls c ! w)\<lparr>ca_slot := SlotFull (reply_outcome ok res err)\<rparr>"
  have "call_inv H ((cn_pending c)(i := None)) w ?k"
    using conn_inv_call [OF inv w(1)] w(2) h Some by (auto simp: call_inv_def)
  then show ?thesis
    using conn_inv_update [OF inv w(1), of ?k "(cn_pending c)(i := None)"] step Some w(2) by (simp add: upd_call_def)
qed (use inv step in simp)

lemma conn_inv_return_dropped:
  assumes inv: "conn_inv H c" and w: "w < length (cn_calls c)" and r: "return_reason H w (ca_id (cn_calls c ! w)) r"
  shows "conn_inv H (return_call w r (drop_sender (ca_id (cn_calls c ! w)) c))"
proof (cases "ca_slot (cn_calls c ! w) = SlotOpen")
  case True
  let ?k = "(cn_calls c ! w)\<lparr>ca_slot := SlotClosed, ca_phase := Returned r\<rparr>"
  have "call_inv H ((cn_pending c)(ca_id ?k := None)) w ?k"
    using r by (simp add: call_inv_def)
  then show ?thesis
    using conn_inv_update [OF inv w, of ?k "(cn_pending c)(ca_id ?k := None)"] True w
    by (simp add: drop_sender_own [OF inv w] return_call_def upd_call_def conn_inv_def)
next
  case False
  let ?k = "(cn_calls c ! w)\<lparr>ca_phase := Returned r\<rparr>"
  have "call_inv H (cn_pending c) w ?k"
    using conn_inv_call [OF inv w] r False by (auto simp: call_inv_def)
  then show ?thesis
    using conn_inv_update_calls [OF inv w, of ?k] False
    by (simp add: drop_sender_own [OF inv w] return_call_def upd_call_def)
qed

lemma conn_inv_written:
  assumes inv: "conn_inv H c" and step: "conn_step (Written w) c = Some c'"
  shows "conn_inv H c'"
proof -
  have w: "w < length (cn_calls c)" "ca_phase (cn_calls c ! w) = Writing"
    using step by (auto simp: phase_of_Some split: if_splits)
  let ?k = "(cn_calls c ! w)\<lparr>ca_phase := Waiting\<rparr>"
  have "call_inv H (cn_pending c) w ?k"
    using conn_inv_call [OF inv w(1)] w(2) by (auto simp: call_inv_def)
  then show ?thesis
    using conn_inv_update_calls [OF inv w(1), of ?k] step by (simp add: upd_call_def split: if_splits)
qed

lemma conn_inv_wake:
  assumes inv: "conn_inv H c" and step: "conn_step (Wake w) c = Some c'"
  shows "conn_inv H c'"
proof -
  have w: "w < length (cn_calls c)" "ca_phase (cn_calls c ! w) = Waiting"
    using step by (auto simp: phase_of_Some split: if_splits)
  then obtain r where r: "ca_slot (cn_calls c ! w) = SlotFull r" "c' = return_call w r c"
    using step conn_inv_call [OF inv w(1)] by (auto simp: phase_of_Some call_inv_def split: slot.splits)
  let ?k = "(cn_calls c ! w)\<lparr>ca_phase := Returned r\<rparr>"
  have "call_inv H (cn_pending c) w ?k"
    using conn_inv_call [OF inv w(1)] r(1) by (auto simp: call_inv_def return_reason_def)
  then show ?thesis
    using conn_inv_update_calls [OF inv w(1), of ?k] r(2) by (simp add: return_call_def upd_call_def)
qed

lemma conn_inv_step:
  assumes "conn_inv H c" "conn_step e c = Some c'" "\<forall>i. e = Start i \<longrightarrow> i \<notin> ca_id ` set (cn_calls c)"
  shows "conn_inv (insert e H) c'"
proof -
  have inv: "conn_inv (insert e H) c"
    using assms(1) by (rule conn_inv_mono) blast
  show ?thesis
  proof (cases e)
    case (WriteFailed w m)
    then show ?thesis
      using assms(2) conn_inv_return_dropped [OF inv, of w]
      by (auto simp: phase_of_Some return_reason_def split: if_splits)
  next
    case (TimedOut w)
    then show ?thesis
      using assms(2) conn_inv_return_dropped [OF inv, of w]
      by (auto simp: phase_of_Some return_reason_def split: if_splits)
  next
    case (Start i)
    then show ?thesis
      using assms(2,3) by (intro conn_inv_start [OF inv, of i]) simp_all
  next
    case (Written w)
    then show ?thesis
      using assms(2) by (intro conn_inv_written [OF inv, of w]) simp
  next
    case (ReplyRead i ok res err)
    then show ?thesis
      using assms(2) by (intro conn_inv_reply [OF inv, of i ok res err]) simp_all
  next
    case (Wake w)
    then show ?thesis
      using assms(2) by (intro conn_inv_wake [OF inv, of w]) simp
  qed
qed

fun starts :: "conn_event list \<Rightarrow> uuid list" where
  "starts [] = []"
| "starts (Start i # es) = i # starts es"
| "starts (_ # es) = starts es"

lemma ids_upd_call [simp]: "(\<And>k. ca_id (f k) = ca_id k) \<Longrightarrow> map ca_id (cn_calls (upd_call w f c)) = map ca_id (cn_calls c)"
  by (cases "w < length (cn_calls c)") (simp_all add: upd_call_def map_update list_update_same_conv list_update_beyond)

lemma ids_drop_sender [simp]: "map ca_id (cn_calls (drop_sender i c)) = map ca_id (cn_calls c)"
  by (simp add: drop_sender_def split: option.splits)

lemma conn_step_ids: "conn_step e c = Some c' \<Longrightarrow> map ca_id (cn_calls c') = map ca_id (cn_calls c) @ starts [e]"
  by (cases e) (auto simp: Let_def return_call_def split: if_splits option.splits slot.splits)

lemma starts_Cons: "starts (e # es) = starts [e] @ starts es"
  by (cases e) simp_all

lemma conn_inv_run:
  "conn_inv H c \<Longrightarrow> conn_run es c = Some c' \<Longrightarrow> distinct (map ca_id (cn_calls c) @ starts es) \<Longrightarrow>
   conn_inv (H \<union> set es) c' \<and> map ca_id (cn_calls c') = map ca_id (cn_calls c) @ starts es"
proof (induction es arbitrary: H c)
  case (Cons e es)
  from Cons.prems(2) obtain d where d: "conn_step e c = Some d" "conn_run es d = Some c'"
    by (auto split: option.splits)
  have "\<forall>i. e = Start i \<longrightarrow> i \<notin> ca_id ` set (cn_calls c)"
    using Cons.prems(3) by auto
  then have "conn_inv (insert e H) d"
    by (rule conn_inv_step [OF Cons.prems(1) d(1)])
  then show ?case
    using Cons.IH [OF _ d(2), of "insert e H"] Cons.prems(3) conn_step_ids [OF d(1)] starts_Cons [of e es] by simp
qed simp

text \<open>
  C17: Control calls and their replies are matched. In any interleaving of calls, replies, wake-ups, write
  errors and timeouts, where no two calls drew the same id, a call that returned got the outcome of a reply
  read with its own id, its own write error or its own timeout; the pending table holds exactly the calls
  whose reply is still awaited, so a finished call leaves nothing behind, and a call whose reply has been
  read returns it as soon as it is woken.
\<close>

theorem calls_get_their_replies:
  assumes "conn_run es conn_new = Some c" "distinct (starts es)" "w < length (cn_calls c)"
  defines "k \<equiv> cn_calls c ! w"
  shows "ca_id k = starts es ! w \<and>
    (\<forall>r. ca_phase k = Returned r \<longrightarrow> return_reason (set es) w (ca_id k) r) \<and>
    (cn_pending c (ca_id k) = Some w \<longleftrightarrow> ca_slot k = SlotOpen) \<and>
    (cn_pending c (ca_id k) \<noteq> None \<longrightarrow> (\<forall>r. ca_phase k \<noteq> Returned r)) \<and>
    (\<forall>r. ca_slot k = SlotFull r \<and> ca_phase k = Waiting \<longrightarrow>
       (\<exists>d. conn_step (Wake w) c = Some d \<and> ca_phase (cn_calls d ! w) = Returned r))"
proof -
  have inv: "conn_inv (set es) c" and ids: "map ca_id (cn_calls c) = starts es"
    using conn_inv_run [OF conn_inv_new assms(1)] assms(2) by (simp_all add: conn_new_def)
  have "ca_id k = starts es ! w"
    using ids assms(3) nth_map [of w "cn_calls c" ca_id] by (simp add: k_def)
  moreover have "\<exists>d. conn_step (Wake w) c = Some d \<and> ca_phase (cn_calls d ! w) = Returned r"
    if "ca_slot k = SlotFull r \<and> ca_phase k = Waiting" for r
    using that assms(3) by (simp add: phase_of_def k_def return_call_def upd_call_def)
  moreover have "call_inv (set es) (cn_pending c) w k" "cn_pending c (ca_id k) \<noteq> None \<longrightarrow> cn_pending c (ca_id k) = Some w"
    unfolding k_def using conn_inv_call [OF inv assms(3)] conn_inv_absent [OF inv assms(3)] by metis+
  ultimately show ?thesis
    by (simp add: call_inv_def)
qed

theorem calls_get_their_replies_witness:
  "\<exists>c. conn_run [Start 1, Start 2, Written 0, Written 1, ReplyRead 2 True (Some ''b'') None,
       ReplyRead 1 True (Some ''a'') None, Wake 0, ReplyRead 1 True (Some ''z'') None, Wake 1] conn_new = Some c \<and>
     ca_phase (cn_calls c ! 0) = Returned (Inr ''a'') \<and>
     return_reason (set [Start 1, Start 2, Written 0, Written 1, ReplyRead 2 True (Some ''b'') None,
       ReplyRead 1 True (Some ''a'') None, Wake 0, ReplyRead 1 True (Some ''z'') None, Wake 1]) 0 1 (Inr ''a'')"
  using calls_get_their_replies [where w = 0 and es = "[Start 1, Start 2, Written 0, Written 1,
       ReplyRead 2 True (Some ''b'') None, ReplyRead 1 True (Some ''a'') None, Wake 0,
       ReplyRead 1 True (Some ''z'') None, Wake 1]"]
  by (simp add: conn_new_def drop_sender_def upd_call_def phase_of_def return_call_def reply_outcome_def)

section \<open>The client handle\<close>

text \<open>
  What the rest of the sidecar uses of a connection: the answers of the node to discovery, whoami, requests
  to a peer and DHT reads and writes. They are an argument of the code that calls them.
\<close>

record node_client =
  nc_discover_providers :: "string \<Rightarrow> sidecar_error + string list"
  nc_whoami :: "sidecar_error + string"
  nc_service_request_to :: "string \<Rightarrow> string \<Rightarrow> bytes \<Rightarrow> sidecar_error + bytes"
  nc_query_key :: "string \<Rightarrow> sidecar_error + bytes option"

end
