(* ===== verification/Replicate.thy ===== *)
theory Replicate
  imports Store_Merge Admin Connection "HOL-Library.Multiset"
begin

text \<open>
  \<open>src/replicate.rs\<close>: authenticated replication of changes and anti-entropy between sidecars that share the
  management password. One nonce memory serves change messages and synchronisation requests; the verifier
  of both meets the contract \<open>fresh_auth\<close> (interpretation \<open>rep_auth_fresh\<close>). Calls to the node (discovery,
  whoami, requests to a peer), the random numbers and the clock are arguments.
\<close>

section \<open>Data\<close>

abbreviation REP_SALT :: bytes where "REP_SALT \<equiv> ''nexusauth/replicate''"
abbreviation REP_MAX_TS_SKEW_SECS :: u64 where "REP_MAX_TS_SKEW_SECS \<equiv> 300"
definition OP_REPLICATE :: string where "OP_REPLICATE = ''replicate''"
definition OP_SYNC_REQUEST :: string where "OP_SYNC_REQUEST = ''sync_request''"
abbreviation OP_SYNC_RESPONSE :: string where "OP_SYNC_RESPONSE \<equiv> ''sync_response''"

datatype rep_error =
  RepEmptyPassword | RepKdf | RepBadMac | RepExpiredTimestamp | RepReplay | RepBadNonce | RepDecode | RepStore store_error

record replicate_msg =
  rm_op :: string
  rm_service :: string
  rm_version :: u64
  rm_members :: "string list"
  rm_index_version :: u64
  rm_deleted :: bool
  rm_nonce :: string
  rm_ts :: u64
  rm_mac :: string

record sync_request =
  sq_op :: string
  sq_network :: string
  sq_nonce :: string
  sq_ts :: u64
  sq_mac :: string

record sync_response =
  sr_op :: string
  sr_nonce :: string
  sr_snapshot :: snapshot
  sr_ts :: u64
  sr_mac :: string

section \<open>Inputs of the MAC\<close>

text \<open>\<open>members.join(",")\<close>.\<close>

fun join_with :: "string \<Rightarrow> string list \<Rightarrow> string" where
  "join_with sep [] = []"
| "join_with sep [x] = x"
| "join_with sep (x # y # ys) = x @ sep @ join_with sep (y # ys)"

definition replicate_input :: "replicate_msg \<Rightarrow> bytes" where
  "replicate_input m = ''nexusauth/replicate'' @ [CHR 0x00] @ rm_service m @ [CHR 0x00]
     @ be_bytes 8 (unat (rm_version m)) @ [CHR 0x00] @ be_bytes 8 (unat (rm_index_version m)) @ [CHR 0x00]
     @ [if rm_deleted m then CHR 0x01 else CHR 0x00] @ [CHR 0x00] @ join_with '','' (sort (rm_members m)) @ [CHR 0x00]
     @ rm_nonce m @ [CHR 0x00] @ be_bytes 8 (unat (rm_ts m))"

definition sync_req_input :: "string \<Rightarrow> string \<Rightarrow> u64 \<Rightarrow> bytes" where
  "sync_req_input network nonce ts = ''nexusauth/sync/req'' @ [CHR 0x00] @ network @ [CHR 0x00] @ nonce @ [CHR 0x00]
     @ be_bytes 8 (unat ts)"

definition service_state_sval :: "service_state \<Rightarrow> sval" where
  "service_state_sval s = SMap [(''version'', SInt (ss_version s)),
     (''members'', SSeq (map SStr (sorted_list_of_fset (ss_members s))))]"

definition snapshot_sval :: "snapshot \<Rightarrow> sval" where
  "snapshot_sval sn = SMap [(''network'', SStr (sn_network sn)), (''index_version'', SInt (sn_index_version sn)),
     (''services'', SMap (map (\<lambda>(k, v). (k, service_state_sval v)) (entries (sn_services sn)))),
     (''tombstones'', SMap (map (\<lambda>(k, v). (k, SInt v)) (entries (sn_tombstones sn))))]"

definition sync_resp_input :: "ext \<Rightarrow> string \<Rightarrow> string \<Rightarrow> snapshot \<Rightarrow> u64 \<Rightarrow> rep_error + bytes" where
  "sync_resp_input X network nonce sn ts =
     (case x_cbor X (snapshot_sval sn) of
        None \<Rightarrow> Inl RepDecode
      | Some cbor \<Rightarrow> Inr (''nexusauth/sync/resp'' @ [CHR 0x00] @ network @ [CHR 0x00] @ nonce @ [CHR 0x00]
          @ cbor @ [CHR 0x00] @ be_bytes 8 (unat ts)))"

section \<open>The authenticator\<close>

record rep_auth =
  ra_key :: bytes
  ra_guard :: replay_guard

definition rep_auth_new :: "ext \<Rightarrow> string \<Rightarrow> string \<Rightarrow> rep_error + rep_auth" where
  "rep_auth_new X password network =
     (if password = [] then Inl RepEmptyPassword
      else (case x_hkdf X REP_SALT password network of
         None \<Rightarrow> Inl RepKdf
       | Some key \<Rightarrow> Inr \<lparr>ra_key = key, ra_guard = guard_default\<rparr>))"

definition mac_b64 :: "ext \<Rightarrow> rep_auth \<Rightarrow> bytes \<Rightarrow> string" where
  "mac_b64 X a inp = x_b64url X (x_hmac X (ra_key a) inp)"

definition verify_mac :: "ext \<Rightarrow> rep_auth \<Rightarrow> bytes \<Rightarrow> string \<Rightarrow> rep_error + unit" where
  "verify_mac X a inp provided_b64 =
     (case x_unb64url X provided_b64 of
        None \<Rightarrow> Inl RepDecode
      | Some provided \<Rightarrow>
          if length provided \<noteq> MAC_LEN then Inl RepBadMac
          else if x_hmac X (ra_key a) inp \<noteq> provided then Inl RepBadMac
          else Inr ())"

definition check_fresh :: "rep_auth \<Rightarrow> string \<Rightarrow> u64 \<Rightarrow> u64 \<Rightarrow> (rep_error + unit) \<times> rep_auth" where
  "check_fresh a nonce ts now =
     (if abs_diff now ts > REP_MAX_TS_SKEW_SECS then (Inl RepExpiredTimestamp, a)
      else (case check_and_insert (ra_guard a) nonce of
         (Inl Replay_Empty, g) \<Rightarrow> (Inl RepBadNonce, a\<lparr>ra_guard := g\<rparr>)
       | (Inl Replay_Replay, g) \<Rightarrow> (Inl RepReplay, a\<lparr>ra_guard := g\<rparr>)
       | (Inr _, g) \<Rightarrow> (Inr (), a\<lparr>ra_guard := g\<rparr>)))"

definition sign_replicate :: "ext \<Rightarrow> rep_auth \<Rightarrow> replicate_msg \<Rightarrow> string" where
  "sign_replicate X a m = mac_b64 X a (replicate_input m)"

definition verify_replicate :: "ext \<Rightarrow> rep_auth \<Rightarrow> replicate_msg \<Rightarrow> u64 \<Rightarrow> (rep_error + unit) \<times> rep_auth" where
  "verify_replicate X a m now =
     (if rm_op m \<noteq> OP_REPLICATE then (Inl RepBadMac, a)
      else (case verify_mac X a (replicate_input m) (rm_mac m) of
         Inl e \<Rightarrow> (Inl e, a)
       | Inr _ \<Rightarrow> check_fresh a (rm_nonce m) (rm_ts m) now))"

abbreviation sign_sync_request :: "ext \<Rightarrow> rep_auth \<Rightarrow> string \<Rightarrow> string \<Rightarrow> u64 \<Rightarrow> string" where
  "sign_sync_request X a network nonce ts \<equiv> mac_b64 X a (sync_req_input network nonce ts)"

definition verify_sync_request :: "ext \<Rightarrow> rep_auth \<Rightarrow> sync_request \<Rightarrow> u64 \<Rightarrow> (rep_error + unit) \<times> rep_auth" where
  "verify_sync_request X a q now =
     (if sq_op q \<noteq> OP_SYNC_REQUEST then (Inl RepBadMac, a)
      else (case verify_mac X a (sync_req_input (sq_network q) (sq_nonce q) (sq_ts q)) (sq_mac q) of
         Inl e \<Rightarrow> (Inl e, a)
       | Inr _ \<Rightarrow> check_fresh a (sq_nonce q) (sq_ts q) now))"

definition sign_sync_response :: "ext \<Rightarrow> rep_auth \<Rightarrow> string \<Rightarrow> string \<Rightarrow> snapshot \<Rightarrow> u64 \<Rightarrow> rep_error + string" where
  "sign_sync_response X a network nonce sn ts =
     (case sync_resp_input X network nonce sn ts of Inl e \<Rightarrow> Inl e | Inr b \<Rightarrow> Inr (mac_b64 X a b))"

definition verify_sync_response :: "ext \<Rightarrow> rep_auth \<Rightarrow> string \<Rightarrow> string \<Rightarrow> sync_response \<Rightarrow> rep_error + unit" where
  "verify_sync_response X a network nonce r =
     (if sr_op r \<noteq> OP_SYNC_RESPONSE \<or> sr_nonce r \<noteq> nonce then Inl RepBadMac
      else (case sync_resp_input X network nonce (sr_snapshot r) (sr_ts r) of
         Inl e \<Rightarrow> Inl e
       | Inr b \<Rightarrow> verify_mac X a b (sr_mac r)))"

section \<open>Discovery, broadcast and anti-entropy\<close>

text \<open>\<open>sort\<close> and \<open>dedup\<close> of the providers, without the node itself when whoami answers.\<close>

definition discover_peers :: "node_client \<Rightarrow> string \<Rightarrow> string list" where
  "discover_peers C service =
     (let peers = (case nc_discover_providers C service of Inr ps \<Rightarrow> ps | Inl _ \<Rightarrow> []);
          peers' = (case nc_whoami C of Inr me \<Rightarrow> filter (\<lambda>p. p \<noteq> me) peers | Inl _ \<Rightarrow> peers)
      in remdups_adj (sort peers'))"

definition replicate_msg_sval :: "replicate_msg \<Rightarrow> sval" where
  "replicate_msg_sval m = SMap [(''op'', SStr (rm_op m)), (''service'', SStr (rm_service m)), (''version'', SInt (rm_version m)),
     (''members'', SSeq (map SStr (rm_members m))), (''index_version'', SInt (rm_index_version m)),
     (''deleted'', SBool (rm_deleted m)), (''nonce'', SStr (rm_nonce m)), (''ts'', SInt (rm_ts m)), (''mac'', SStr (rm_mac m))]"

definition sync_request_sval :: "sync_request \<Rightarrow> sval" where
  "sync_request_sval q = SMap [(''op'', SStr (sq_op q)), (''network'', SStr (sq_network q)), (''nonce'', SStr (sq_nonce q)),
     (''ts'', SInt (sq_ts q)), (''mac'', SStr (sq_mac q))]"

text \<open>The \<open>i\<close>-th message of a broadcast draws nonce \<open>nonces i\<close> at time \<open>clock i\<close>; the result is the requests sent.\<close>

definition broadcast_msg ::
  "ext \<Rightarrow> rep_auth \<Rightarrow> string \<Rightarrow> u64 \<Rightarrow> string list \<Rightarrow> u64 \<Rightarrow> bool \<Rightarrow> string \<Rightarrow> u64 \<Rightarrow> replicate_msg" where
  "broadcast_msg X a service ver members index_version deleted nonce ts =
     (let m = \<lparr>rm_op = OP_REPLICATE, rm_service = service, rm_version = ver, rm_members = members,
               rm_index_version = index_version, rm_deleted = deleted, rm_nonce = nonce, rm_ts = ts, rm_mac = []\<rparr>
      in m\<lparr>rm_mac := sign_replicate X a m\<rparr>)"

fun broadcast_to :: "ext \<Rightarrow> (nat \<Rightarrow> replicate_msg) \<Rightarrow> nat \<Rightarrow> string list \<Rightarrow> (string \<times> bytes) list" where
  "broadcast_to X msg i [] = []"
| "broadcast_to X msg i (p # ps) =
     (case x_json X (replicate_msg_sval (msg i)) of
        None \<Rightarrow> broadcast_to X msg (Suc i) ps
      | Some payload \<Rightarrow> (p, payload) # broadcast_to X msg (Suc i) ps)"

definition broadcast ::
  "ext \<Rightarrow> node_client \<Rightarrow> rep_auth \<Rightarrow> string \<Rightarrow> (nat \<Rightarrow> string) \<Rightarrow> (nat \<Rightarrow> u64) \<Rightarrow> string \<Rightarrow> u64 \<Rightarrow> string list \<Rightarrow> u64 \<Rightarrow> bool \<Rightarrow>
   (string \<times> bytes) list" where
  "broadcast X C a service_name nonces clock service ver members index_version deleted =
     broadcast_to X (\<lambda>i. broadcast_msg X a service ver members index_version deleted (nonces i) (clock i)) 0
       (discover_peers C service_name)"

text \<open>Fisher--Yates, from the last position down; \<open>rnd i\<close> is the random number drawn for position \<open>i\<close>.\<close>

fun shuffle_from :: "(nat \<Rightarrow> u32) \<Rightarrow> nat \<Rightarrow> 'a list \<Rightarrow> 'a list" where
  "shuffle_from rnd 0 xs = xs"
| "shuffle_from rnd (Suc i) xs =
     (let j = unat (rnd (Suc i)) mod (Suc i + 1) in
      shuffle_from rnd i (xs[Suc i := xs ! j, j := xs ! Suc i]))"

datatype sync_error = SyncEncode | SyncCall sidecar_error | SyncDecode | SyncRep rep_error | SyncMerge store_error

text \<open>
  One exchange with a peer: the outcome, the store in memory, the files, and whether the publisher is
  notified. \<open>dec\<close> is the JSON decoder of responses.
\<close>

definition sync_with_peer ::
  "store_env \<Rightarrow> (bytes \<Rightarrow> sync_response option) \<Rightarrow> node_client \<Rightarrow> rep_auth \<Rightarrow> string \<Rightarrow> string \<Rightarrow> string \<Rightarrow> u64 \<Rightarrow> string \<Rightarrow>
   store \<Rightarrow> fs \<Rightarrow> (sync_error + bool) \<times> store \<times> fs \<times> bool" where
  "sync_with_peer E dec C a service_name network nonce ts peer s f =
     (let X = en_ext E;
          q = \<lparr>sq_op = OP_SYNC_REQUEST, sq_network = network, sq_nonce = nonce, sq_ts = ts,
               sq_mac = sign_sync_request X a network nonce ts\<rparr>
      in case x_json X (sync_request_sval q) of
        None \<Rightarrow> (Inl SyncEncode, s, f, False)
      | Some payload \<Rightarrow>
          (case nc_service_request_to C service_name peer payload of
             Inl e \<Rightarrow> (Inl (SyncCall e), s, f, False)
           | Inr b \<Rightarrow>
               (case dec b of
                  None \<Rightarrow> (Inl SyncDecode, s, f, False)
                | Some r \<Rightarrow>
                    (case verify_sync_response X a network nonce r of
                       Inl e \<Rightarrow> (Inl (SyncRep e), s, f, False)
                     | Inr _ \<Rightarrow>
                         (case merge_snapshot E (sr_snapshot r) s f of
                            (Inl e, s', f') \<Rightarrow> (Inl (SyncMerge e), s', f', False)
                          | (Inr changed, s', f') \<Rightarrow> (Inr changed, s', f', changed))))))"

text \<open>The peers in turn until one exchange succeeds; the \<open>i\<close>-th exchange draws \<open>nonces i\<close> at \<open>clock i\<close>.\<close>

fun sync_peers ::
  "store_env \<Rightarrow> (bytes \<Rightarrow> sync_response option) \<Rightarrow> node_client \<Rightarrow> rep_auth \<Rightarrow> string \<Rightarrow> string \<Rightarrow> (nat \<Rightarrow> string) \<Rightarrow>
   (nat \<Rightarrow> u64) \<Rightarrow> nat \<Rightarrow> string list \<Rightarrow> store \<Rightarrow> fs \<Rightarrow> bool \<times> store \<times> fs \<times> bool" where
  "sync_peers E dec C a sv net nonces clock i [] s f = (False, s, f, False)"
| "sync_peers E dec C a sv net nonces clock i (p # ps) s f =
     (case sync_with_peer E dec C a sv net (nonces i) (clock i) p s f of
        (Inr changed, s', f', n) \<Rightarrow> (changed, s', f', n)
      | (Inl _, s', f', _) \<Rightarrow> sync_peers E dec C a sv net nonces clock (Suc i) ps s' f')"

definition sync_once ::
  "store_env \<Rightarrow> (bytes \<Rightarrow> sync_response option) \<Rightarrow> node_client \<Rightarrow> rep_auth \<Rightarrow> string \<Rightarrow> string \<Rightarrow> (nat \<Rightarrow> string) \<Rightarrow>
   (nat \<Rightarrow> u64) \<Rightarrow> (nat \<Rightarrow> u32) \<Rightarrow> store \<Rightarrow> fs \<Rightarrow> bool \<times> store \<times> fs \<times> bool" where
  "sync_once E dec C a sv net nonces clock rnd s f =
     (let peers = discover_peers C sv in
      if peers = [] then (False, s, f, False)
      else sync_peers E dec C a sv net nonces clock 0 (shuffle_from rnd (length peers - 1) peers) s f)"

section \<open>The contract\<close>

text \<open>Change messages and synchronisation requests share one nonce memory, so they are verified as one stream.\<close>

datatype rep_message = RepChange replicate_msg | RepSync sync_request

fun rep_verify :: "ext \<Rightarrow> rep_auth \<Rightarrow> rep_message \<Rightarrow> u64 \<Rightarrow> (rep_error + unit) \<times> rep_auth" where
  "rep_verify X a (RepChange m) now = verify_replicate X a m now"
| "rep_verify X a (RepSync q) now = verify_sync_request X a q now"

fun rep_nonce :: "rep_message \<Rightarrow> string" where
  "rep_nonce (RepChange m) = rm_nonce m"
| "rep_nonce (RepSync q) = sq_nonce q"

fun rep_ts :: "rep_message \<Rightarrow> u64" where
  "rep_ts (RepChange m) = rm_ts m"
| "rep_ts (RepSync q) = sq_ts q"

fun rep_authentic :: "ext \<Rightarrow> rep_auth \<Rightarrow> rep_message \<Rightarrow> bool" where
  "rep_authentic X a (RepChange m) \<longleftrightarrow> rm_op m = OP_REPLICATE \<and>
     x_unb64url X (rm_mac m) = Some (x_hmac X (ra_key a) (replicate_input m))"
| "rep_authentic X a (RepSync q) \<longleftrightarrow> sq_op q = OP_SYNC_REQUEST \<and>
     x_unb64url X (sq_mac q) = Some (x_hmac X (ra_key a) (sync_req_input (sq_network q) (sq_nonce q) (sq_ts q)))"

lemma verify_mac_ok: "verify_mac X a inp b = Inr u \<Longrightarrow> x_unb64url X b = Some (x_hmac X (ra_key a) inp)"
  by (auto simp: verify_mac_def split: option.splits if_splits)

lemma check_fresh_ok:
  "check_fresh a n t now = (Inr r, a') \<Longrightarrow>
   abs_diff now t \<le> REP_MAX_TS_SKEW_SECS \<and> check_and_insert (ra_guard a) n = (Inr (), ra_guard a') \<and> ra_key a' = ra_key a"
  by (auto simp: check_fresh_def split: if_splits prod.splits sum.splits replay_error.splits)

lemma check_fresh_err: "check_fresh a n t now = (Inl e, a') \<Longrightarrow> a' = a"
  by (auto simp: check_fresh_def split: if_splits prod.splits sum.splits replay_error.splits dest: guard_result_cases)

interpretation rep_auth_fresh: fresh_auth "rep_verify X" ra_guard rep_nonce rep_ts REP_MAX_TS_SKEW_SECS "rep_authentic X" for X
proof
  fix s q now r s'
  assume "rep_verify X s q now = (Inr r, s')"
  then show "rep_authentic X s q \<and> abs_diff now (rep_ts q) \<le> REP_MAX_TS_SKEW_SECS \<and>
    check_and_insert (ra_guard s) (rep_nonce q) = (Inr (), ra_guard s')"
    by (cases q) (auto simp: verify_replicate_def verify_sync_request_def dest: check_fresh_ok verify_mac_ok
        split: if_splits sum.splits)
next
  fix s q now e s'
  assume "rep_verify X s q now = (Inl e, s')"
  then show "s' = s \<or> rep_authentic X s q \<and> abs_diff now (rep_ts q) \<le> REP_MAX_TS_SKEW_SECS \<and>
    check_and_insert (ra_guard s) (rep_nonce q) = (Inr (), ra_guard s')"
    by (cases q) (auto simp: verify_replicate_def verify_sync_request_def dest: check_fresh_err
        split: if_splits sum.splits)
qed

section \<open>What the MAC covers\<close>

definition clean_text :: "string \<Rightarrow> bool" where
  "clean_text p \<longleftrightarrow> p \<noteq> [] \<and> CHR 0x00 \<notin> set p \<and> CHR '','' \<notin> set p"

lemma join_with_eq_Nil: "\<forall>x \<in> set xs. x \<noteq> [] \<Longrightarrow> join_with sep xs = [] \<longleftrightarrow> xs = []"
  by (cases xs rule: remdups_adj.cases) auto

lemma join_with_Cons: "ys \<noteq> [] \<Longrightarrow> join_with sep (x # ys) = x @ sep @ join_with sep ys"
  by (cases ys) simp_all

lemma join_with_inject:
  assumes "\<forall>x \<in> set xs. clean_text x" "\<forall>y \<in> set ys. clean_text y"
  shows "join_with '','' xs = join_with '','' ys \<longleftrightarrow> xs = ys"
  using assms
proof (induction xs arbitrary: ys)
  case Nil
  then show ?case
    using join_with_eq_Nil [of ys "'',''"] by (simp add: clean_text_def eq_commute [of "[]"])
next
  case (Cons x xs)
  show ?case
  proof (cases ys)
    case Nil
    then show ?thesis
      using join_with_eq_Nil [of "x # xs"] Cons.prems(1) by (auto simp: clean_text_def)
  next
    case (Cons y zs)
    have stop: "x @ CHR '','' # us = y @ CHR '','' # vs \<longleftrightarrow> x = y \<and> us = vs" for us vs
      using Cons.prems Cons by (intro terminated_append_inject) (simp_all add: clean_text_def)
    have neq: "x \<noteq> y @ CHR '','' # vs" "x @ CHR '','' # vs \<noteq> y" for vs
      using Cons.prems Cons by (auto simp: clean_text_def)
    show ?thesis
      using Cons.IH [of zs] Cons.prems Cons stop neq
      by (cases "xs = []"; cases "zs = []") (auto simp: join_with_Cons)
  qed
qed

lemma join_no_nul: "\<forall>x \<in> set xs. clean_text x \<Longrightarrow> CHR 0x00 \<notin> set (join_with '','' xs)"
  by (induction xs rule: remdups_adj.induct) (auto simp: clean_text_def)

lemma ends_be8: "n @ c # be_bytes 8 (unat a) = m @ c # be_bytes 8 (unat b) \<longleftrightarrow> n = m \<and> a = b" for a b :: u64
proof -
  have "be_bytes 8 (unat a) = be_bytes 8 (unat b) \<longleftrightarrow> a = b"
    using be8_prefix [of a "[]" b "[]"] by simp
  then show ?thesis by (simp add: append_eq_append_conv)
qed

lemma replicate_input_inject:
  assumes "CHR 0x00 \<notin> set (rm_service m)" "CHR 0x00 \<notin> set (rm_service m')"
    and "\<forall>x \<in> set (rm_members m). clean_text x" "\<forall>x \<in> set (rm_members m'). clean_text x"
  shows "replicate_input m = replicate_input m' \<longleftrightarrow>
    rm_service m = rm_service m' \<and> rm_version m = rm_version m' \<and> rm_index_version m = rm_index_version m' \<and>
    rm_deleted m = rm_deleted m' \<and> mset (rm_members m) = mset (rm_members m') \<and>
    rm_nonce m = rm_nonce m' \<and> rm_ts m = rm_ts m'"
proof -
  have c: "\<forall>x \<in> set (sort (rm_members m)). clean_text x" "\<forall>x \<in> set (sort (rm_members m')). clean_text x"
    using assms(3,4) by simp_all
  have s: "sort (rm_members m) = sort (rm_members m') \<longleftrightarrow> mset (rm_members m) = mset (rm_members m')"
    by (metis mset_sort properties_for_sort sorted_sort)
  show ?thesis
    using assms(1,2) join_no_nul [OF c(1)] join_no_nul [OF c(2)] s
    by (simp add: replicate_input_def terminated_append_inject be8_prefix ends_be8 join_with_inject [OF c])
qed

section \<open>Properties\<close>

fun rep_run :: "ext \<Rightarrow> rep_auth \<Rightarrow> (rep_message \<times> u64) list \<Rightarrow> rep_auth" where
  "rep_run X a [] = a"
| "rep_run X a ((q, now) # qs) = rep_run X (snd (rep_verify X a q now)) qs"

fun rep_entered :: "ext \<Rightarrow> rep_auth \<Rightarrow> (rep_message \<times> u64) list \<Rightarrow> nat" where
  "rep_entered X a [] = 0"
| "rep_entered X a ((q, now) # qs) =
     (if ra_guard (snd (rep_verify X a q now)) = ra_guard a then 0 else 1) +
     rep_entered X (snd (rep_verify X a q now)) qs"

lemma rep_run_eq: "rep_auth_fresh.run X a qs = rep_run X a qs" "rep_auth_fresh.entered X a qs = rep_entered X a qs"
  by (induction X a qs rule: rep_run.induct) simp_all

text \<open>
  Replication messages are authentic, fresh and accepted once. A change message or synchronisation request that a
  replica accepts carries the MAC of its content under the shared key and a time stamp within five minutes,
  and from then on no message of either kind with the same nonce is accepted until ten thousand
  other nonces were recorded, nor the same message ever again once ten minutes have passed.
\<close>

theorem replication_not_replayed:
  assumes "rep_auth_new X password network = Inr a0" "rep_verify X (rep_run X a0 qs0) q now = (Inr r, a1)"
    and "rep_nonce q' = rep_nonce q"
    and "rep_entered X a1 qs < MAX_SEEN_NONCES \<or> q' = q \<and> unat now + 600 < unat now'"
  shows "rep_authentic X (rep_run X a0 qs0) q \<and> abs_diff now (rep_ts q) \<le> 300 \<and>
    (\<exists>e. rep_verify X (rep_run X a1 qs) q' now' = (Inl e, rep_run X a1 qs))"
proof -
  have auth: "rep_authentic X (rep_run X a0 qs0) q \<and> abs_diff now (rep_ts q) \<le> 300"
    using rep_auth_fresh.accept [OF assms(2)] by simp
  have "\<exists>e. rep_verify X (rep_run X a1 qs) q' now' = (Inl e, rep_run X a1 qs)"
  proof (cases "rep_entered X a1 qs < MAX_SEEN_NONCES")
    case True
    have "ra_guard a0 = guard_default"
      using assms(1) by (auto simp: rep_auth_new_def split: if_splits option.splits)
    then have "guard_inv (ra_guard (rep_auth_fresh.run X a0 qs0))"
      by (intro rep_auth_fresh.guard_inv_run) (simp add: guard_inv_default)
    then show ?thesis
      using rep_auth_fresh.replay_rejected [OF _ assms(2) _ assms(3), of qs now'] True by (simp add: rep_run_eq)
  next
    case False
    then have "q' = q" "unat now + 2 * unat REP_MAX_TS_SKEW_SECS < unat now'"
      using assms(4) by simp_all
    then show ?thesis
      using rep_auth_fresh.stale_rejected [OF assms(2)] by blast
  qed
  with auth show ?thesis by blast
qed

lemma mac_accepted:
  assumes "b64url_law X" "hmac_law X"
  shows "verify_mac X a inp (mac_b64 X a inp) = Inr ()"
  using assms by (simp add: verify_mac_def mac_b64_def b64url_law_def hmac_law_def)

definition demo_rep :: rep_auth where
  "demo_rep = \<lparr>ra_key = the (x_hkdf demo_ext REP_SALT ''pw'' ''net''), ra_guard = guard_default\<rparr>"

definition demo_msg :: replicate_msg where
  "demo_msg = broadcast_msg demo_ext demo_rep ''cmd'' 3 [''p'', ''q''] 7 False ''n1'' 1000"

lemma demo_rep_new: "rep_auth_new demo_ext ''pw'' ''net'' = Inr demo_rep"
proof -
  obtain b where "x_hkdf demo_ext REP_SALT ''pw'' ''net'' = Some b"
    using demo_laws(9) unfolding hkdf_law_def by blast
  then show ?thesis
    by (simp add: rep_auth_new_def demo_rep_def)
qed

lemma replicate_input_mac [simp]: "replicate_input (m\<lparr>rm_mac := k\<rparr>) = replicate_input m"
  by (simp add: replicate_input_def)

lemma broadcast_msg_accepted:
  assumes "b64url_law X" "hmac_law X" "n \<noteq> []" "n \<notin> rg_seen (ra_guard a)" "abs_diff now t \<le> 300"
  shows "verify_replicate X a (broadcast_msg X a sv v ms iv d n t) now =
    (Inr (), a\<lparr>ra_guard := snd (check_and_insert (ra_guard a) n)\<rparr>)"
proof -
  define m where "m = \<lparr>rm_op = OP_REPLICATE, rm_service = sv, rm_version = v, rm_members = ms,
    rm_index_version = iv, rm_deleted = d, rm_nonce = n, rm_ts = t, rm_mac = []\<rparr>"
  have "broadcast_msg X a sv v ms iv d n t = m\<lparr>rm_mac := mac_b64 X a (replicate_input m)\<rparr>"
    by (simp add: broadcast_msg_def sign_replicate_def m_def)
  moreover have "rm_op m = OP_REPLICATE" "rm_nonce m = n" "rm_ts m = t"
    by (simp_all add: m_def)
  ultimately show ?thesis
    using mac_accepted [OF assms(1,2), of a "replicate_input m"] assms(3,4,5)
    by (simp add: verify_replicate_def check_fresh_def not_less check_and_insert_def)
qed

lemma demo_msg_accepted: "\<exists>a. rep_verify demo_ext demo_rep (RepChange demo_msg) 1000 = (Inr (), a)"
  unfolding demo_msg_def rep_verify.simps
  by (subst broadcast_msg_accepted) (simp_all add: demo_rep_def guard_default_def abs_diff_def)

theorem replication_not_replayed_witness:
  "\<exists>a e. rep_verify demo_ext demo_rep (RepChange demo_msg) 1000 = (Inr (), a) \<and>
     rep_verify demo_ext a (RepSync \<lparr>sq_op = OP_SYNC_REQUEST, sq_network = ''net'', sq_nonce = rm_nonce demo_msg,
       sq_ts = 1000, sq_mac = sign_sync_request demo_ext demo_rep ''net'' (rm_nonce demo_msg) 1000\<rparr>) 1001 = (Inl e, a)"
proof -
  obtain a where a: "rep_verify demo_ext (rep_run demo_ext demo_rep []) (RepChange demo_msg) 1000 = (Inr (), a)"
    using demo_msg_accepted by auto
  show ?thesis
    using replication_not_replayed [OF demo_rep_new a, of "RepSync \<lparr>sq_op = OP_SYNC_REQUEST, sq_network = ''net'',
      sq_nonce = rm_nonce demo_msg, sq_ts = 1000,
      sq_mac = sign_sync_request demo_ext demo_rep ''net'' (rm_nonce demo_msg) 1000\<rparr>" "[]" 1001] a
    by (auto simp: MAX_SEEN_NONCES_def)
qed

text \<open>
  The replication MAC covers the whole message. For services and members as the store admits them (no NUL
  byte, members non-empty and without comma), two change messages have the same MAC input only when they
  agree on everything but the order of the members, and no change message, synchronisation request or response
  shares its MAC input with one of another kind.
\<close>

theorem replication_mac_injective:
  assumes "CHR 0x00 \<notin> set (rm_service m)" "CHR 0x00 \<notin> set (rm_service m')"
    and "\<forall>x \<in> set (rm_members m). clean_text x" "\<forall>x \<in> set (rm_members m'). clean_text x"
  shows "(replicate_input m = replicate_input m' \<longleftrightarrow>
      rm_service m = rm_service m' \<and> rm_version m = rm_version m' \<and> rm_index_version m = rm_index_version m' \<and>
      rm_deleted m = rm_deleted m' \<and> mset (rm_members m) = mset (rm_members m') \<and>
      rm_nonce m = rm_nonce m' \<and> rm_ts m = rm_ts m') \<and>
    replicate_input m \<noteq> sync_req_input net n t \<and>
    sync_resp_input X net n sn t \<noteq> Inr (replicate_input m) \<and> sync_resp_input X net n sn t \<noteq> Inr (sync_req_input net' n' t')"
  using replicate_input_inject [OF assms]
  by (simp add: sync_resp_input_def split: option.split) (simp add: replicate_input_def sync_req_input_def)

theorem replication_mac_injective_witness:
  "replicate_input demo_msg \<noteq> replicate_input (demo_msg\<lparr>rm_deleted := True\<rparr>)"
  using replication_mac_injective [where m = demo_msg and m' = "demo_msg\<lparr>rm_deleted := True\<rparr>"]
  by (simp add: demo_msg_def broadcast_msg_def clean_text_def)

end
