(* ===== verification/Join.thy ===== *)
theory Join
  imports Replicate Admin_V2
begin

text \<open>
  \<open>src/join.rs\<close>: the password-based way into the network. A joiner authenticates a request with a key derived from the
  management password; a member answers with the authority seed and its state, encrypted under a key bound to
  both nonces. Nonces, clock, node and the decoders are arguments. The verifier of requests meets the contract \<open>fresh_auth\<close>
  (interpretation \<open>join_fresh\<close>).
\<close>

section \<open>Data\<close>

abbreviation JOIN_SALT :: bytes where "JOIN_SALT \<equiv> ''nexusauth/join''"
abbreviation ENC_SALT :: bytes where "ENC_SALT \<equiv> ''nexusauth/join/enc''"
abbreviation JOIN_MAX_TS_SKEW_SECS :: u64 where "JOIN_MAX_TS_SKEW_SECS \<equiv> 300"
definition OP_REQUEST :: string where "OP_REQUEST = ''join_request''"
abbreviation OP_RESPONSE :: string where "OP_RESPONSE \<equiv> ''join_response''"

datatype join_error =
    JE_NoCandidates
  | JE_Request string sidecar_error
  | JE_BadResponse string
  | JE_Auth
  | JE_Decrypt
  | JE_Decode
  | JE_KeyMismatch
  | JE_PersistSeed io_error
  | JE_PersistState store_error
  | JE_InvalidNonce

record join_request =
  jq_op :: string
  jq_network :: string
  jq_nonce :: string
  jq_ts :: u64
  jq_mac :: string

record join_response =
  jr_op :: string
  jr_responder_nonce :: string
  jr_aead_nonce :: string
  jr_ciphertext :: string
  jr_mac :: string

definition join_secret_sval :: "bytes \<Rightarrow> snapshot \<Rightarrow> sval" where
  "join_secret_sval seed sn = SMap [(''seed'', vec_u8_sval seed), (''state'', snapshot_sval sn)]"

section \<open>Keys and MACs\<close>

definition derive_key :: "ext \<Rightarrow> bytes \<Rightarrow> string \<Rightarrow> bytes \<Rightarrow> join_error + bytes" where
  "derive_key X salt password info = (case x_hkdf X salt password info of None \<Rightarrow> Inl JE_Auth | Some k \<Rightarrow> Inr k)"

definition join_mac_key :: "ext \<Rightarrow> string \<Rightarrow> string \<Rightarrow> join_error + bytes" where
  "join_mac_key X password network = derive_key X JOIN_SALT password network"

definition enc_key :: "ext \<Rightarrow> string \<Rightarrow> string \<Rightarrow> string \<Rightarrow> string \<Rightarrow> join_error + bytes" where
  "enc_key X password network joiner_nonce responder_nonce =
     derive_key X ENC_SALT password (network @ [CHR 0x00] @ joiner_nonce @ [CHR 0x00] @ responder_nonce)"

definition request_mac_input :: "string \<Rightarrow> string \<Rightarrow> u64 \<Rightarrow> bytes" where
  "request_mac_input network nonce ts = ''nexusauth/join/request'' @ [CHR 0x00] @ network @ [CHR 0x00] @ nonce
     @ [CHR 0x00] @ be_bytes 8 (unat ts)"

definition response_mac_input :: "string \<Rightarrow> string \<Rightarrow> bytes \<Rightarrow> bytes \<Rightarrow> bytes" where
  "response_mac_input network responder_nonce aead_nonce ciphertext = ''nexusauth/join/response'' @ [CHR 0x00] @ network
     @ [CHR 0x00] @ responder_nonce @ [CHR 0x00] @ aead_nonce @ [CHR 0x00] @ ciphertext"

definition hmac_b64 :: "ext \<Rightarrow> bytes \<Rightarrow> bytes \<Rightarrow> string" where
  "hmac_b64 X key inp = x_b64url X (x_hmac X key inp)"

section \<open>Requests and responses\<close>

definition make_request :: "ext \<Rightarrow> string \<Rightarrow> string \<Rightarrow> string \<Rightarrow> u64 \<Rightarrow> join_error + join_request" where
  "make_request X password network nonce ts =
     (case join_mac_key X password network of
        Inl e \<Rightarrow> Inl e
      | Inr key \<Rightarrow> Inr \<lparr>jq_op = OP_REQUEST, jq_network = network, jq_nonce = nonce, jq_ts = ts,
                     jq_mac = hmac_b64 X key (request_mac_input network nonce ts)\<rparr>)"

definition verify_request ::
  "ext \<Rightarrow> string \<Rightarrow> string \<Rightarrow> replay_guard \<Rightarrow> join_request \<Rightarrow> u64 \<Rightarrow> (join_error + unit) \<times> replay_guard" where
  "verify_request X password network g q now =
     (if jq_op q \<noteq> OP_REQUEST \<or> jq_network q \<noteq> network then (Inl JE_Auth, g)
      else (case join_mac_key X password network of
         Inl e \<Rightarrow> (Inl e, g)
       | Inr key \<Rightarrow>
           (case x_unb64url X (jq_mac q) of
              None \<Rightarrow> (Inl JE_Decode, g)
            | Some provided \<Rightarrow>
                if x_hmac X key (request_mac_input network (jq_nonce q) (jq_ts q)) \<noteq> provided then (Inl JE_Auth, g)
                else if abs_diff now (jq_ts q) > JOIN_MAX_TS_SKEW_SECS then (Inl JE_Auth, g)
                else (case check_and_insert g (jq_nonce q) of
                   (Inl Replay_Empty, g') \<Rightarrow> (Inl JE_InvalidNonce, g')
                 | (Inl Replay_Replay, g') \<Rightarrow> (Inl JE_Auth, g')
                 | (Inr _, g') \<Rightarrow> (Inr (), g')))))"

text \<open>\<open>responder_nonce\<close> and \<open>aead_nonce\<close> are the random values drawn for this response.\<close>

definition make_response ::
  "ext \<Rightarrow> string \<Rightarrow> bytes \<Rightarrow> string \<Rightarrow> string \<Rightarrow> string \<Rightarrow> bytes \<Rightarrow> snapshot \<Rightarrow> join_error + join_response" where
  "make_response X responder_nonce aead_nonce password network joiner_nonce seed st =
     (case enc_key X password network joiner_nonce responder_nonce of
        Inl e \<Rightarrow> Inl e
      | Inr key \<Rightarrow>
          (case x_cbor X (join_secret_sval seed st) of
             None \<Rightarrow> Inl JE_Decode
           | Some plaintext \<Rightarrow>
               (case x_seal X key aead_nonce [] plaintext of
                  None \<Rightarrow> Inl JE_Auth
                | Some ciphertext \<Rightarrow>
                    (case join_mac_key X password network of
                       Inl e \<Rightarrow> Inl e
                     | Inr mac_key \<Rightarrow> Inr \<lparr>jr_op = OP_RESPONSE, jr_responder_nonce = responder_nonce,
                         jr_aead_nonce = x_b64url X aead_nonce, jr_ciphertext = x_b64url X ciphertext,
                         jr_mac = hmac_b64 X mac_key (response_mac_input network responder_nonce aead_nonce ciphertext)\<rparr>))))"

text \<open>\<open>dec\<close> is the CBOR decoder of the secret.\<close>

definition open_response ::
  "ext \<Rightarrow> (bytes \<Rightarrow> (bytes \<times> snapshot) option) \<Rightarrow> string \<Rightarrow> string \<Rightarrow> string \<Rightarrow> join_response \<Rightarrow> join_error + bytes \<times> snapshot" where
  "open_response X dec password network joiner_nonce r =
     (if jr_op r \<noteq> OP_RESPONSE then Inl JE_Auth
      else (case x_unb64url X (jr_aead_nonce r) of
         None \<Rightarrow> Inl JE_Decode
       | Some aead_nonce \<Rightarrow>
           if length aead_nonce \<noteq> 12 then Inl JE_Decode
           else (case x_unb64url X (jr_ciphertext r) of
              None \<Rightarrow> Inl JE_Decode
            | Some ciphertext \<Rightarrow>
                (case join_mac_key X password network of
                   Inl e \<Rightarrow> Inl e
                 | Inr mac_key \<Rightarrow>
                     (case x_unb64url X (jr_mac r) of
                        None \<Rightarrow> Inl JE_Decode
                      | Some provided \<Rightarrow>
                          if x_hmac X mac_key (response_mac_input network (jr_responder_nonce r) aead_nonce ciphertext) \<noteq> provided
                          then Inl JE_Auth
                          else (case enc_key X password network joiner_nonce (jr_responder_nonce r) of
                             Inl e \<Rightarrow> Inl e
                           | Inr key \<Rightarrow>
                               (case x_open X key aead_nonce [] ciphertext of
                                  None \<Rightarrow> Inl JE_Decrypt
                                | Some plaintext \<Rightarrow>
                                    (case dec plaintext of
                                       None \<Rightarrow> Inl JE_Decode
                                     | Some (seed, st) \<Rightarrow>
                                         if length seed \<noteq> SEED_LEN then Inl JE_Decode else Inr (seed, st)))))))))"

section \<open>The server\<close>

record join_server =
  js_password :: string
  js_allow :: bool
  js_guard :: replay_guard

definition join_server_new :: "string \<Rightarrow> bool \<Rightarrow> join_server" where
  "join_server_new password allow = \<lparr>js_password = password, js_allow = allow, js_guard = guard_default\<rparr>"

definition respond ::
  "ext \<Rightarrow> string \<Rightarrow> bytes \<Rightarrow> join_server \<Rightarrow> string \<Rightarrow> join_request \<Rightarrow> u64 \<Rightarrow> bytes \<Rightarrow> snapshot \<Rightarrow>
   (join_error + join_response) \<times> join_server" where
  "respond X responder_nonce aead_nonce j network q now seed st =
     (if \<not> js_allow j then (Inl JE_Auth, j)
      else (case verify_request X (js_password j) network (js_guard j) q now of
         (Inl e, g) \<Rightarrow> (Inl e, j\<lparr>js_guard := g\<rparr>)
       | (Inr _, g) \<Rightarrow>
           (make_response X responder_nonce aead_nonce (js_password j) network (jq_nonce q) seed st, j\<lparr>js_guard := g\<rparr>)))"

section \<open>Joining\<close>

text \<open>The part of the configuration that joining reads.\<close>

record join_config =
  jc_network :: string
  jc_password :: string
  jc_service :: string
  jc_key_path :: path
  jc_state_path :: path

definition join_request_sval :: "join_request \<Rightarrow> sval" where
  "join_request_sval q = SMap [(''op'', SStr (jq_op q)), (''network'', SStr (jq_network q)), (''nonce'', SStr (jq_nonce q)),
     (''ts'', SInt (jq_ts q)), (''mac'', SStr (jq_mac q))]"

definition verify_against_dht :: "ext \<Rightarrow> node_client \<Rightarrow> authority \<Rightarrow> join_error + unit" where
  "verify_against_dht X C a =
     (case nc_query_key C (index_key a) of
        Inl _ \<Rightarrow> Inr ()
      | Inr None \<Rightarrow> Inr ()
      | Inr (Some val) \<Rightarrow>
          (case verify_cose_sign1 X (public_key_bytes X a) (index_key a) val of
             Inl _ \<Rightarrow> Inl JE_KeyMismatch
           | Inr _ \<Rightarrow> Inr ()))"

text \<open>The first occurrence of each provider other than the node itself.\<close>

fun new_candidates :: "string option \<Rightarrow> string set \<Rightarrow> string list \<Rightarrow> string list" where
  "new_candidates me seen [] = []"
| "new_candidates me seen (p # ps) =
     (if Some p \<noteq> me \<and> p \<notin> seen then p # new_candidates me (insert p seen) ps
      else new_candidates me seen ps)"

text \<open>
  What one candidate gives: an error that ends the attempt, an error to remember (or none, when the key does not
  match the DHT) before the next candidate is tried, or the authority and the state.
\<close>

datatype candidate_result = Abort join_error | Next "join_error option" | Joined authority snapshot

definition try_candidate ::
  "ext \<Rightarrow> (bytes \<Rightarrow> join_response option) \<Rightarrow> (bytes \<Rightarrow> (bytes \<times> snapshot) option) \<Rightarrow> node_client \<Rightarrow> join_config \<Rightarrow>
   string \<Rightarrow> u64 \<Rightarrow> string \<Rightarrow> candidate_result" where
  "try_candidate X dec_resp dec_secret C cfg nonce ts peer =
     (case make_request X (jc_password cfg) (jc_network cfg) nonce ts of
        Inl e \<Rightarrow> Abort e
      | Inr q \<Rightarrow>
          (case x_json X (join_request_sval q) of
             None \<Rightarrow> Abort JE_Decode
           | Some payload \<Rightarrow>
               (case nc_service_request_to C (jc_service cfg) peer payload of
                  Inl e \<Rightarrow> Next (Some (JE_Request peer e))
                | Inr b \<Rightarrow>
                    (case dec_resp b of
                       None \<Rightarrow> Next (Some (JE_BadResponse peer))
                     | Some r \<Rightarrow>
                         (case open_response X dec_secret (jc_password cfg) (jc_network cfg) nonce r of
                            Inl e \<Rightarrow> Next (Some e)
                          | Inr (seed, st) \<Rightarrow>
                              (case from_seed X seed (jc_network cfg) of
                                 Inl _ \<Rightarrow> Abort JE_Decode
                               | Inr a \<Rightarrow>
                                   (case verify_against_dht X C a of
                                      Inl _ \<Rightarrow> Next None
                                    | Inr _ \<Rightarrow> Joined a st)))))))"

fun attempt_peers ::
  "store_env \<Rightarrow> (nat \<Rightarrow> string \<Rightarrow> candidate_result) \<Rightarrow> join_config \<Rightarrow> nat \<Rightarrow> string list \<Rightarrow> join_error option \<Rightarrow> fs \<Rightarrow>
   (join_error + authority \<times> store) \<times> fs" where
  "attempt_peers E tr cfg i [] le f = (Inl (case le of None \<Rightarrow> JE_NoCandidates | Some e \<Rightarrow> e), f)"
| "attempt_peers E tr cfg i (p # ps) le f =
     (case tr i p of
        Abort e \<Rightarrow> (Inl e, f)
      | Next None \<Rightarrow> attempt_peers E tr cfg (Suc i) ps le f
      | Next (Some e) \<Rightarrow> attempt_peers E tr cfg (Suc i) ps (Some e) f
      | Joined a sn \<Rightarrow>
          (case atomic_write (en_io E) (jc_key_path cfg) (au_key a) (Some 0x180) f of
             (Inl e, f1) \<Rightarrow> (Inl (JE_PersistSeed e), f1)
           | (Inr _, f1) \<Rightarrow>
               (case from_snapshot E (jc_state_path cfg) (jc_network cfg) sn f1 of
                  (Inl e, f2) \<Rightarrow> (Inl (JE_PersistState e), f2)
                | (Inr s, f2) \<Rightarrow> (Inr (a, s), f2))))"

definition attempt ::
  "store_env \<Rightarrow> (bytes \<Rightarrow> join_response option) \<Rightarrow> (bytes \<Rightarrow> (bytes \<times> snapshot) option) \<Rightarrow> node_client \<Rightarrow> join_config \<Rightarrow>
   (nat \<Rightarrow> string) \<Rightarrow> (nat \<Rightarrow> u64) \<Rightarrow> fs \<Rightarrow> (join_error + authority \<times> store) \<times> fs" where
  "attempt E dec_resp dec_secret C cfg nonces clock f =
     (let me = (case nc_whoami C of Inr p \<Rightarrow> Some p | Inl _ \<Rightarrow> None);
          found = (case nc_discover_providers C (jc_service cfg) of Inr ps \<Rightarrow> ps | Inl _ \<Rightarrow> []);
          candidates = sort (new_candidates me {} found)
      in if candidates = [] then (Inl JE_NoCandidates, f)
         else attempt_peers E (\<lambda>i p. try_candidate (en_ext E) dec_resp dec_secret C cfg (nonces i) (clock i) p)
                cfg 0 candidates None f)"

section \<open>The contract\<close>

definition join_authentic :: "ext \<Rightarrow> string \<Rightarrow> string \<Rightarrow> join_request \<Rightarrow> bool" where
  "join_authentic X password network q \<longleftrightarrow> jq_op q = OP_REQUEST \<and> jq_network q = network \<and>
     (\<exists>key. join_mac_key X password network = Inr key \<and>
        x_unb64url X (jq_mac q) = Some (x_hmac X key (request_mac_input network (jq_nonce q) (jq_ts q))))"

definition guard_id :: "replay_guard \<Rightarrow> replay_guard" where "guard_id g = g"

interpretation join_fresh: fresh_auth "verify_request X pw net" guard_id jq_nonce jq_ts JOIN_MAX_TS_SKEW_SECS
  "\<lambda>_. join_authentic X pw net" for X pw net
proof
  fix s q now r s'
  assume "verify_request X pw net s q now = (Inr r, s')"
  then show "join_authentic X pw net q \<and> abs_diff now (jq_ts q) \<le> JOIN_MAX_TS_SKEW_SECS \<and>
    check_and_insert (guard_id s) (jq_nonce q) = (Inr (), guard_id s')"
    by (auto simp: verify_request_def join_authentic_def guard_id_def
        split: option.splits if_splits prod.splits sum.splits replay_error.splits)
next
  fix s q now e s'
  assume "verify_request X pw net s q now = (Inl e, s')"
  then show "s' = s \<or> join_authentic X pw net q \<and> abs_diff now (jq_ts q) \<le> JOIN_MAX_TS_SKEW_SECS \<and>
    check_and_insert (guard_id s) (jq_nonce q) = (Inr (), guard_id s')"
    by (auto simp: verify_request_def split: option.splits if_splits prod.splits sum.splits
        replay_error.splits dest: guard_result_cases)
qed

section \<open>Properties\<close>

definition secret_codec :: "ext \<Rightarrow> (bytes \<Rightarrow> (bytes \<times> snapshot) option) \<Rightarrow> bytes \<Rightarrow> snapshot \<Rightarrow> bool" where
  "secret_codec X dec seed st \<longleftrightarrow> (\<forall>b. x_cbor X (join_secret_sval seed st) = Some b \<longrightarrow> dec b = Some (seed, st))"

lemma derive_key_total: "hkdf_law X \<Longrightarrow> \<exists>k. derive_key X salt pw info = Inr k"
  unfolding hkdf_law_def derive_key_def by (metis option.simps(5))

lemma open_made_response:
  assumes "b64url_law X" "hkdf_law X" "cbor_law X" "aead_law X"
    and "secret_codec X dec seed st" "length seed = SEED_LEN" "length an = 12"
  shows "\<exists>r. make_response X rn an pw net jn seed st = Inr r \<and> open_response X dec pw net jn r = Inr (seed, st)"
proof -
  obtain key where key: "enc_key X pw net jn rn = Inr key"
    using derive_key_total [OF assms(2)] unfolding enc_key_def by blast
  obtain mk where mk: "join_mac_key X pw net = Inr mk"
    using derive_key_total [OF assms(2)] unfolding join_mac_key_def by blast
  obtain p where p: "x_cbor X (join_secret_sval seed st) = Some p"
    using assms(3) unfolding cbor_law_def by blast
  obtain c where c: "x_seal X key an [] p = Some c" "x_open X key an [] c = Some p"
    using assms(4) unfolding aead_law_def by blast
  have "dec p = Some (seed, st)"
    using assms(5) p by (simp add: secret_codec_def)
  then show ?thesis
    using assms(1,6,7) key mk p c by (simp add: make_response_def open_response_def hmac_b64_def b64url_law_def)
qed

lemma made_request_verifies:
  assumes "b64url_law X" "hkdf_law X" "nonce \<noteq> []" "nonce \<notin> rg_seen g" "abs_diff now ts \<le> 300"
  shows "\<exists>q g'. make_request X pw net nonce ts = Inr q \<and> jq_nonce q = nonce \<and> verify_request X pw net g q now = (Inr (), g')"
proof -
  obtain mk where mk: "join_mac_key X pw net = Inr mk"
    using derive_key_total [OF assms(2)] unfolding join_mac_key_def by blast
  then show ?thesis
    using assms(1,3,4,5)
    by (simp add: make_request_def verify_request_def hmac_b64_def b64url_law_def not_less
        check_and_insert_def)
qed

text \<open>
  Joining with the right password works. A server that admits joiners accepts a fresh request made with
  its password and network, and the joiner decrypts its response to exactly the server's seed and state.
\<close>

theorem join_exchange:
  assumes "b64url_law X" "hkdf_law X" "cbor_law X" "aead_law X"
    and "secret_codec X dec seed st" "length seed = SEED_LEN" "length an = 12"
    and "js_allow j" "nonce \<noteq> []" "nonce \<notin> rg_seen (js_guard j)" "abs_diff now ts \<le> 300"
  shows "\<exists>q r j'. make_request X (js_password j) net nonce ts = Inr q \<and> respond X rn an j net q now seed st = (Inr r, j') \<and>
    open_response X dec (js_password j) net nonce r = Inr (seed, st)"
proof -
  obtain q g where q: "make_request X (js_password j) net nonce ts = Inr q" "jq_nonce q = nonce"
      "verify_request X (js_password j) net (js_guard j) q now = (Inr (), g)"
    using made_request_verifies [OF assms(1,2,9,10,11)] by blast
  obtain r where "make_response X rn an (js_password j) net nonce seed st = Inr r"
      "open_response X dec (js_password j) net nonce r = Inr (seed, st)"
    using open_made_response [OF assms(1-7)] by blast
  then show ?thesis
    using q assms(8) by (simp add: respond_def)
qed

theorem join_exchange_witness:
  "\<exists>q r j'. make_request demo_ext ''pw'' ''net'' ''n1'' 1000 = Inr q \<and>
     respond demo_ext ''r1'' (replicate 12 (CHR ''a'')) (join_server_new ''pw'' True) ''net'' q 1000 demo_sk (store_snapshot demo_store) = (Inr r, j') \<and>
     open_response demo_ext (\<lambda>_. Some (demo_sk, store_snapshot demo_store)) ''pw'' ''net'' ''n1'' r = Inr (demo_sk, store_snapshot demo_store)"
  using join_exchange [where X = demo_ext and j = "join_server_new ''pw'' True" and nonce = "''n1''" and now = 1000 and ts = 1000
      and seed = demo_sk and st = "store_snapshot demo_store" and an = "replicate 12 (CHR ''a'')" and net = "''net''"
      and dec = "\<lambda>_. Some (demo_sk, store_snapshot demo_store)" and rn = "''r1''"]
  by (simp add: secret_codec_def demo_sk_def join_server_new_def guard_default_def abs_diff_def)

text \<open>The requests the server gives the seed to.\<close>

definition join_admissible :: "ext \<Rightarrow> join_server \<Rightarrow> string \<Rightarrow> join_request \<Rightarrow> u64 \<Rightarrow> bool" where
  "join_admissible X j net q now \<longleftrightarrow> js_allow j \<and> join_authentic X (js_password j) net q \<and> abs_diff now (jq_ts q) \<le> 300 \<and>
     jq_nonce q \<noteq> [] \<and> jq_nonce q \<notin> rg_seen (js_guard j)"

lemma verify_request_outcome:
  assumes "js_allow j"
  shows "join_admissible X j net q now \<Longrightarrow>
      verify_request X (js_password j) net (js_guard j) q now = (Inr (), snd (check_and_insert (js_guard j) (jq_nonce q)))"
    and "\<not> join_admissible X j net q now \<Longrightarrow> \<exists>e. verify_request X (js_password j) net (js_guard j) q now = (Inl e, js_guard j)"
  using assms
  by (auto simp: join_admissible_def join_authentic_def verify_request_def check_and_insert_def split: sum.split option.split)

text \<open>
  C31: The seed is only given to an authenticated, fresh and new request. A request is admissible when joining is allowed, it names the
  server's network, carries the MAC of its nonce and time stamp under the shared password, is within five minutes of the
  clock, and its nonce is not empty and not in the memory. The server answers an admissible request with the response made for its nonce and
  puts the nonce into the memory; every other request - forged, stale or replayed - gets an error and changes nothing.
\<close>

theorem join_seed_protected:
  "respond X rn an j net q now seed st = (r, j') \<Longrightarrow>
   (if join_admissible X j net q now
    then r = make_response X rn an (js_password j) net (jq_nonce q) seed st \<and> j' = j\<lparr>js_guard := snd (check_and_insert (js_guard j) (jq_nonce q))\<rparr>
    else (\<exists>e. r = Inl e) \<and> j' = j)"
  using verify_request_outcome [of j X net q now] by (cases "js_allow j") (auto simp: respond_def join_admissible_def)

theorem join_seed_protected_witness:
  "\<exists>q r j' e. respond demo_ext ''r1'' (replicate 12 (CHR ''a'')) (join_server_new ''pw'' True) ''net'' q 1000 demo_sk (store_snapshot demo_store) = (Inr r, j') \<and>
     respond demo_ext ''r2'' (replicate 12 (CHR ''b'')) j' ''net'' q 1001 demo_sk (store_snapshot demo_store) = (Inl e, j')"
proof -
  let ?j = "join_server_new ''pw'' True"
  obtain q r j' where q: "make_request demo_ext ''pw'' ''net'' ''n1'' 1000 = Inr q"
    and run: "respond demo_ext ''r1'' (replicate 12 (CHR ''a'')) ?j ''net'' q 1000 demo_sk (store_snapshot demo_store) = (Inr r, j')"
    using join_exchange_witness by blast
  obtain r2 j2 where again: "respond demo_ext ''r2'' (replicate 12 (CHR ''b'')) j' ''net'' q 1001 demo_sk (store_snapshot demo_store) = (r2, j2)"
    by fastforce
  have n: "jq_nonce q = ''n1''"
    using q by (auto simp: make_request_def split: sum.splits)
  have "j' = ?j\<lparr>js_guard := snd (check_and_insert (js_guard ?j) (jq_nonce q))\<rparr>"
    using join_seed_protected [OF run] by (simp split: if_splits)
  then have "jq_nonce q \<in> rg_seen (js_guard j')"
    by (simp add: n join_server_new_def guard_default_def check_and_insert_def evict.simps MAX_SEEN_NONCES_def)
  then have "\<not> join_admissible demo_ext j' ''net'' q 1001"
    by (simp add: join_admissible_def)
  then show ?thesis
    using join_seed_protected [OF again] run again by auto
qed

lemma new_candidates_set: "set (new_candidates me seen ps) = {p \<in> set ps. Some p \<noteq> me \<and> p \<notin> seen}"
  by (induction me seen ps rule: new_candidates.induct) auto

lemma new_candidates_distinct: "distinct (new_candidates me seen ps)"
  by (induction me seen ps rule: new_candidates.induct) (auto simp: new_candidates_set)

lemma attempt_peers_ok:
  "attempt_peers E tr cfg i ps le f = (Inr (a, s), f') \<Longrightarrow>
   \<exists>k p sn f1 f2. p \<in> set ps \<and> tr k p = Joined a sn \<and>
     atomic_write (en_io E) (jc_key_path cfg) (au_key a) (Some 0x180) f1 = (Inr (), f2) \<and>
     from_snapshot E (jc_state_path cfg) (jc_network cfg) sn f2 = (Inr s, f')"
proof (induction ps arbitrary: i le f)
  case (Cons p ps)
  show ?case
  proof (cases "tr i p")
    case (Joined b sn)
    then show ?thesis
      using Cons.prems by (intro exI [of _ i] exI [of _ p]) (auto split: prod.splits sum.splits)
  next
    case (Next e)
    then obtain le' where "attempt_peers E tr cfg (Suc i) ps le' f = (Inr (a, s), f')"
      using Cons.prems by (cases e) auto
    from Cons.IH [OF this] show ?thesis
      by (elim exE conjE) (intro exI conjI, rule list.set_intros(2))
  qed (use Cons.prems in simp)
qed simp

lemma try_candidate_joined:
  assumes "try_candidate X dr ds C cfg n t p = Joined a sn"
  obtains q payload b r where "make_request X (jc_password cfg) (jc_network cfg) n t = Inr q"
    "x_json X (join_request_sval q) = Some payload" "nc_service_request_to C (jc_service cfg) p payload = Inr b"
    "dr b = Some r" "open_response X ds (jc_password cfg) (jc_network cfg) n r = Inr (au_key a, sn)"
    "from_seed X (au_key a) (jc_network cfg) = Inr a" "verify_against_dht X C a = Inr ()"
  using assms by (auto simp: try_candidate_def from_seed_def split: sum.splits option.splits if_splits)

text \<open>
  C32: A successful join is backed by a provider and by the DHT. The authority and the state come from one
  discovered provider other than the node itself, whose response to a request of this attempt opened under the password; the
  state is of the configured network and was saved, the seed was written before it; and an index record found
  in the DHT verifies with the new key.
\<close>

theorem join_attempt_sound:
  assumes "attempt E dr ds C cfg nonces clock f = (Inr (a, s), f')"
  shows "\<exists>p k ps q payload b r f1 f2. nc_discover_providers C (jc_service cfg) = Inr ps \<and> p \<in> set ps \<and> nc_whoami C \<noteq> Inr p \<and>
      make_request (en_ext E) (jc_password cfg) (jc_network cfg) (nonces k) (clock k) = Inr q \<and>
      x_json (en_ext E) (join_request_sval q) = Some payload \<and> nc_service_request_to C (jc_service cfg) p payload = Inr b \<and> dr b = Some r \<and>
      open_response (en_ext E) ds (jc_password cfg) (jc_network cfg) (nonces k) r = Inr (au_key a, store_snapshot s) \<and>
      atomic_write (en_io E) (jc_key_path cfg) (au_key a) (Some 0x180) f1 = (Inr (), f2) \<and> save E s f2 = (Inr (), f') \<and>
      au_network a = jc_network cfg \<and> st_network s = jc_network cfg \<and>
      (\<forall>val. nc_query_key C (index_key a) = Inr (Some val) \<longrightarrow>
        (\<exists>d. verify_cose_sign1 (en_ext E) (public_key_bytes (en_ext E) a) (index_key a) val = Inr d))"
proof -
  define me where "me = (case nc_whoami C of Inr p \<Rightarrow> Some p | Inl _ \<Rightarrow> None)"
  define found where "found = (case nc_discover_providers C (jc_service cfg) of Inr ps \<Rightarrow> ps | Inl _ \<Rightarrow> [])"
  have "attempt_peers E (\<lambda>i p. try_candidate (en_ext E) dr ds C cfg (nonces i) (clock i) p)
      cfg 0 (sort (new_candidates me {} found)) None f = (Inr (a, s), f')"
    using assms by (simp add: attempt_def Let_def me_def found_def split: if_splits)
  from attempt_peers_ok [OF this] obtain k p sn f1 f2 where p: "p \<in> set (new_candidates me {} found)"
      "try_candidate (en_ext E) dr ds C cfg (nonces k) (clock k) p = Joined a sn"
      "atomic_write (en_io E) (jc_key_path cfg) (au_key a) (Some 0x180) f1 = (Inr (), f2)"
      "from_snapshot E (jc_state_path cfg) (jc_network cfg) sn f2 = (Inr s, f')"
    by auto
  have s: "sn = store_snapshot s \<and> st_network s = jc_network cfg \<and> save E s f2 = (Inr (), f')"
    using p(4) by (auto simp: from_snapshot_def store_snapshot_def Let_def split: if_splits prod.splits sum.splits)
  obtain ps where ps: "nc_discover_providers C (jc_service cfg) = Inr ps" "p \<in> set ps" "nc_whoami C \<noteq> Inr p"
    using p(1) by (cases "nc_discover_providers C (jc_service cfg)"; cases "nc_whoami C") (auto simp: new_candidates_set me_def found_def)
  have net: "au_network a = jc_network cfg" if "from_seed (en_ext E) (au_key a) (jc_network cfg) = Inr a"
    using that by (cases a) (auto simp: from_seed_def split: if_splits)
  have dht: "\<exists>d. verify_cose_sign1 (en_ext E) (public_key_bytes (en_ext E) a) (index_key a) val = Inr d"
    if "verify_against_dht (en_ext E) C a = Inr ()" "nc_query_key C (index_key a) = Inr (Some val)" for val
    using that by (simp add: verify_against_dht_def split: sum.splits)
  show ?thesis
    using p(2) by (rule try_candidate_joined) (use ps p(3) s net dht in blast)
qed

definition demo_client :: "node_client" where
  "demo_client = \<lparr>nc_discover_providers = (\<lambda>_. Inr [''p'', ''me'']), nc_whoami = Inr ''me'',
     nc_service_request_to = (\<lambda>_ _ _. Inr ''reply''), nc_query_key = (\<lambda>_. Inr None)\<rparr>"

definition demo_join_config :: join_config where
  "demo_join_config = \<lparr>jc_network = ''net'', jc_password = ''pw'', jc_service = ''auth'',
     jc_key_path = ([''data''], ''seed.key''), jc_state_path = ([''data''], ''state.toml'')\<rparr>"

lemma demo_has_temp: "has_temp ([''data''], ''seed.key'')" "has_temp ([''data''], ''state.toml'')"
  by (simp_all add: has_temp_def with_extension_def file_stem_def)

lemma demo_save: "st_path s = ([''data''], ''state.toml'') \<Longrightarrow> \<exists>g. save (demo_env sn) s f = (Inr (), g)"
  using atomic_write_fine [OF demo_has_temp(2), of "''state''" "Some 0x180" f]
  by (auto simp: save_def demo_env_def split: prod.splits sum.splits)

lemma demo_from_snapshot:
  "\<exists>g. from_snapshot (demo_env sn) ([''data''], ''state.toml'') ''net'' (store_snapshot demo_store) f = (Inr demo_store, g)"
  using demo_save [of demo_store sn f] by (auto simp: from_snapshot_def store_snapshot_def demo_store_def Let_def)

theorem join_attempt_sound_witness:
  "\<exists>r a f'. make_response demo_ext ''r1'' (replicate 12 (CHR ''a'')) ''pw'' ''net'' ''n1'' demo_sk (store_snapshot demo_store) = Inr r \<and>
     attempt (demo_env (store_snapshot demo_store)) (\<lambda>_. Some r) (\<lambda>_. Some (demo_sk, store_snapshot demo_store)) demo_client
       demo_join_config (\<lambda>_. ''n1'') (\<lambda>_. 1000) demo_fs = (Inr (a, demo_store), f') \<and> au_network a = ''net''"
proof -
  let ?sn = "store_snapshot demo_store" let ?ds = "\<lambda>_ :: bytes. Some (demo_sk, ?sn)"
  obtain r where r: "make_response demo_ext ''r1'' (replicate 12 (CHR ''a'')) ''pw'' ''net'' ''n1'' demo_sk ?sn = Inr r"
      "open_response demo_ext ?ds ''pw'' ''net'' ''n1'' r = Inr (demo_sk, ?sn)"
    using open_made_response [where X = demo_ext and seed = demo_sk and st = ?sn and an = "replicate 12 (CHR ''a'')" and dec = ?ds
      and pw = "''pw''" and net = "''net''" and jn = "''n1''" and rn = "''r1''"]
    by (auto simp: secret_codec_def demo_sk_def)
  obtain q where q: "make_request demo_ext ''pw'' ''net'' ''n1'' 1000 = Inr q"
    using made_request_verifies [where X = demo_ext and nonce = "''n1''" and g = guard_default and now = 1000 and ts = 1000
      and pw = "''pw''" and net = "''net''"] by (auto simp: guard_default_def abs_diff_def)
  obtain payload where payload: "x_json demo_ext (join_request_sval q) = Some payload"
    using demo_laws(6) unfolding json_law_def by blast
  obtain a where a: "from_seed demo_ext demo_sk ''net'' = Inr a" "au_key a = demo_sk"
    by (simp add: from_seed_def demo_name_ok)
  obtain f1 where f1: "atomic_write io_fine ([''data''], ''seed.key'') demo_sk (Some 0x180) demo_fs = (Inr (), f1)"
    using atomic_write_fine [OF demo_has_temp(1), of demo_sk "Some 0x180" demo_fs]
    by (cases "atomic_write io_fine ([''data''], ''seed.key'') demo_sk (Some 0x180) demo_fs") simp
  obtain f2 where f2: "from_snapshot (demo_env ?sn) ([''data''], ''state.toml'') ''net'' ?sn f1 = (Inr demo_store, f2)"
    using demo_from_snapshot by blast
  have "try_candidate demo_ext (\<lambda>_. Some r) ?ds demo_client demo_join_config ''n1'' 1000 ''p'' = Joined a ?sn"
    by (simp add: try_candidate_def demo_client_def demo_join_config_def verify_against_dht_def r(2) q payload a(1))
  then have at: "attempt (demo_env ?sn) (\<lambda>_. Some r) ?ds demo_client demo_join_config (\<lambda>_. ''n1'') (\<lambda>_. 1000) demo_fs
      = (Inr (a, demo_store), f2)"
    using f1 f2 a(2) by (simp add: attempt_def demo_client_def demo_join_config_def) (simp add: demo_env_def)
  have "au_network a = jc_network demo_join_config"
    using join_attempt_sound [OF at] by (elim exE conjE)
  then have "au_network a = ''net''"
    by (simp add: demo_join_config_def)
  with at r(1) show ?thesis by blast
qed

end
