(* ===== verification/Token.thy ===== *)
theory Token
  imports Transport
begin

text \<open>
  \<open>src/raft/token.rs\<close> and \<open>src/raft/join.rs\<close>: join tokens signed by a root administrator, and the request with which
  a new node presents one, signed by its own Raft identity.
\<close>

section \<open>Tokens\<close>

abbreviation JOIN_TOKEN_VERSION :: u8 where "JOIN_TOKEN_VERSION \<equiv> 1"

text \<open>\<open>TK_BadRequest None\<close> is a failed encoding, \<open>Some e\<close> another error of the administrator key table.\<close>

datatype join_token_error =
    TK_BadVersion | TK_EmptyJti | TK_UnknownKey | TK_NotRoot | TK_BadSignature | TK_Expired | TK_WrongCluster
  | TK_WrongNetwork | TK_WrongAudience | TK_WrongPeer | TK_Exhausted | TK_BadRequest "admin_v2_error option"

fun join_token_code :: "join_token_error \<Rightarrow> string" where
  "join_token_code TK_BadVersion = ''join_token_bad_version''"
| "join_token_code TK_EmptyJti = ''join_token_bad_jti''"
| "join_token_code TK_UnknownKey = ''unknown_admin_key''"
| "join_token_code TK_NotRoot = ''forbidden_role''"
| "join_token_code TK_BadSignature = ''bad_signature''"
| "join_token_code TK_Expired = ''join_token_expired''"
| "join_token_code TK_WrongCluster = ''join_token_wrong_cluster''"
| "join_token_code TK_WrongNetwork = ''join_token_wrong_network''"
| "join_token_code TK_WrongAudience = ''join_token_wrong_audience''"
| "join_token_code TK_WrongPeer = ''join_token_wrong_peer''"
| "join_token_code TK_Exhausted = ''join_token_replayed''"
| "join_token_code (TK_BadRequest _) = ''bad_request''"

definition token_signed_fields :: "join_token \<Rightarrow> (string \<times> sval) list" where
  "token_signed_fields t = [(''v'', sint8 (jt_v t)), (''jti'', SStr (jt_jti t)), (''cluster_id'', SStr (jt_cluster_id t)),
     (''network'', SStr (jt_network t)), (''audience'', SStr (jt_audience t)), (''expires_at'', SInt (jt_expires_at t)),
     (''max_uses'', sint32 (jt_max_uses t)), (''bind_peer_id'', SStr (jt_bind_peer_id t)), (''kid'', SStr (jt_kid t))]"

definition token_signing_bytes :: "ext \<Rightarrow> join_token \<Rightarrow> join_token_error + bytes" where
  "token_signing_bytes X t =
     (case x_cbor X (SMap (token_signed_fields t)) of None \<Rightarrow> Inl (TK_BadRequest None) | Some b \<Rightarrow> Inr b)"

definition sign_join_token :: "ext \<Rightarrow> bytes \<Rightarrow> join_token \<Rightarrow> join_token_error + join_token" where
  "sign_join_token X sk t =
     (case token_signing_bytes X t of
        Inl e \<Rightarrow> Inl e
      | Inr b \<Rightarrow> Inr (t\<lparr>jt_sig := x_b64url X (x_ed_sign X sk b)\<rparr>))"

definition token_from_spec :: "string \<Rightarrow> string \<Rightarrow> string \<Rightarrow> admin_join_token_spec \<Rightarrow> join_token" where
  "token_from_spec cluster_id network kid spec = \<lparr>jt_v = JOIN_TOKEN_VERSION, jt_jti = aj_jti spec, jt_cluster_id = cluster_id,
     jt_network = network, jt_audience = aj_audience spec, jt_expires_at = aj_expires_at spec, jt_max_uses = max (aj_max_uses spec) 1,
     jt_bind_peer_id = aj_bind_peer_id spec, jt_kid = kid, jt_sig = aj_sig spec\<rparr>"

fun map_admin_error :: "admin_v2_error \<Rightarrow> join_token_error" where
  "map_admin_error A2_UnknownKey = TK_UnknownKey"
| "map_admin_error A2_BadSignature = TK_BadSignature"
| "map_admin_error e = TK_BadRequest (Some e)"

definition verify_join_token ::
  "ext \<Rightarrow> admin_verifier \<Rightarrow> join_token \<Rightarrow> u64 \<Rightarrow> string \<Rightarrow> string \<Rightarrow> string list \<Rightarrow> join_token_error + unit" where
  "verify_join_token X a t now cluster_id network allowed =
     (if jt_v t \<noteq> JOIN_TOKEN_VERSION then Inl TK_BadVersion
      else if is_blank (jt_jti t) then Inl TK_EmptyJti
      else if jt_cluster_id t \<noteq> cluster_id then Inl TK_WrongCluster
      else if jt_network t \<noteq> network then Inl TK_WrongNetwork
      else if jt_expires_at t = 0 \<or> now > jt_expires_at t then Inl TK_Expired
      else if jt_max_uses t = 0 then Inl TK_Exhausted
      else if \<not> (jt_audience t = ''auth'' \<or> (\<exists>c \<in> set allowed. c \<noteq> [] \<and> c = jt_audience t)) then Inl TK_WrongAudience
      else (case token_signing_bytes X t of
         Inl e \<Rightarrow> Inl e
       | Inr b \<Rightarrow>
           (case verify_signature X a (jt_kid t) b (jt_sig t) of
              Inl e \<Rightarrow> Inl (map_admin_error e)
            | Inr role \<Rightarrow> if role \<noteq> Root then Inl TK_NotRoot else Inr ())))"

section \<open>Requests of new nodes\<close>

definition RAFT_JOIN_OP :: string where "RAFT_JOIN_OP = ''raft_join''"
abbreviation RAFT_JOIN_VERSION :: u8 where "RAFT_JOIN_VERSION \<equiv> 1"
abbreviation RAFT_JOIN_MAX_TS_SKEW_SECS :: u64 where "RAFT_JOIN_MAX_TS_SKEW_SECS \<equiv> 300"

datatype raft_join_reason =
  RJ_Unsupported | RJ_Mismatch | RJ_ZeroNode | RJ_PeerId | RJ_NodeId | RJ_Nonce | RJ_X25519Base64 | RJ_X25519Len | RJ_Cbor

datatype raft_join_error = RJ_BadRequest raft_join_reason | RJ_Auth | RJ_Token join_token_error | RJ_ExpiredTimestamp

fun raft_join_code :: "raft_join_error \<Rightarrow> string" where
  "raft_join_code (RJ_BadRequest _) = ''bad_request''"
| "raft_join_code RJ_Auth = ''join_auth_failed''"
| "raft_join_code (RJ_Token e) = join_token_code e"
| "raft_join_code RJ_ExpiredTimestamp = ''expired_timestamp''"

record raft_join_request =
  rj_op :: string
  rj_v :: u8
  rj_cluster_id :: string
  rj_network :: string
  rj_token :: join_token
  rj_node_id :: u64
  rj_peer_id :: string
  rj_identity_key :: string
  rj_x25519_key :: string
  rj_nonce :: string
  rj_ts :: u64
  rj_edge_peer :: string
  rj_sig :: string

definition join_token_sval :: "join_token \<Rightarrow> sval" where
  "join_token_sval t = SMap (token_signed_fields t @ [(''sig'', SStr (jt_sig t))])"

definition raft_join_signing_bytes :: "ext \<Rightarrow> raft_join_request \<Rightarrow> raft_join_error + bytes" where
  "raft_join_signing_bytes X q =
     (case x_cbor X (SMap [(''v'', sint8 (rj_v q)), (''cluster_id'', SStr (rj_cluster_id q)), (''network'', SStr (rj_network q)),
        (''token'', join_token_sval (rj_token q)), (''node_id'', SInt (rj_node_id q)), (''peer_id'', SStr (rj_peer_id q)),
        (''identity_key'', SStr (rj_identity_key q)), (''x25519_key'', SStr (rj_x25519_key q)), (''nonce'', SStr (rj_nonce q)),
        (''ts'', SInt (rj_ts q))]) of
        None \<Rightarrow> Inl (RJ_BadRequest RJ_Cbor)
      | Some b \<Rightarrow> Inr b)"

definition parse_identity :: "ext \<Rightarrow> string \<Rightarrow> raft_join_error + bytes" where
  "parse_identity X b64 =
     (case x_unb64 X b64 of
        None \<Rightarrow> Inl RJ_Auth
      | Some raw \<Rightarrow> if length raw \<noteq> 32 \<or> \<not> x_ed_key_ok X raw then Inl RJ_Auth else Inr raw)"

definition parse_x25519 :: "ext \<Rightarrow> string \<Rightarrow> raft_join_error + bytes" where
  "parse_x25519 X b64 =
     (case x_unb64 X b64 of
        None \<Rightarrow> Inl (RJ_BadRequest RJ_X25519Base64)
      | Some raw \<Rightarrow> if length raw \<noteq> 32 then Inl (RJ_BadRequest RJ_X25519Len) else Inr raw)"

definition raft_join_sign :: "ext \<Rightarrow> identity_key \<Rightarrow> raft_join_request \<Rightarrow> raft_join_error + raft_join_request" where
  "raft_join_sign X k q =
     (case raft_join_signing_bytes X q of Inl e \<Rightarrow> Inl e | Inr b \<Rightarrow> Inr (q\<lparr>rj_sig := sign_b64 X k b\<rparr>))"

definition raft_join_verify ::
  "ext \<Rightarrow> raft_join_request \<Rightarrow> admin_verifier \<Rightarrow> string \<Rightarrow> string \<Rightarrow> u64 \<Rightarrow> string list \<Rightarrow> raft_join_error + unit" where
  "raft_join_verify X q a cluster_id network now allowed =
     (if rj_op q \<noteq> RAFT_JOIN_OP \<or> rj_v q \<noteq> RAFT_JOIN_VERSION then Inl (RJ_BadRequest RJ_Unsupported)
      else if rj_cluster_id q \<noteq> cluster_id \<or> rj_network q \<noteq> network then Inl (RJ_BadRequest RJ_Mismatch)
      else if rj_node_id q = 0 then Inl (RJ_BadRequest RJ_ZeroNode)
      else if \<not> is_valid_peer_id X (rj_peer_id q) then Inl (RJ_BadRequest RJ_PeerId)
      else if rj_node_id q \<noteq> node_id_from_peer_id X (rj_peer_id q) then Inl (RJ_BadRequest RJ_NodeId)
      else if rj_nonce q = [] \<or> length (rj_nonce q) > 128 then Inl (RJ_BadRequest RJ_Nonce)
      else if abs_diff now (rj_ts q) > RAFT_JOIN_MAX_TS_SKEW_SECS then Inl RJ_ExpiredTimestamp
      else (case parse_x25519 X (rj_x25519_key q) of
         Inl e \<Rightarrow> Inl e
       | Inr _ \<Rightarrow>
           (case parse_identity X (rj_identity_key q) of
              Inl e \<Rightarrow> Inl e
            | Inr identity \<Rightarrow>
                if jt_bind_peer_id (rj_token q) \<noteq> [] \<and> jt_bind_peer_id (rj_token q) \<noteq> rj_peer_id q then Inl (RJ_Token TK_WrongPeer)
                else (case verify_join_token X a (rj_token q) now cluster_id network allowed of
                   Inl e \<Rightarrow> Inl (RJ_Token e)
                 | Inr _ \<Rightarrow>
                     (case x_unb64url X (rj_sig q) of
                        None \<Rightarrow> Inl RJ_Auth
                      | Some sig \<Rightarrow>
                          if length sig \<noteq> 64 then Inl RJ_Auth
                          else (case raft_join_signing_bytes X q of
                             Inl e \<Rightarrow> Inl e
                           | Inr b \<Rightarrow> if x_ed_verify X identity b sig then Inr () else Inl RJ_Auth))))))"

record member_info =
  mi_node_id :: u64
  mi_peer_id :: string
  mi_identity_key :: string
  mi_x25519_key :: string
  mi_voter :: bool

record raft_join_response =
  rp_v :: u8
  rp_ok :: bool
  rp_error :: string
  rp_cluster_id :: string
  rp_network :: string
  rp_node_id :: u64
  rp_peer_id :: string
  rp_role :: string
  rp_term :: u64
  rp_leader :: "u64 option"
  rp_policy_epoch :: u64
  rp_members :: "member_info list"

section \<open>Lemmas\<close>

lemma token_fields_inject: "token_signed_fields t = token_signed_fields t' \<longleftrightarrow> t\<lparr>jt_sig := s\<rparr> = t'\<lparr>jt_sig := s\<rparr>"
  by (cases t, cases t') (auto simp: token_signed_fields_def)

lemma join_token_sval_inject: "join_token_sval t = join_token_sval t' \<longleftrightarrow> t = t'"
  by (cases t, cases t') (auto simp: join_token_sval_def token_signed_fields_def)

lemma token_signing_bytes_inject:
  assumes "cbor_law X" "token_signing_bytes X t = Inr b"
  shows "token_signing_bytes X t' = Inr b \<longleftrightarrow> t\<lparr>jt_sig := s\<rparr> = t'\<lparr>jt_sig := s\<rparr>"
proof -
  have "token_signing_bytes X t' = Inr b \<longleftrightarrow> x_cbor X (SMap (token_signed_fields t)) = x_cbor X (SMap (token_signed_fields t'))"
    using assms(2) by (auto simp: token_signing_bytes_def split: option.splits)
  also have "\<dots> \<longleftrightarrow> token_signed_fields t = token_signed_fields t'"
    by (simp add: cbor_inject [OF assms(1)])
  finally show ?thesis
    by (simp add: token_fields_inject)
qed

lemma raft_join_signing_inject:
  assumes "cbor_law X" "raft_join_signing_bytes X q = Inr b" "raft_join_signing_bytes X q' = Inr b" "rj_op q' = rj_op q"
  shows "q' = q\<lparr>rj_edge_peer := rj_edge_peer q', rj_sig := rj_sig q'\<rparr>"
proof -
  let ?v = "\<lambda>q. SMap [(''v'', sint8 (rj_v q)), (''cluster_id'', SStr (rj_cluster_id q)), (''network'', SStr (rj_network q)),
        (''token'', join_token_sval (rj_token q)), (''node_id'', SInt (rj_node_id q)), (''peer_id'', SStr (rj_peer_id q)),
        (''identity_key'', SStr (rj_identity_key q)), (''x25519_key'', SStr (rj_x25519_key q)), (''nonce'', SStr (rj_nonce q)),
        (''ts'', SInt (rj_ts q))]"
  have "x_cbor X (?v q) = x_cbor X (?v q')"
    using assms(2,3) by (auto simp: raft_join_signing_bytes_def split: option.splits)
  then have "?v q = ?v q'"
    by (simp only: cbor_inject [OF assms(1)])
  then show ?thesis
    using assms(4) by (cases q, cases q') (simp add: join_token_sval_inject)
qed

lemma verify_join_token_ok:
  assumes "verify_join_token X a t now c net allowed = Inr u"
  shows "jt_v t = 1 \<and> \<not> is_blank (jt_jti t) \<and> jt_cluster_id t = c \<and> jt_network t = net \<and> jt_expires_at t \<noteq> 0 \<and>
    now \<le> jt_expires_at t \<and> jt_max_uses t \<noteq> 0 \<and> (jt_audience t = ''auth'' \<or> jt_audience t \<in> set allowed \<and> jt_audience t \<noteq> []) \<and>
    (\<exists>pk b. bt_get (av_keys a) (jt_kid t) = Some (pk, Root) \<and> token_signing_bytes X t = Inr b \<and> sig_bytes_ok X pk b (jt_sig t))"
  using assms by (auto simp: verify_join_token_def verify_signature_def split: if_splits sum.splits option.splits)

lemma signed_token_verifies:
  assumes "sig_law X" "b64url_law X" "sign_join_token X sk t = Inr t'"
    and "bt_get (av_keys a) (jt_kid t) = Some (x_ed_pub X sk, Root)"
    and "jt_v t = 1" "\<not> is_blank (jt_jti t)" "jt_cluster_id t = c" "jt_network t = net" "jt_expires_at t \<noteq> 0" "now \<le> jt_expires_at t"
    "jt_max_uses t \<noteq> 0" "jt_audience t = ''auth'' \<or> jt_audience t \<in> set allowed \<and> jt_audience t \<noteq> []"
  shows "verify_join_token X a t' now c net allowed = Inr ()"
proof -
  obtain b where b: "token_signing_bytes X t = Inr b" "t' = t\<lparr>jt_sig := x_b64url X (x_ed_sign X sk b)\<rparr>"
    using assms(3) by (auto simp: sign_join_token_def split: sum.splits)
  then have "token_signing_bytes X t' = Inr b"
    by (simp add: token_signing_bytes_def token_signed_fields_def)
  moreover have "sig_bytes_ok X (x_ed_pub X sk) b (jt_sig t')"
    using b(2) assms(1,2) by (simp add: sig_bytes_ok_def sig_law_def b64url_law_def)
  ultimately show ?thesis
    using assms(4-12) b(2) by (auto simp: verify_join_token_def verify_signature_def)
qed

lemma invited_join_verifies:
  assumes "sig_law X" "b64url_law X" "b64_law X" "cbor_law X" "key_len_law X"
    and "sign_join_token X rootkey tk = Inr t" "bt_get (av_keys a) (jt_kid tk) = Some (x_ed_pub X rootkey, Root)"
    and "jt_v tk = 1" "\<not> is_blank (jt_jti tk)" "jt_cluster_id tk = c" "jt_network tk = net" "jt_expires_at tk \<noteq> 0"
    "now \<le> jt_expires_at tk" "jt_max_uses tk \<noteq> 0" "jt_audience tk = ''auth'' \<or> jt_audience tk \<in> set allowed \<and> jt_audience tk \<noteq> []"
    and "jt_bind_peer_id tk = [] \<or> jt_bind_peer_id tk = p" "is_valid_peer_id X p"
    and "length seed = 32" "length xseed = 32" "nonce \<noteq> []" "length nonce \<le> 128" "abs_diff now ts \<le> 300"
  defines "q \<equiv> \<lparr>rj_op = RAFT_JOIN_OP, rj_v = RAFT_JOIN_VERSION, rj_cluster_id = c, rj_network = net, rj_token = t,
      rj_node_id = node_id_from_peer_id X p, rj_peer_id = p, rj_identity_key = ik_public_key_b64 (identity_from_seed X seed),
      rj_x25519_key = x_b64 X (x_dh_pub X xseed), rj_nonce = nonce, rj_ts = ts, rj_edge_peer = [], rj_sig = []\<rparr>"
  shows "\<exists>q'. raft_join_sign X (identity_from_seed X seed) q = Inr q' \<and> raft_join_verify X q' a c net now allowed = Inr ()"
proof -
  have tok: "verify_join_token X a t now c net allowed = Inr ()"
    by (rule signed_token_verifies [OF assms(1,2,6,7)]) (use assms(8-15) in auto)
  have bind: "jt_bind_peer_id t = jt_bind_peer_id tk"
    using assms(6) by (auto simp: sign_join_token_def split: sum.splits)
  obtain m where m: "raft_join_signing_bytes X q = Inr m"
    using assms(4) unfolding raft_join_signing_bytes_def by (metis cbor_total option.simps(5))
  define q' where "q' = q\<lparr>rj_sig := sign_b64 X (identity_from_seed X seed) m\<rparr>"
  have sb: "raft_join_signing_bytes X q' = Inr m"
    using m by (simp add: raft_join_signing_bytes_def q'_def)
  have key: "parse_identity X (rj_identity_key q') = Inr (x_ed_pub X seed)" "parse_x25519 X (rj_x25519_key q') = Inr (x_dh_pub X xseed)"
    using assms(1,3,5,18,19) by (simp_all add: q'_def q_def parse_identity_def parse_x25519_def identity_from_seed_def b64_law_def
        sig_law_def key_len_law_def)
  have sig: "x_unb64url X (rj_sig q') = Some (x_ed_sign X seed m)" "length (x_ed_sign X seed m) = 64" "x_ed_verify X (x_ed_pub X seed) m (x_ed_sign X seed m)"
    using assms(1,2) by (simp_all add: q'_def sign_b64_def identity_from_seed_def b64url_law_def sig_law_def)
  have fields: "rj_op q' = RAFT_JOIN_OP" "rj_v q' = RAFT_JOIN_VERSION" "rj_cluster_id q' = c" "rj_network q' = net" "rj_token q' = t"
      "rj_node_id q' = node_id_from_peer_id X p" "rj_peer_id q' = p" "rj_nonce q' = nonce" "rj_ts q' = ts"
    by (simp_all add: q'_def q_def)
  have "raft_join_verify X q' a c net now allowed = Inr ()"
    using assms(16,17,20-22) node_id_nonzero [of X p]
    by (auto simp: raft_join_verify_def fields key sig sb tok bind not_less)
  then show ?thesis
    using m by (auto simp: raft_join_sign_def q'_def)
qed

definition demo_invite :: join_token where
  "demo_invite = \<lparr>jt_v = 1, jt_jti = ''j1'', jt_cluster_id = ''c'', jt_network = ''net'', jt_audience = ''auth'',
     jt_expires_at = 2000, jt_max_uses = 1, jt_bind_peer_id = ''p'', jt_kid = ''ops'', jt_sig = []\<rparr>"

definition demo_join :: "join_token \<Rightarrow> raft_join_request" where
  "demo_join t = \<lparr>rj_op = RAFT_JOIN_OP, rj_v = RAFT_JOIN_VERSION, rj_cluster_id = ''c'', rj_network = ''net'', rj_token = t,
     rj_node_id = node_id_from_peer_id demo_ext ''p'', rj_peer_id = ''p'',
     rj_identity_key = ik_public_key_b64 (identity_from_seed demo_ext demo_sk),
     rj_x25519_key = x_b64 demo_ext (x_dh_pub demo_ext demo_sk), rj_nonce = ''n'', rj_ts = 1000, rj_edge_peer = [], rj_sig = []\<rparr>"

lemma demo_invite_signed: "\<exists>t. sign_join_token demo_ext demo_sk demo_invite = Inr t"
proof -
  obtain b where "x_cbor demo_ext (SMap (token_signed_fields demo_invite)) = Some b"
    by (rule cbor_total [OF demo_laws(5)])
  then show ?thesis
    by (simp add: sign_join_token_def token_signing_bytes_def)
qed

lemma demo_invite_facts: "jt_v demo_invite = 1" "\<not> is_blank (jt_jti demo_invite)" "jt_cluster_id demo_invite = ''c''"
  "jt_network demo_invite = ''net''" "jt_expires_at demo_invite = 2000" "jt_max_uses demo_invite = 1"
  "jt_audience demo_invite = ''auth''" "jt_bind_peer_id demo_invite = ''p''" "length demo_sk = 32"
  "bt_get (av_keys demo_verifier) (jt_kid demo_invite) = Some (x_ed_pub demo_ext demo_sk, Root)"
  by (simp_all add: demo_invite_def demo_verifier_def demo_sk_def is_blank_def trim_start.simps)

lemma demo_join_ok:
  "\<exists>t q. sign_join_token demo_ext demo_sk demo_invite = Inr t \<and>
     raft_join_sign demo_ext (identity_from_seed demo_ext demo_sk) (demo_join t) = Inr q \<and>
     raft_join_verify demo_ext q demo_verifier ''c'' ''net'' 1000 [] = Inr ()"
proof -
  obtain t where t: "sign_join_token demo_ext demo_sk demo_invite = Inr t"
    using demo_invite_signed by blast
  show ?thesis
    using invited_join_verifies [where X = demo_ext and rootkey = demo_sk and tk = demo_invite and a = demo_verifier and c = "''c''"
      and net = "''net''" and now = 1000 and allowed = "[]" and p = "''p''" and seed = demo_sk and xseed = demo_sk
      and nonce = "''n''" and ts = 1000 and t = t] t demo_invite_facts
    by (auto simp: demo_join_def abs_diff_def)
qed

section \<open>Properties\<close>

text \<open>A token that a root key of the table signed, for this cluster, network and audience, and that is not expired.\<close>

definition token_valid :: "ext \<Rightarrow> admin_verifier \<Rightarrow> join_token \<Rightarrow> u64 \<Rightarrow> string \<Rightarrow> string \<Rightarrow> string list \<Rightarrow> bool" where
  "token_valid X a t now c net allowed \<longleftrightarrow> jt_v t = 1 \<and> \<not> is_blank (jt_jti t) \<and> jt_cluster_id t = c \<and> jt_network t = net \<and>
     jt_expires_at t \<noteq> 0 \<and> now \<le> jt_expires_at t \<and> jt_max_uses t \<noteq> 0 \<and>
     (jt_audience t = ''auth'' \<or> jt_audience t \<in> set allowed \<and> jt_audience t \<noteq> []) \<and>
     (\<exists>pk b. bt_get (av_keys a) (jt_kid t) = Some (pk, Root) \<and> token_signing_bytes X t = Inr b \<and> sig_bytes_ok X pk b (jt_sig t))"

lemma verify_join_token_iff: "verify_join_token X a t now c net allowed = Inr () \<longleftrightarrow> token_valid X a t now c net allowed"
proof
  assume "token_valid X a t now c net allowed"
  then show "verify_join_token X a t now c net allowed = Inr ()"
    by (auto simp: token_valid_def verify_join_token_def verify_signature_def)
qed (use verify_join_token_ok in \<open>auto simp: token_valid_def\<close>)

text \<open>A request that verifies under the identity key it carries.\<close>

definition self_signed :: "ext \<Rightarrow> raft_join_request \<Rightarrow> bool" where
  "self_signed X q \<longleftrightarrow> (\<exists>idk b. x_unb64 X (rj_identity_key q) = Some idk \<and> length idk = 32 \<and> x_ed_key_ok X idk \<and>
     raft_join_signing_bytes X q = Inr b \<and> sig_bytes_ok X idk b (rj_sig q))"

definition well_addressed :: "ext \<Rightarrow> raft_join_request \<Rightarrow> string \<Rightarrow> string \<Rightarrow> u64 \<Rightarrow> bool" where
  "well_addressed X q c net now \<longleftrightarrow> rj_op q = RAFT_JOIN_OP \<and> rj_v q = 1 \<and> rj_cluster_id q = c \<and> rj_network q = net \<and>
     is_valid_peer_id X (rj_peer_id q) \<and> rj_node_id q = node_id_from_peer_id X (rj_peer_id q) \<and> rj_nonce q \<noteq> [] \<and> length (rj_nonce q) \<le> 128 \<and>
     abs_diff now (rj_ts q) \<le> 300 \<and> (\<exists>x. x_unb64 X (rj_x25519_key q) = Some x \<and> length x = 32)"

text \<open>
  C34: Exactly these join requests are accepted: the request names this cluster and network, a valid PeerId and the node id derived from it, and a
  recent time; it verifies under the identity key it carries itself; and its token was signed by a root key of this node's table for this
  cluster, network and audience, has not expired, and is bound to the request's PeerId or to none. What was signed is fixed: two requests with the
  same signed bytes differ at most in the operation, edge peer and signature, two such tokens at most in the signature. No check ties the
  identity key to the PeerId; with a token bound to no peer its holder may name any PeerId.
\<close>

theorem raft_join_admission:
  assumes "cbor_law X"
  shows "(raft_join_verify X q a c net now allowed = Inr () \<longleftrightarrow> well_addressed X q c net now \<and> self_signed X q \<and>
      (jt_bind_peer_id (rj_token q) = [] \<or> jt_bind_peer_id (rj_token q) = rj_peer_id q) \<and> token_valid X a (rj_token q) now c net allowed) \<and>
    (\<forall>q' b. raft_join_signing_bytes X q = Inr b \<and> raft_join_signing_bytes X q' = Inr b \<longrightarrow>
       q' = q\<lparr>rj_op := rj_op q', rj_edge_peer := rj_edge_peer q', rj_sig := rj_sig q'\<rparr>) \<and>
    (\<forall>t t' b. token_signing_bytes X t = Inr b \<and> token_signing_bytes X t' = Inr b \<longrightarrow> t' = t\<lparr>jt_sig := jt_sig t'\<rparr>)"
proof (intro conjI allI impI)
  show "raft_join_verify X q a c net now allowed = Inr () \<longleftrightarrow> well_addressed X q c net now \<and> self_signed X q \<and>
      (jt_bind_peer_id (rj_token q) = [] \<or> jt_bind_peer_id (rj_token q) = rj_peer_id q) \<and> token_valid X a (rj_token q) now c net allowed"
    unfolding verify_join_token_iff [symmetric] using node_id_nonzero [of X "rj_peer_id q"]
    by (auto simp: raft_join_verify_def well_addressed_def self_signed_def sig_bytes_ok_def parse_identity_def parse_x25519_def
        split: if_splits sum.splits option.splits)
next
  fix q' b
  assume "raft_join_signing_bytes X q = Inr b \<and> raft_join_signing_bytes X q' = Inr b"
  then show "q' = q\<lparr>rj_op := rj_op q', rj_edge_peer := rj_edge_peer q', rj_sig := rj_sig q'\<rparr>"
    using raft_join_signing_inject [OF assms, of "q\<lparr>rj_op := rj_op q'\<rparr>" b q'] by (simp add: raft_join_signing_bytes_def)
next
  fix t t' b
  assume "token_signing_bytes X t = Inr b \<and> token_signing_bytes X t' = Inr b"
  then show "t' = t\<lparr>jt_sig := jt_sig t'\<rparr>"
    using token_signing_bytes_inject [OF assms, of t b t' "jt_sig t'"] by simp
qed

theorem raft_join_admission_witness:
  "\<exists>t q. raft_join_sign demo_ext (identity_from_seed demo_ext demo_sk) (demo_join t) = Inr q \<and> self_signed demo_ext q \<and>
     token_valid demo_ext demo_verifier (rj_token q) 1000 ''c'' ''net'' []"
proof -
  obtain t q where q: "raft_join_sign demo_ext (identity_from_seed demo_ext demo_sk) (demo_join t) = Inr q"
      "raft_join_verify demo_ext q demo_verifier ''c'' ''net'' 1000 [] = Inr ()"
    using demo_join_ok by blast
  show ?thesis
    using raft_join_admission [OF demo_laws(5), of q demo_verifier "''c''" "''net''" 1000 "[]"] q by blast
qed

text \<open>
  An invited node can join. A request that a node with the derived id makes with a token a root key issued for
  it, signed with its own identity, is accepted by every member that has the root key, while the token
  and the time stamp are valid.
\<close>

theorem raft_join_accepted:
  assumes "sig_law X" "b64url_law X" "b64_law X" "cbor_law X" "key_len_law X"
    and "sign_join_token X rootkey tk = Inr t" "bt_get (av_keys a) (jt_kid tk) = Some (x_ed_pub X rootkey, Root)"
    and "jt_v tk = 1" "\<not> is_blank (jt_jti tk)" "jt_cluster_id tk = c" "jt_network tk = net" "jt_expires_at tk \<noteq> 0"
    "now \<le> jt_expires_at tk" "jt_max_uses tk \<noteq> 0" "jt_audience tk = ''auth'' \<or> jt_audience tk \<in> set allowed \<and> jt_audience tk \<noteq> []"
    and "jt_bind_peer_id tk = [] \<or> jt_bind_peer_id tk = p" "is_valid_peer_id X p"
    and "length seed = 32" "length xseed = 32" "nonce \<noteq> []" "length nonce \<le> 128" "abs_diff now ts \<le> 300"
  defines "q \<equiv> \<lparr>rj_op = RAFT_JOIN_OP, rj_v = RAFT_JOIN_VERSION, rj_cluster_id = c, rj_network = net, rj_token = t,
      rj_node_id = node_id_from_peer_id X p, rj_peer_id = p, rj_identity_key = ik_public_key_b64 (identity_from_seed X seed),
      rj_x25519_key = x_b64 X (x_dh_pub X xseed), rj_nonce = nonce, rj_ts = ts, rj_edge_peer = [], rj_sig = []\<rparr>"
  shows "\<exists>q'. raft_join_sign X (identity_from_seed X seed) q = Inr q' \<and> raft_join_verify X q' a c net now allowed = Inr ()"
  unfolding q_def by (rule invited_join_verifies [OF assms(1-22)])

theorem raft_join_accepted_witness:
  "\<exists>t q. sign_join_token demo_ext demo_sk demo_invite = Inr t \<and>
     raft_join_sign demo_ext (identity_from_seed demo_ext demo_sk) (demo_join t) = Inr q \<and>
     raft_join_verify demo_ext q demo_verifier ''c'' ''net'' 1000 [] = Inr ()"
proof -
  obtain t where t: "sign_join_token demo_ext demo_sk demo_invite = Inr t"
    using demo_invite_signed by blast
  show ?thesis
    using raft_join_accepted [where X = demo_ext and rootkey = demo_sk and tk = demo_invite and a = demo_verifier and c = "''c''"
      and net = "''net''" and now = 1000 and allowed = "[]" and p = "''p''" and seed = demo_sk and xseed = demo_sk
      and nonce = "''n''" and ts = 1000 and t = t] t demo_invite_facts
    by (auto simp: demo_join_def abs_diff_def)
qed


end
