(* ===== verification/Config.thy ===== *)
theory Config
  imports Store Admin_V2
begin

text \<open>
  \<open>src/paths.rs\<close>, \<open>src/config.rs\<close> and \<open>src/security.rs\<close>: where the files are, how the configuration is loaded (and a broken one
  put aside), and the audit of file permissions at the start. The TOML parser and printer are arguments.
\<close>

unbundle bit_operations_syntax

section \<open>Paths\<close>

fun split_on :: "char \<Rightarrow> string \<Rightarrow> string list" where
  "split_on c [] = [[]]"
| "split_on c (x # xs) =
     (case split_on c xs of
        w # ws \<Rightarrow> if x = c then [] # w # ws else (x # w) # ws
      | [] \<Rightarrow> [[]])"

text \<open>A path text as the file it names: its components without empty ones and dots; an absolute path starts with the root.\<close>

definition components :: "string \<Rightarrow> string list" where
  "components s = (if take 1 s = ''/'' then [''/''] else [])
     @ filter (\<lambda>w. w \<noteq> [] \<and> w \<noteq> ''.'') (split_on (CHR ''/'') s)"

definition path_of :: "string \<Rightarrow> path" where
  "path_of s = (let cs = components s in if cs = [] then ([], []) else (butlast cs, last cs))"

definition join_path :: "string \<Rightarrow> string \<Rightarrow> string" where
  "join_path home name = home @ ''/'' @ name"

type_synonym process_env = "string \<Rightarrow> string option"

definition env_path :: "process_env \<Rightarrow> string \<Rightarrow> string option" where
  "env_path ev key = (case ev key of None \<Rightarrow> None | Some v \<Rightarrow> if v = [] then None else Some v)"

text \<open>The variable itself, then the home directory, then the current directory.\<close>

definition file_path :: "process_env \<Rightarrow> string \<Rightarrow> string \<Rightarrow> string" where
  "file_path ev key name =
     (case env_path ev key of
        Some p \<Rightarrow> p
      | None \<Rightarrow> (case env_path ev ''NEXUSAUTH_HOME'' of Some home \<Rightarrow> join_path home name | None \<Rightarrow> ''./'' @ name))"

definition config_path :: "process_env \<Rightarrow> string" where
  "config_path ev = file_path ev ''NEXUSAUTH_CONFIG'' ''config.toml''"

definition log_path :: "process_env \<Rightarrow> string" where
  "log_path ev =
     (case env_path ev ''NEXUSAUTH_LOG_PATH'' of
        Some p \<Rightarrow> p
      | None \<Rightarrow> (case env_path ev ''NEXUSAUTH_HOME'' of Some home \<Rightarrow> home | None \<Rightarrow> ''./''))"

definition authority_key_path :: "process_env \<Rightarrow> string" where
  "authority_key_path ev = file_path ev ''NEXUSAUTH_AUTHORITY_KEY'' ''authority.key''"

definition state_path :: "process_env \<Rightarrow> string" where
  "state_path ev = file_path ev ''NEXUSAUTH_STATE'' ''auth_state.toml''"

definition raft_identity_key_path :: "process_env \<Rightarrow> string" where
  "raft_identity_key_path ev = file_path ev ''NEXUSAUTH_RAFT_IDENTITY'' ''raft_identity.key''"

definition raft_seed_exchange_key_path :: "process_env \<Rightarrow> string" where
  "raft_seed_exchange_key_path ev = file_path ev ''NEXUSAUTH_RAFT_SEED_KEY'' ''raft_seed_exchange.key''"

definition raft_data_path :: "process_env \<Rightarrow> string" where
  "raft_data_path ev = file_path ev ''NEXUSAUTH_RAFT_DATA'' ''raft.redb''"

section \<open>The configuration\<close>

record cluster_member_config =
  cm_peer_id :: string
  cm_identity_key :: string

record cluster_config =
  cc_enabled :: bool
  cc_cluster_id :: string
  cc_bootstrap :: bool
  cc_identity_key_path :: string
  cc_data_path :: string
  cc_seed_exchange_key_path :: string
  cc_join_token :: string
  cc_join_token_path :: string
  cc_heartbeat_interval_ms :: u64
  cc_election_timeout_min_ms :: u64
  cc_election_timeout_max_ms :: u64
  cc_voters :: "cluster_member_config list"
  cc_learners :: "cluster_member_config list"

definition cluster_config_default :: "process_env \<Rightarrow> cluster_config" where
  "cluster_config_default ev = \<lparr>cc_enabled = False, cc_cluster_id = ''nexusauth'', cc_bootstrap = False,
     cc_identity_key_path = raft_identity_key_path ev, cc_data_path = raft_data_path ev,
     cc_seed_exchange_key_path = raft_seed_exchange_key_path ev, cc_join_token = [], cc_join_token_path = [],
     cc_heartbeat_interval_ms = 500, cc_election_timeout_min_ms = 1500, cc_election_timeout_max_ms = 3000,
     cc_voters = [], cc_learners = []\<rparr>"

record service_config =
  sc_service :: string
  sc_port :: u32
  sc_network :: string
  sc_authority_key_path :: string
  sc_state_path :: string
  sc_expires_secs :: u64
  sc_renew_secs :: u64
  sc_management_password :: string
  sc_services :: "(string, string list) btmap"
  sc_join_mode :: string
  sc_join_timeout_secs :: u64
  sc_join_retry_secs :: u64
  sc_allow_join :: bool
  sc_cluster :: cluster_config
  sc_admin_keys :: "admin_key_config list"

definition service_config_default :: "process_env \<Rightarrow> service_config" where
  "service_config_default ev = \<lparr>sc_service = ''auth'', sc_port = 5100, sc_network = [],
     sc_authority_key_path = authority_key_path ev, sc_state_path = state_path ev, sc_expires_secs = 3600,
     sc_renew_secs = 1200, sc_management_password = [], sc_services = bt_empty, sc_join_mode = ''require'',
     sc_join_timeout_secs = 30, sc_join_retry_secs = 5, sc_allow_join = False, sc_cluster = cluster_config_default ev,
     sc_admin_keys = []\<rparr>"

definition initial_members :: "service_config \<Rightarrow> (string, string list) btmap" where
  "initial_members c = sc_services c"

text \<open>A parsed TOML value; \<open>get\<close> of a value that is no table is absent.\<close>

definition toml_get :: "sval \<Rightarrow> string \<Rightarrow> sval option" where
  "toml_get v k = (case v of SMap fs \<Rightarrow> map_of fs k | _ \<Rightarrow> None)"

datatype legacy_error = LegacyField string | LegacyMember string nat

fun legacy_members :: "string \<Rightarrow> nat \<Rightarrow> sval list \<Rightarrow> legacy_error + unit" where
  "legacy_members table i [] = Inr ()"
| "legacy_members table i (m # ms) =
     (if toml_get m ''node_id'' \<noteq> None then Inl (LegacyMember table (i + 1)) else legacy_members table (i + 1) ms)"

definition legacy_table :: "sval \<Rightarrow> string \<Rightarrow> legacy_error + unit" where
  "legacy_table cluster table = (case toml_get cluster table of Some (SSeq ms) \<Rightarrow> legacy_members table 0 ms | _ \<Rightarrow> Inr ())"

definition validate_legacy_fields :: "(string \<Rightarrow> sval option) \<Rightarrow> string \<Rightarrow> legacy_error + unit" where
  "validate_legacy_fields parse content =
     (case parse content of
        None \<Rightarrow> Inr ()
      | Some v \<Rightarrow>
          if toml_get v ''join_service'' \<noteq> None then Inl (LegacyField ''join_service'')
          else if toml_get v ''join_peers'' \<noteq> None then Inl (LegacyField ''join_peers'')
          else (case toml_get v ''cluster'' of
             None \<Rightarrow> Inr ()
           | Some cluster \<Rightarrow>
               if toml_get cluster ''service'' \<noteq> None then Inl (LegacyField ''[cluster].service'')
               else if toml_get cluster ''node_id'' \<noteq> None then Inl (LegacyField ''[cluster].node_id'')
               else (case legacy_table cluster ''voters'' of
                  Inl e \<Rightarrow> Inl e
                | Inr _ \<Rightarrow> legacy_table cluster ''learners'')))"

definition config_validate :: "service_config \<Rightarrow> bool" where
  "config_validate c \<longleftrightarrow> \<not> is_blank (sc_service c)"

section \<open>Loading\<close>

function decimal :: "nat \<Rightarrow> string" where
  "decimal n = (if n < 10 then [char_of (48 + n)] else decimal (n div 10) @ [char_of (48 + n mod 10)])"
  by auto

termination
  by (relation "measure id") auto

declare decimal.simps [simp del]

definition path_exists :: "fs \<Rightarrow> path \<Rightarrow> bool" where
  "path_exists s p \<longleftrightarrow> fs_files s p \<noteq> None \<or> fs_dirs s (fst p @ [snd p])"

text \<open>\<open>Display\<close> of an \<open>i32\<close>.\<close>

definition decimal_i32 :: "u32 \<Rightarrow> string" where
  "decimal_i32 c = (if sint c < 0 then ''-'' @ decimal (nat (- sint c)) else decimal (nat (sint c)))"

text \<open>
  The search for a free backup name: \<open>bak\<close>, then \<open>bak.1\<close>, \<open>bak.2\<close>, ...; \<open>None\<close> when it never ends. The counter is an
  \<open>i32\<close>, which wraps as in a release build: after \<open>bak.2147483647\<close> comes \<open>bak.-2147483648\<close>.
\<close>

partial_function (option) free_backup :: "fs \<Rightarrow> path \<Rightarrow> path \<Rightarrow> u32 \<Rightarrow> path option" where
  "free_backup s p backup counter =
     (if path_exists s backup then free_backup s p (with_extension p (''bak.'' @ decimal_i32 counter)) (counter + 1)
      else Some backup)"

definition rename_bad_config :: "io \<Rightarrow> path \<Rightarrow> fs \<Rightarrow> ((io_error + unit) \<times> fs) option" where
  "rename_bad_config e p s =
     (case free_backup s p (with_extension p ''bak'') 1 of
        None \<Rightarrow> None
      | Some backup \<Rightarrow> Some (fs_rename e p backup s))"

definition ensure_private :: "io \<Rightarrow> path \<Rightarrow> fs \<Rightarrow> fs" where
  "ensure_private e p s = snd (set_permissions e p 0x180 s)"

datatype load_result = Loaded service_config | ExitProcess

record toml =
  tm_value :: "string \<Rightarrow> sval option"
  tm_config :: "string \<Rightarrow> service_config option"
  tm_print :: "service_config \<Rightarrow> string option"

definition write_default :: "toml \<Rightarrow> process_env \<Rightarrow> io \<Rightarrow> path \<Rightarrow> fs \<Rightarrow> load_result \<times> fs" where
  "write_default T ev e p s =
     (let c = service_config_default ev in
      case tm_print T c of
        None \<Rightarrow> (ExitProcess, s)
      | Some b \<Rightarrow>
          (case atomic_write e p b (Some 0x180) s of
             (Inl _, s') \<Rightarrow> (ExitProcess, s')
           | (Inr _, s') \<Rightarrow> (Loaded c, s')))"

text \<open>\<open>None\<close>: the search for a backup name does not end.\<close>

definition from_toml_file ::
  "toml \<Rightarrow> process_env \<Rightarrow> io \<Rightarrow> path \<Rightarrow> bool \<Rightarrow> fs \<Rightarrow> (load_result \<times> fs) option" where
  "from_toml_file T ev e p create_if_missing s =
     (if \<not> create_if_missing \<and> \<not> path_exists s p then Some (Loaded (service_config_default ev), s)
      else (case read_to_string e p s of
         Inr content \<Rightarrow>
           (case validate_legacy_fields (tm_value T) content of
              Inl _ \<Rightarrow> Some (ExitProcess, s)
            | Inr _ \<Rightarrow>
                (case tm_config T content of
                   Some c \<Rightarrow> if config_validate c then Some (Loaded c, ensure_private e p s) else Some (ExitProcess, s)
                 | None \<Rightarrow>
                     (case rename_bad_config e p s of
                        None \<Rightarrow> None
                      | Some (Inl _, s') \<Rightarrow> Some (ExitProcess, s')
                      | Some (Inr _, s') \<Rightarrow> Some (write_default T ev e p s'))))
       | Inl Io_NotFound \<Rightarrow> Some (write_default T ev e p s)
       | Inl _ \<Rightarrow> Some (ExitProcess, s)))"

definition save_to_file :: "toml \<Rightarrow> io \<Rightarrow> path \<Rightarrow> service_config \<Rightarrow> fs \<Rightarrow> bool \<times> fs" where
  "save_to_file T e p c s =
     (case tm_print T c of
        None \<Rightarrow> (False, s)
      | Some b \<Rightarrow> (case atomic_write e p b (Some 0x180) s of (Inl _, s') \<Rightarrow> (False, s') | (Inr _, s') \<Rightarrow> (True, s')))"

section \<open>The audit of permissions\<close>

record permission_issue =
  pi_label :: string
  pi_path :: string
  pi_mode :: u32
  pi_expected :: string

text \<open>What \<open>symlink_metadata\<close> tells: whether the path is a symbolic link, and its mode.\<close>

definition check_private_path :: "(string \<Rightarrow> (bool \<times> u32) option) \<Rightarrow> string \<Rightarrow> string \<Rightarrow> bool \<Rightarrow> permission_issue option" where
  "check_private_path st p label directory =
     (case st p of
        None \<Rightarrow> None
      | Some (symlink, m) \<Rightarrow>
          if symlink then None
          else let mode = m AND 0x1FF in
            if mode AND 0x3F = 0 then None
            else Some \<lparr>pi_label = label, pi_path = p, pi_mode = mode, pi_expected = (if directory then ''0700'' else ''0600'')\<rparr>)"

definition sensitive_paths :: "process_env \<Rightarrow> (string \<Rightarrow> bool) \<Rightarrow> service_config \<Rightarrow> (string \<times> string \<times> bool) list" where
  "sensitive_paths ev is_dir c =
     (let k = sc_cluster c in
      [(config_path ev, ''config'', False), (sc_authority_key_path c, ''authority_key'', False), (sc_state_path c, ''state'', False)]
      @ (if cc_enabled k
         then [(cc_identity_key_path k, ''raft_identity_key'', False),
               (cc_seed_exchange_key_path k, ''raft_seed_exchange_key'', False),
               (cc_data_path k, ''raft_data'', is_dir (cc_data_path k))]
         else []))"

definition audit_config :: "process_env \<Rightarrow> (string \<Rightarrow> (bool \<times> u32) option) \<Rightarrow> (string \<Rightarrow> bool) \<Rightarrow> service_config \<Rightarrow> permission_issue list" where
  "audit_config ev st is_dir c =
     concat (map (\<lambda>(p, label, directory). case check_private_path st p label directory of None \<Rightarrow> [] | Some i \<Rightarrow> [i])
       (sensitive_paths ev is_dir c))"

section \<open>Lemmas\<close>

definition undecimal :: "string \<Rightarrow> nat" where
  "undecimal w = fold (\<lambda>c n. 10 * n + (of_char c - 48)) w 0"

lemma undecimal_snoc: "undecimal (w @ [c]) = 10 * undecimal w + (of_char c - 48)"
  by (simp add: undecimal_def)

lemma undecimal_decimal: "undecimal (decimal n) = n"
proof (induction n rule: decimal.induct)
  case (1 n)
  show ?case
  proof (cases "n < 10")
    case True
    then show ?thesis
      by (simp add: decimal.simps [of n] undecimal_def)
  next
    case False
    have "decimal n = decimal (n div 10) @ [char_of (48 + n mod 10)]"
      using False by (simp add: decimal.simps [of n])
    then show ?thesis
      using 1 [OF False] by (simp add: undecimal_snoc)
  qed
qed

lemma decimal_no_sign: "CHR ''-'' \<notin> set (decimal n)"
proof (induction n rule: decimal.induct)
  case (1 n)
  have digit: "char_of (48 + d) \<noteq> CHR ''-''" if "d < 10" for d :: nat
  proof
    assume "char_of (48 + d) = CHR ''-''"
    then have "of_char (char_of (48 + d) :: char) = (of_char (CHR ''-'') :: nat)"
      by simp
    with that show False by simp
  qed
  show ?case
    using 1 digit [of n] digit [of "n mod 10"] by (simp add: decimal.simps [of n] not_sym)
qed

lemma inj_decimal_i32: "decimal_i32 c = decimal_i32 d \<longleftrightarrow> c = d"
proof
  assume eq: "decimal_i32 c = decimal_i32 d"
  have sign: "CHR ''-'' \<in> set (decimal_i32 a) \<longleftrightarrow> sint a < 0" for a
    by (simp add: decimal_i32_def decimal_no_sign)
  have "sint c < 0 \<longleftrightarrow> sint d < 0"
    using sign [of c] sign [of d] eq by simp
  then have "sint c = sint d"
  proof (cases "sint c < 0")
    case True
    with \<open>sint c < 0 \<longleftrightarrow> sint d < 0\<close> have "decimal (nat (- sint c)) = decimal (nat (- sint d))"
      using eq by (simp add: decimal_i32_def)
    from arg_cong [OF this, of undecimal] show ?thesis
      using True \<open>sint c < 0 \<longleftrightarrow> sint d < 0\<close> unfolding undecimal_decimal by linarith
  next
    case False
    with \<open>sint c < 0 \<longleftrightarrow> sint d < 0\<close> have "decimal (nat (sint c)) = decimal (nat (sint d))"
      using eq by (simp add: decimal_i32_def)
    from arg_cong [OF this, of undecimal] show ?thesis
      using False \<open>sint c < 0 \<longleftrightarrow> sint d < 0\<close> unfolding undecimal_decimal by linarith
  qed
  then show "c = d"
    by (simp add: signed_word_eqI)
qed simp

lemma inj_backup: "inj (\<lambda>c. with_extension p (''bak.'' @ decimal_i32 c))"
  by (rule injI) (simp add: with_extension_def inj_decimal_i32)

lemma free_backup_step:
  assumes "\<not> path_exists s (with_extension p (''bak.'' @ decimal_i32 (c + of_nat k)))"
  shows "\<exists>j. free_backup s p (with_extension p (''bak.'' @ decimal_i32 c)) (c + 1) = Some (with_extension p (''bak.'' @ decimal_i32 j)) \<and>
    \<not> path_exists s (with_extension p (''bak.'' @ decimal_i32 j))"
  using assms
proof (induction k arbitrary: c)
  case 0
  then show ?case
    by (subst free_backup.simps) auto
next
  case (Suc k)
  then show ?case
    using Suc.IH [of "c + 1"] by (subst free_backup.simps) (auto simp: add.assoc)
qed

text \<open>A backup name, and one that is free: there are \<open>2 ^ 32\<close> of them.\<close>

definition backup_name :: "path \<Rightarrow> path \<Rightarrow> bool" where
  "backup_name p q \<longleftrightarrow> (\<exists>w. q = with_extension p (''bak'' @ w))"

lemma free_counter:
  assumes "finite {q. path_exists s q}" "card {q. path_exists s q} < 2 ^ 32"
  shows "\<exists>c. \<not> path_exists s (with_extension p (''bak.'' @ decimal_i32 c))"
proof (rule ccontr)
  assume "\<nexists>c. \<not> path_exists s (with_extension p (''bak.'' @ decimal_i32 c))"
  then have "range (\<lambda>c. with_extension p (''bak.'' @ decimal_i32 c)) \<subseteq> {q. path_exists s q}"
    by auto
  then have "card (range (\<lambda>c :: u32. with_extension p (''bak.'' @ decimal_i32 c))) \<le> card {q. path_exists s q}"
    using assms(1) by (rule card_mono [rotated])
  moreover have "card (range (\<lambda>c :: u32. with_extension p (''bak.'' @ decimal_i32 c))) = 2 ^ 32"
    using card_image [OF inj_backup, of p] by (simp add: card_word)
  ultimately show False
    using assms(2) by simp
qed

lemma free_backup_ends:
  assumes "finite {q. path_exists s q}" "card {q. path_exists s q} < 2 ^ 32"
  shows "\<exists>q. free_backup s p (with_extension p ''bak'') 1 = Some q \<and> \<not> path_exists s q \<and> backup_name p q"
proof (cases "path_exists s (with_extension p ''bak'')")
  case True
  obtain c where "\<not> path_exists s (with_extension p (''bak.'' @ decimal_i32 c))"
    using free_counter [OF assms] by blast
  then have "\<not> path_exists s (with_extension p (''bak.'' @ decimal_i32 (1 + of_nat (unat (c - 1)))))"
    by simp
  from free_backup_step [OF this] obtain j where
    j: "free_backup s p (with_extension p (''bak.'' @ decimal_i32 1)) 2 = Some (with_extension p (''bak.'' @ decimal_i32 j))"
      "\<not> path_exists s (with_extension p (''bak.'' @ decimal_i32 j))"
    by auto
  moreover have "backup_name p (with_extension p (''bak.'' @ decimal_i32 j))"
    unfolding backup_name_def by (rule exI [of _ "''.'' @ decimal_i32 j"]) simp
  ultimately show ?thesis
    using True by (subst free_backup.simps) auto
next
  case False
  moreover have "backup_name p (with_extension p ''bak'')"
    unfolding backup_name_def by (rule exI [of _ "[]"]) simp
  ultimately show ?thesis
    by (subst free_backup.simps) auto
qed

lemma backup_not_temp: "backup_name p q \<Longrightarrow> q \<noteq> with_extension p ''tmp''"
  by (auto simp: backup_name_def with_extension_def)

lemma write_default_frame: "q \<noteq> p \<Longrightarrow> q \<noteq> with_extension p ''tmp'' \<Longrightarrow> fs_files (snd (write_default T ev e p s)) q = fs_files s q"
  using atomic_write_frame [of q p e] by (auto simp: write_default_def Let_def split: option.split prod.split sum.split)
    (metis snd_conv)+

text \<open>The contents of a file are kept, in place or under a name that was free.\<close>

definition data_kept :: "path \<Rightarrow> fs \<Rightarrow> fs \<Rightarrow> bool" where
  "data_kept p s s' \<longleftrightarrow> (\<forall>f. fs_files s p = Some f \<longrightarrow>
     (\<exists>q. map_option f_data (fs_files s' q) = Some (f_data f) \<and> (q = p \<or> \<not> path_exists s q)))"

definition others_kept :: "path \<Rightarrow> fs \<Rightarrow> fs \<Rightarrow> bool" where
  "others_kept p s s' \<longleftrightarrow>
     (\<forall>q. path_exists s q \<and> q \<noteq> p \<and> q \<noteq> with_extension p ''tmp'' \<longrightarrow> fs_files s' q = fs_files s q)"

lemma data_keptI:
  "map_option f_data (fs_files s' q) = map_option f_data (fs_files s p) \<Longrightarrow> q = p \<or> \<not> path_exists s q \<Longrightarrow> data_kept p s s'"
  unfolding data_kept_def by (intro allI impI exI [of _ q]) simp

lemma data_kept_refl: "data_kept p s s"
  by (rule data_keptI [of _ p]) simp_all

lemma data_kept_in_place: "map_option f_data (fs_files s' p) = map_option f_data (fs_files s p) \<Longrightarrow> data_kept p s s'"
  by (rule data_keptI [of _ p]) simp_all

lemma others_kept_refl: "others_kept p s s"
  by (simp add: others_kept_def)

lemma ensure_private_keeps:
  "map_option f_data (fs_files (ensure_private e p s) p) = map_option f_data (fs_files s p) \<and> others_kept p s (ensure_private e p s)"
  by (auto simp: ensure_private_def set_permissions_def others_kept_def simp del: split_paired_All split: option.split)

text \<open>A broken file is put aside under a free name, then the default is written.\<close>

lemma replaced_keeps:
  assumes "fs_rename e p q s = (r, s1)" "\<not> path_exists s q" "backup_name p q" "fs_files s p = Some f"
    and "s' = s1 \<or> r = Inr () \<and> s' = snd (write_default T ev e p s1)"
  shows "data_kept p s s' \<and> others_kept p s s'"
proof -
  have qp: "q \<noteq> p"
    using assms(2,4) by (auto simp: path_exists_def)
  have same: "fs_files s' z = fs_files s1 z" if "z \<noteq> p" "z \<noteq> with_extension p ''tmp''" for z
    using assms(5) write_default_frame [OF that] by auto
  show ?thesis
  proof (cases "io_rename e")
    case None
    then have s1: "s1 = s\<lparr>fs_files := (fs_files s)(p := None, q := Some f)\<rparr>"
      using assms(1,4) by (simp add: fs_rename_def)
    have "fs_files s' q = Some f"
      using same [OF qp backup_not_temp [OF assms(3)]] by (simp add: s1)
    then have "data_kept p s s'"
      using assms(2,4) by (intro data_keptI [of _ q]) simp_all
    moreover have "others_kept p s s'"
      using same assms(2) by (auto simp: others_kept_def s1 simp del: split_paired_All)
    ultimately show ?thesis ..
  next
    case (Some x)
    then have "s' = s"
      using assms(1,5) by (auto simp: fs_rename_def)
    then show ?thesis
      by (simp add: data_kept_refl others_kept_refl)
  qed
qed

lemma fresh_default_keeps:
  assumes "fs_files s p = None"
  shows "data_kept p s (snd (write_default T ev e p s)) \<and> others_kept p s (snd (write_default T ev e p s))"
  using assms write_default_frame [of _ p T ev e s] by (simp add: data_kept_def others_kept_def del: split_paired_All)

text \<open>
  C25: Loading the configuration ends and loses nothing. In a file system of fewer than \<open>2 ^ 32\<close> files and directories the search for a
  backup name ends, although its counter may wrap; whatever the file holds and whichever disk operations fail, its contents are
  afterwards still there, in place or under a name that was free before, and no other file that was there changes but the
  temporary file \<open>.tmp\<close> beside it, which \<open>atomic_write\<close> takes over. (Reading the file does not fail with \<open>NotFound\<close> when it
  is there.)
\<close>

theorem config_load_total:
  assumes "finite {q. path_exists s q}" "card {q. path_exists s q} < 2 ^ 32"
    and "fs_files s p \<noteq> None \<longrightarrow> io_read e \<noteq> Some Io_NotFound"
  shows "\<exists>r s'. from_toml_file T ev e p create s = Some (r, s') \<and> data_kept p s s' \<and> others_kept p s s'"
proof (cases "\<not> create \<and> \<not> path_exists s p")
  case True
  then show ?thesis
    by (simp add: from_toml_file_def data_kept_refl others_kept_refl)
next
  case False
  show ?thesis
  proof (cases "read_to_string e p s")
    case (Inl x)
    have "x = Io_NotFound \<Longrightarrow> fs_files s p = None"
      using Inl assms(3) by (auto simp: read_to_string_def fs_read_def split: option.splits if_splits sum.splits)
    then show ?thesis
      using False Inl fresh_default_keeps [of s p T ev e]
      by (cases "write_default T ev e p s"; cases x) (auto simp: from_toml_file_def data_kept_refl others_kept_refl)
  next
    case (Inr content)
    then obtain f where f: "fs_files s p = Some f"
      by (auto simp: read_to_string_def fs_read_def split: option.splits sum.splits)
    obtain q where q: "free_backup s p (with_extension p ''bak'') 1 = Some q" "\<not> path_exists s q" "backup_name p q"
      using free_backup_ends [OF assms(1,2)] by blast
    obtain r s1 where r: "fs_rename e p q s = (r, s1)"
      by (cases "fs_rename e p q s")
    have kept: "s' = s1 \<or> r = Inr () \<and> s' = snd (write_default T ev e p s1) \<Longrightarrow> data_kept p s s' \<and> others_kept p s s'" for s'
      using replaced_keeps [OF r q(2,3) f] by blast
    obtain r2 s2 where w: "write_default T ev e p s1 = (r2, s2)"
      by (cases "write_default T ev e p s1")
    show ?thesis
      using False Inr q(1) r w kept [of s1] kept [of s2] ensure_private_keeps [of e p s]
      by (cases r) (auto simp: from_toml_file_def rename_bad_config_def data_kept_refl others_kept_refl data_kept_in_place
          split: sum.split option.split)
  qed
qed

text \<open>A configuration that does not parse.\<close>

definition demo_broken :: fs where
  "demo_broken = demo_fs\<lparr>fs_files := [([''etc''], ''config.toml'') \<mapsto> \<lparr>f_data = ''broken'', f_mode = 0x180\<rparr>]\<rparr>"

theorem config_load_total_witness:
  "\<exists>r s'. from_toml_file \<lparr>tm_value = Map.empty, tm_config = Map.empty, tm_print = (\<lambda>_. Some ''default'')\<rparr> Map.empty io_fine
      ([''etc''], ''config.toml'') True demo_broken = Some (r, s') \<and>
     data_kept ([''etc''], ''config.toml'') demo_broken s' \<and> others_kept ([''etc''], ''config.toml'') demo_broken s'"
proof (rule config_load_total)
  have "{q. path_exists demo_broken q} = {([''etc''], ''config.toml'')}"
    by (auto simp: path_exists_def demo_broken_def demo_fs_def split: if_splits)
  then show "finite {q. path_exists demo_broken q}" "card {q. path_exists demo_broken q} < 2 ^ 32" by simp_all
  show "fs_files demo_broken ([''etc''], ''config.toml'') \<noteq> None \<longrightarrow> io_read io_fine \<noteq> Some Io_NotFound"
    by (simp add: io_fine_def)
qed

section \<open>What the audit reports\<close>

text \<open>A path is reported exactly when it exists, is no link and group or others have some permission on it.\<close>

lemma low_bits: "(m AND 0x1FF) AND 0x3F = (0 :: u32) \<longleftrightarrow> (\<forall>b < 6. \<not> bit m b)"
proof -
  have "(m AND 0x1FF) AND 0x3F = take_bit 6 m"
    by (simp add: and.assoc take_bit_eq_mask mask_eq_decr_exp)
  then show ?thesis
    by (auto simp: bit_eq_iff bit_take_bit_iff)
qed

lemma check_private_path_iff:
  "check_private_path st p label directory \<noteq> None \<longleftrightarrow> (\<exists>m. st p = Some (False, m) \<and> (\<exists>b < 6. bit m b))"
  unfolding check_private_path_def Let_def low_bits by (auto split: option.split)

end
