(* ===== verification/Sidecar.thy ===== *)
theory Sidecar
  imports Seed Join Token Config
begin

text \<open>
  The running process: \<open>src/context.rs\<close>, the shared state of the handlers, and the interfaces to what runs outside it. A
  handler is a function from the state of the process to its result and the next state (\<open>act\<close>). Calls that
  leave the process (openraft, the connections to the node, the clock, the disk) are the functions of a record \<open>env\<close>
  over an environment of any type \<open>'e\<close>; each call may change the environment, so other tasks and nodes can act at
  every await point. What the process asks for is recorded in a trace of events. The parsers that serde
  derives, and the texts of error messages, are a second record \<open>serde\<close>.
\<close>

section \<open>Actions\<close>

type_synonym ('s, 'a) act = "'s \<Rightarrow> 'a \<times> 's"

definition ret :: "'a \<Rightarrow> ('s, 'a) act" where
  "ret a s = (a, s)"

definition seq :: "('s, 'a) act \<Rightarrow> ('a \<Rightarrow> ('s, 'b) act) \<Rightarrow> ('s, 'b) act" where
  "seq m k s = (case m s of (a, s') \<Rightarrow> k a s')"

text \<open>The \<open>?\<close> operator: an error ends the action.\<close>

definition seqE :: "('s, 'x + 'a) act \<Rightarrow> ('a \<Rightarrow> ('s, 'x + 'b) act) \<Rightarrow> ('s, 'x + 'b) act" where
  "seqE m k = seq m (\<lambda>r. case r of Inl x \<Rightarrow> ret (Inl x) | Inr a \<Rightarrow> k a)"

definition fail :: "'x \<Rightarrow> ('s, 'x + 'a) act" where
  "fail x = ret (Inl x)"

definition ok :: "'a \<Rightarrow> ('s, 'x + 'a) act" where
  "ok a = ret (Inr a)"

definition map_err :: "('x \<Rightarrow> 'y) \<Rightarrow> ('s, 'x + 'a) act \<Rightarrow> ('s, 'y + 'a) act" where
  "map_err f m = seq m (\<lambda>r. ret (case r of Inl x \<Rightarrow> Inl (f x) | Inr a \<Rightarrow> Inr a))"

definition gets :: "('s \<Rightarrow> 'a) \<Rightarrow> ('s, 'a) act" where
  "gets f s = (f s, s)"

definition of_opt :: "'x \<Rightarrow> 'a option \<Rightarrow> ('s, 'x + 'a) act" where
  "of_opt x v = (case v of None \<Rightarrow> fail x | Some a \<Rightarrow> ok a)"

definition of_res :: "('y \<Rightarrow> 'x) \<Rightarrow> 'y + 'a \<Rightarrow> ('s, 'x + 'a) act" where
  "of_res f r = (case r of Inl y \<Rightarrow> fail (f y) | Inr a \<Rightarrow> ok a)"

section \<open>The state of the process\<close>

text \<open>One constructor per message of a failed publication.\<close>

datatype publish_error =
    PE_NotAttempted
  | PE_NotReady
  | PE_Renew string
  | PE_Stale u64 u64
  | PE_NoExpiry
  | PE_LostLeader
  | PE_NoSeed
  | PE_WhitelistSign string authority_error
  | PE_Service string authority_error
  | PE_IndexSign authority_error
  | PE_Conn u64 string sidecar_error

record publish_status =
  pb_last_epoch :: "u64 option"
  pb_last_ok :: bool
  pb_last_error :: "publish_error option"
  pb_last_at :: "u64 option"

text \<open>A connection is its registration number; the two flags are the stored permits of the \<open>Notify\<close> objects.\<close>

record publisher =
  pu_clients :: "u64 list"
  pu_publish_notify :: bool
  pu_renew_notify :: bool
  pu_next_id :: u64
  pu_status :: publish_status

record raft_runtime =
  rt_identity :: identity_key
  rt_cluster_id :: string
  rt_node_id :: node_id
  rt_peer_id :: string
  rt_service :: string
  rt_x25519 :: seed_exchange_key

text \<open>\<open>ac_admin_raft\<close> is the trait object of the management side, in production the same runtime as \<open>ac_raft\<close>.\<close>

record auth_context =
  ac_authority :: "authority option"
  ac_authority_key_path :: path
  ac_store :: store
  ac_admin :: admin_auth
  ac_admin_keys :: admin_verifier
  ac_join :: join_server
  ac_replicate :: rep_auth
  ac_publisher :: publisher
  ac_raft :: "raft_runtime option"
  ac_admin_raft :: "raft_runtime option"
  ac_raft_required :: bool
  ac_network :: string
  ac_service_name :: string
  ac_expires_secs :: u64
  ac_renew_secs :: u64

abbreviation has_authority_seed :: "auth_context \<Rightarrow> bool" where
  "has_authority_seed c \<equiv> (ac_authority c \<noteq> None)"

definition ctx_authority :: "ext \<Rightarrow> auth_context \<Rightarrow> authority option" where
  "ctx_authority X c =
     (case ac_authority c of
        None \<Rightarrow> None
      | Some a \<Rightarrow> (case from_seed X (au_key a) (ac_network c) of Inl _ \<Rightarrow> None | Inr b \<Rightarrow> Some b))"

definition authority_seed :: "auth_context \<Rightarrow> bytes option" where
  "authority_seed c = map_option au_key (ac_authority c)"

definition authority_public_key_b64 :: "ext \<Rightarrow> auth_context \<Rightarrow> string option" where
  "authority_public_key_b64 X c = map_option (public_key_b64 X) (ac_authority c)"

definition install_authority :: "authority \<Rightarrow> auth_context \<Rightarrow> auth_context" where
  "install_authority a c = c\<lparr>ac_authority := Some a\<rparr>"

definition clear_authority :: "auth_context \<Rightarrow> auth_context" where
  "clear_authority c = c\<lparr>ac_authority := None\<rparr>"

section \<open>Errors and parsers\<close>

text \<open>The errors of the Raft runtime, which are texts in the source, one constructor per text.\<close>

datatype run_error =
    RE_AlreadyMember node_id
  | RE_IdentityRequired
  | RE_Raft string
  | RE_AlreadyVoter node_id
  | RE_NotLearner node_id
  | RE_NotVoter node_id
  | RE_LastVoter
  | RE_NotMember node_id
  | RE_NoOtherVoter
  | RE_TransferTimeout
  | RE_UnknownTarget node_id
  | RE_Transport transport_error
  | RE_Call sidecar_error
  | RE_Decode
  | RE_Encode
  | RE_NoSeed
  | RE_Seed seed_error
  | RE_Authority authority_error
  | RE_NoCandidate
  | RE_Join raft_join_error
  | RE_JoinRefused string
  | RE_JoinMismatch
  | RE_AllFailed

datatype 'b rpc_body = Vote 'b | AppendEntries 'b | InstallSnapshot 'b | Elect

text \<open>What serde derives for the request and reply types, and the texts of errors.\<close>

record 'b serde =
  z_value :: "bytes \<Rightarrow> sval option"
  z_mgmt :: "sval \<Rightarrow> management_request option"
  z_v2 :: "sval \<Rightarrow> admin_request option"
  z_forwarded :: "bytes \<Rightarrow> forwarded_admin_envelope option"
  z_replicate :: "sval \<Rightarrow> replicate_msg option"
  z_sync :: "sval \<Rightarrow> sync_request option"
  z_join :: "sval \<Rightarrow> join_request option"
  z_raft_join :: "sval \<Rightarrow> raft_join_request option"
  z_seed_delivery :: "sval \<Rightarrow> seed_envelope option"
  z_seed_drop :: "sval \<Rightarrow> seed_drop_request option"
  z_envelope :: "bytes \<Rightarrow> raft_rpc_envelope option"
  z_reply :: "bytes \<Rightarrow> raft_rpc_reply option"
  z_ack :: "bytes \<Rightarrow> seed_ack option"
  z_join_response :: "bytes \<Rightarrow> raft_join_response option"
  z_join_token :: "string \<Rightarrow> join_token option"
  z_body :: "'b rpc_body \<Rightarrow> bytes option"
  z_unbody :: "bytes \<Rightarrow> 'b rpc_body option"
  z_text :: "run_error \<Rightarrow> string"
  z_publish_text :: "publish_error \<Rightarrow> string"

section \<open>What leaves the process\<close>

datatype membership_change = SetVoters "node_id fset" | RemoveNodes "node_id fset"

datatype event =
    Ev_Propose policy_command
  | Ev_AddLearner node_id raft_node bool
  | Ev_ChangeMembership membership_change
  | Ev_AddKey u64 string bytes bool
  | Ev_Send string string bytes
  | Ev_Broadcast string u64 "string list" u64 bool

record 'e node =
  nd_ctx :: auth_context
  nd_verifier :: rpc_verifier
  nd_fs :: fs
  nd_trace :: "event list"
  nd_env :: 'e

datatype server_state = Leader | Follower | Candidate | Learner | Shutdown

record metrics =
  mt_state :: server_state
  mt_term :: u64
  mt_leader :: "node_id option"
  mt_last_applied :: "u64 option"
  mt_last_log :: "u64 option"
  mt_nodes :: "(node_id, raft_node) btmap"
  mt_voters :: "node_id fset"

text \<open>
  openraft and the state machine it drives, the connections, the clock, randomness and the outcomes of disk
  operations. \<open>y_polls\<close> is the number of pauses that fit before a deadline; opening the storage gives the members it holds.
\<close>

record raft_config =
  rc_cluster_name :: string
  rc_heartbeat_interval :: u64
  rc_election_timeout_min :: u64
  rc_election_timeout_max :: u64

record ('e, 'b) env =
  y_now :: "'e \<Rightarrow> u64 \<times> 'e"
  y_uptime :: "'e \<Rightarrow> u64 \<times> 'e"
  y_random :: "'e \<Rightarrow> bytes \<times> 'e"
  y_io :: "'e \<Rightarrow> io \<times> 'e"
  y_remove_io :: "'e \<Rightarrow> io_error option \<times> 'e"
  y_polls :: "'e \<Rightarrow> nat \<times> 'e"
  y_metrics :: "'e \<Rightarrow> metrics \<times> 'e"
  y_policy :: "'e \<Rightarrow> policy_state \<times> 'e"
  y_applied :: "'e \<Rightarrow> u64 option \<times> 'e"
  y_open_storage :: "string \<Rightarrow> string \<Rightarrow> 'e \<Rightarrow> (string + (node_id \<times> raft_node) list) \<times> 'e"
  y_config_ok :: "raft_config \<Rightarrow> string option"
  y_raft_new :: "node_id \<Rightarrow> raft_config \<Rightarrow> 'e \<Rightarrow> (string + unit) \<times> 'e"
  y_initialize :: "(node_id, raft_node) btmap \<Rightarrow> 'e \<Rightarrow> (string + unit) \<times> 'e"
  y_initialized :: "'e \<Rightarrow> (string + bool) \<times> 'e"
  y_client_write :: "policy_command \<Rightarrow> 'e \<Rightarrow> (string + policy_result \<times> u64) \<times> 'e"
  y_add_learner :: "node_id \<Rightarrow> raft_node \<Rightarrow> bool \<Rightarrow> 'e \<Rightarrow> (string + unit) \<times> 'e"
  y_change_membership :: "membership_change \<Rightarrow> 'e \<Rightarrow> (string + unit) \<times> 'e"
  y_rpc :: "'b rpc_body \<Rightarrow> 'e \<Rightarrow> (string + bytes) \<times> 'e"
  y_add_key :: "u64 \<Rightarrow> string \<Rightarrow> bytes \<Rightarrow> 'e \<Rightarrow> (sidecar_error + unit) \<times> 'e"
  y_send :: "string \<Rightarrow> string \<Rightarrow> bytes \<Rightarrow> 'e \<Rightarrow> (sidecar_error + bytes) \<times> 'e"
  y_whoami :: "'e \<Rightarrow> (sidecar_error + string) \<times> 'e"
  y_discover :: "string \<Rightarrow> 'e \<Rightarrow> (sidecar_error + string list) \<times> 'e"

definition call :: "('e \<Rightarrow> 'a \<times> 'e) \<Rightarrow> ('e node, 'a) act" where
  "call f s = (case f (nd_env s) of (a, e) \<Rightarrow> (a, s\<lparr>nd_env := e\<rparr>))"

definition record_event :: "event \<Rightarrow> ('e node, unit) act" where
  "record_event ev s = ((), s\<lparr>nd_trace := nd_trace s @ [ev]\<rparr>)"

text \<open>A call whose request is recorded.\<close>

definition ask :: "event \<Rightarrow> ('e \<Rightarrow> 'a \<times> 'e) \<Rightarrow> ('e node, 'a) act" where
  "ask ev f = seq (record_event ev) (\<lambda>_. call f)"

definition client_write :: "('e, 'b) env \<Rightarrow> policy_command \<Rightarrow> ('e node, string + policy_result \<times> u64) act" where
  "client_write Y c = ask (Ev_Propose c) (y_client_write Y c)"

definition raft_add_learner :: "('e, 'b) env \<Rightarrow> node_id \<Rightarrow> raft_node \<Rightarrow> bool \<Rightarrow> ('e node, string + unit) act" where
  "raft_add_learner Y i n blocking = ask (Ev_AddLearner i n blocking) (y_add_learner Y i n blocking)"

definition raft_change_membership :: "('e, 'b) env \<Rightarrow> membership_change \<Rightarrow> ('e node, string + unit) act" where
  "raft_change_membership Y ch = ask (Ev_ChangeMembership ch) (y_change_membership Y ch)"

definition send_to :: "('e, 'b) env \<Rightarrow> string \<Rightarrow> string \<Rightarrow> bytes \<Rightarrow> ('e node, sidecar_error + bytes) act" where
  "send_to Y service peer payload = ask (Ev_Send service peer payload) (y_send Y service peer payload)"

text \<open>The outcome of publishing one record on one connection is recorded with it.\<close>

definition add_key :: "('e, 'b) env \<Rightarrow> u64 \<Rightarrow> string \<Rightarrow> bytes \<Rightarrow> ('e node, sidecar_error + unit) act" where
  "add_key Y c k v = seq (call (y_add_key Y c k v)) (\<lambda>r. seq (record_event (Ev_AddKey c k v (r = Inr ()))) (\<lambda>_. ret r))"

definition upd_ctx :: "(auth_context \<Rightarrow> auth_context) \<Rightarrow> ('e node, unit) act" where
  "upd_ctx f s = ((), s\<lparr>nd_ctx := f (nd_ctx s)\<rparr>)"

section \<open>Frames\<close>

text \<open>
  A relation between the states before and after an action that is reflexive and transitive holds of a composed action
  when it holds of its parts; so one proof per primitive covers every handler built from them.
\<close>

definition keeps :: "('s \<Rightarrow> 's \<Rightarrow> bool) \<Rightarrow> ('s, 'a) act \<Rightarrow> bool" where
  "keeps R m \<longleftrightarrow> (\<forall>s. R s (snd (m s)))"

lemma keepsD: "keeps R m \<Longrightarrow> m s = (a, t) \<Longrightarrow> R s t"
  by (metis keeps_def snd_conv)

lemma seqE_simp: "seqE m k s = (case m s of (Inl x, t) \<Rightarrow> (Inl x, t) | (Inr a, t) \<Rightarrow> k a t)"
  by (simp add: seqE_def seq_def ret_def split: prod.split sum.split)

lemma map_err_simp: "map_err f m s = (case m s of (Inl x, t) \<Rightarrow> (Inl (f x), t) | (Inr a, t) \<Rightarrow> (Inr a, t))"
  by (simp add: map_err_def seq_def ret_def split: prod.split sum.split)

lemma seqE_InrE:
  assumes "seqE m k s = (Inr b, u)"
  obtains a t where "m s = (Inr a, t)" "k a t = (Inr b, u)"
  using assms by (auto simp: seqE_simp split: prod.splits sum.splits)

lemmas act_defs = seq_def ret_def fail_def ok_def gets_def of_opt_def of_res_def seqE_simp map_err_simp

locale frame =
  fixes R :: "'s \<Rightarrow> 's \<Rightarrow> bool"
  assumes frame_refl: "R s s"
    and frame_trans: "R s t \<Longrightarrow> R t u \<Longrightarrow> R s u"
begin

lemma keeps_seq: "keeps R m \<Longrightarrow> (\<And>a. keeps R (k a)) \<Longrightarrow> keeps R (seq m k)"
  unfolding keeps_def seq_def by (auto split: prod.split intro: frame_trans dest: spec)

lemma keeps_pure:
  "keeps R (ret a)" "keeps R (fail x)" "keeps R (ok a)" "keeps R (gets f)" "keeps R (of_opt x v)" "keeps R (of_res g r)"
  by (simp_all add: keeps_def ret_def fail_def ok_def gets_def of_opt_def of_res_def frame_refl split: option.split sum.split)

lemma keeps_seqE: "keeps R m \<Longrightarrow> (\<And>a. keeps R (k a)) \<Longrightarrow> keeps R (seqE m k)"
  unfolding seqE_def by (rule keeps_seq) (auto intro: keeps_pure split: sum.split)

lemma keeps_map_err: "keeps R m \<Longrightarrow> keeps R (map_err f m)"
  unfolding map_err_def by (rule keeps_seq) (auto intro: keeps_pure)

lemma keeps_if: "(b \<Longrightarrow> keeps R m) \<Longrightarrow> (\<not> b \<Longrightarrow> keeps R m') \<Longrightarrow> keeps R (if b then m else m')"
  by simp

lemma keeps_option: "keeps R m \<Longrightarrow> (\<And>a. v = Some a \<Longrightarrow> keeps R (k a)) \<Longrightarrow> keeps R (case v of None \<Rightarrow> m | Some a \<Rightarrow> k a)"
  by (cases v) simp_all

lemma keeps_sum: "(\<And>a. v = Inl a \<Longrightarrow> keeps R (h a)) \<Longrightarrow> (\<And>a. v = Inr a \<Longrightarrow> keeps R (k a)) \<Longrightarrow> keeps R (case v of Inl a \<Rightarrow> h a | Inr a \<Rightarrow> k a)"
  by (cases v) simp_all

lemma keeps_prod: "(\<And>a b. keeps R (k a b)) \<Longrightarrow> keeps R (case v of (a, b) \<Rightarrow> k a b)"
  by (cases v) simp

lemma keeps_of_res: "(\<And>a. r = Inr a \<Longrightarrow> keeps R (k a)) \<Longrightarrow> keeps R (seqE (of_res f r) k)"
  by (cases r) (simp_all add: of_res_def fail_def ok_def seqE_def seq_def ret_def keeps_def frame_refl)

lemma keeps_of_opt: "(\<And>a. v = Some a \<Longrightarrow> keeps R (k a)) \<Longrightarrow> keeps R (seqE (of_opt x v) k)"
  by (cases v) (simp_all add: of_opt_def fail_def ok_def seqE_def seq_def ret_def keeps_def frame_refl)

lemmas keeps_rules = keeps_pure keeps_seq keeps_seqE keeps_map_err keeps_if keeps_option keeps_sum keeps_prod

end

text \<open>The new events satisfy a predicate, and the mode of the process does not change.\<close>

definition new_events :: "(event \<Rightarrow> bool) \<Rightarrow> 'e node \<Rightarrow> 'e node \<Rightarrow> bool" where
  "new_events P s t \<longleftrightarrow> (\<exists>evs. nd_trace t = nd_trace s @ evs \<and> (\<forall>ev \<in> set evs. P ev))"

interpretation ev_frame: frame "new_events P" for P
proof
  show "new_events P s s" for s :: "'a node"
    by (auto simp: new_events_def)
  show "new_events P s t \<Longrightarrow> new_events P t u \<Longrightarrow> new_events P s u" for s t u :: "'a node"
    unfolding new_events_def by (elim exE conjE) auto
qed

lemma keeps_events_call: "keeps (new_events P) (call f)"
  by (auto simp: keeps_def call_def new_events_def split: prod.split)

lemma keeps_events_upd_ctx: "keeps (new_events P) (upd_ctx f)"
  by (auto simp: keeps_def upd_ctx_def new_events_def)

lemma keeps_events_record: "P ev \<Longrightarrow> keeps (new_events P) (record_event ev)"
  by (auto simp: keeps_def record_event_def new_events_def)

lemma keeps_events_ask: "P ev \<Longrightarrow> keeps (new_events P) (ask ev f)"
  unfolding ask_def by (intro ev_frame.keeps_seq keeps_events_record keeps_events_call)

lemma keeps_events_add_key: "(\<And>b. P (Ev_AddKey c k v b)) \<Longrightarrow> keeps (new_events P) (add_key Y c k v)"
  unfolding add_key_def by (intro ev_frame.keeps_rules keeps_events_call keeps_events_record) 

lemma keeps_events_weaken: "keeps (new_events P) m \<Longrightarrow> (\<And>ev. P ev \<Longrightarrow> Q ev) \<Longrightarrow> keeps (new_events Q) m"
  unfolding keeps_def new_events_def by blast

end
