(* ===== verification/Cluster.thy ===== *)
theory Cluster
  imports Sidecar
begin

text \<open>
  \<open>src/raft/mod.rs\<close>, \<open>src/raft/bootstrap.rs\<close> and \<open>src/raft/network.rs\<close>: the Raft runtime on top of openraft. It starts the node, answers
  queries, changes the membership, hands the authority seed to voters and takes it back, joins a cluster with a
  token and serves the Raft RPCs.
\<close>

section \<open>Queries\<close>

definition is_leader :: "('e, 'b) env \<Rightarrow> ('e node, bool) act" where
  "is_leader Y = seq (call (y_metrics Y)) (\<lambda>m. ret (mt_state m = Leader))"

definition raft_term :: "('e, 'b) env \<Rightarrow> ('e node, u64) act" where
  "raft_term Y = seq (call (y_metrics Y)) (\<lambda>m. ret (mt_term m))"

definition leader_id :: "('e, 'b) env \<Rightarrow> ('e node, node_id option) act" where
  "leader_id Y = seq (call (y_metrics Y)) (\<lambda>m. ret (mt_leader m))"

definition metrics_leader_peer :: "metrics \<Rightarrow> string option" where
  "metrics_leader_peer m =
     (case mt_leader m of None \<Rightarrow> None | Some i \<Rightarrow> map_option rn_peer_id (bt_get (mt_nodes m) i))"

definition leader_peer :: "('e, 'b) env \<Rightarrow> ('e node, string option) act" where
  "leader_peer Y = seq (call (y_metrics Y)) (\<lambda>m. ret (metrics_leader_peer m))"

definition policy_snapshot :: "('e, 'b) env \<Rightarrow> ('e node, policy_state) act" where
  "policy_snapshot Y = call (y_policy Y)"

definition raft_applied_index :: "('e, 'b) env \<Rightarrow> ('e node, u64 option) act" where
  "raft_applied_index Y = call (y_applied Y)"

definition metrics_stale :: "metrics \<Rightarrow> bool" where
  "metrics_stale m \<longleftrightarrow> mt_leader m = None \<or>
     (case mt_last_applied m of None \<Rightarrow> 0 | Some i \<Rightarrow> i) < (case mt_last_log m of None \<Rightarrow> 0 | Some i \<Rightarrow> i)"

definition raft_stale :: "('e, 'b) env \<Rightarrow> ('e node, bool) act" where
  "raft_stale Y = seq (call (y_metrics Y)) (\<lambda>m. ret (metrics_stale m))"

definition propose :: "('e, 'b) env \<Rightarrow> policy_command \<Rightarrow> ('e node, string + policy_result \<times> u64) act" where
  "propose Y c = client_write Y c"

fun server_state_name :: "server_state \<Rightarrow> string" where
  "server_state_name Leader = ''leader''"
| "server_state_name Follower = ''follower''"
| "server_state_name Candidate = ''candidate''"
| "server_state_name Learner = ''learner''"
| "server_state_name Shutdown = ''shutdown''"

definition status_of :: "raft_runtime \<Rightarrow> metrics \<Rightarrow> raft_status_snapshot" where
  "status_of rt m =
     (let ms = map (\<lambda>(i, n). \<lparr>sm_node_id = i, sm_peer_id = rn_peer_id n, sm_voter = i |\<in>| mt_voters m\<rparr>) (entries (mt_nodes m))
      in \<lparr>rs_cluster_id = rt_cluster_id rt, rs_node_id = rt_node_id rt, rs_leader = metrics_leader_peer m, rs_term = mt_term m,
          rs_state = server_state_name (mt_state m), rs_applied_index = mt_last_applied m, rs_last_log_index = mt_last_log m,
          rs_voters = sort_key sm_node_id (filter sm_voter ms), rs_learners = sort_key sm_node_id (filter (\<lambda>x. \<not> sm_voter x) ms),
          rs_stale = metrics_stale m\<rparr>)"

definition status_snapshot :: "('e, 'b) env \<Rightarrow> raft_runtime \<Rightarrow> ('e node, raft_status_snapshot) act" where
  "status_snapshot Y rt = seq (call (y_metrics Y)) (\<lambda>m. ret (status_of rt m))"

record members_view =
  mv_voters :: "member_info list"
  mv_learners :: "member_info list"
  mv_leader :: "node_id option"
  mv_term :: u64

definition view_all :: "members_view \<Rightarrow> member_info list" where
  "view_all v = mv_voters v @ mv_learners v"

definition view_find :: "members_view \<Rightarrow> node_id \<Rightarrow> member_info option" where
  "view_find v i = find (\<lambda>m. mi_node_id m = i) (view_all v)"

definition view_is_voter :: "members_view \<Rightarrow> node_id \<Rightarrow> bool" where
  "view_is_voter v i = list_ex (\<lambda>m. mi_node_id m = i) (mv_voters v)"

definition view_is_member :: "members_view \<Rightarrow> node_id \<Rightarrow> bool" where
  "view_is_member v i = (view_find v i \<noteq> None)"

definition view_of :: "metrics \<Rightarrow> members_view" where
  "view_of m =
     (let ms = map (\<lambda>(i, n). \<lparr>mi_node_id = i, mi_peer_id = rn_peer_id n, mi_identity_key = rn_identity_key n,
                    mi_x25519_key = rn_x25519_key n, mi_voter = i |\<in>| mt_voters m\<rparr>) (entries (mt_nodes m))
      in \<lparr>mv_voters = sort_key mi_node_id (filter mi_voter ms), mv_learners = sort_key mi_node_id (filter (\<lambda>x. \<not> mi_voter x) ms),
          mv_leader = mt_leader m, mv_term = mt_term m\<rparr>)"

definition membership_view :: "('e, 'b) env \<Rightarrow> ('e node, members_view) act" where
  "membership_view Y = seq (call (y_metrics Y)) (\<lambda>m. ret (view_of m))"

definition member_node :: "('e, 'b) env \<Rightarrow> node_id \<Rightarrow> ('e node, raft_node option) act" where
  "member_node Y i = seq (call (y_metrics Y)) (\<lambda>m. ret (bt_get (mt_nodes m) i))"

definition set_verifier :: "(rpc_verifier \<Rightarrow> rpc_verifier) \<Rightarrow> ('e node, unit) act" where
  "set_verifier f s = ((), s\<lparr>nd_verifier := f (nd_verifier s)\<rparr>)"

definition refresh_verifier_from_metrics :: "ext \<Rightarrow> ('e, 'b) env \<Rightarrow> ('e node, unit) act" where
  "refresh_verifier_from_metrics X Y =
     seq (call (y_metrics Y)) (\<lambda>m.
       let nodes = map (\<lambda>(i, n). (i, rn_identity_key n)) (entries (mt_nodes m)) in
       if nodes = [] then ret () else set_verifier (\<lambda>v. snd (replace_nodes X nodes v)))"

section \<open>Changes of the membership\<close>

definition add_learner_node ::
  "ext \<Rightarrow> ('e, 'b) env \<Rightarrow> node_id \<Rightarrow> raft_node \<Rightarrow> ('e node, run_error + member_info) act" where
  "add_learner_node X Y i n =
     seq (membership_view Y) (\<lambda>view.
       if view_is_member view i then fail (RE_AlreadyMember i)
       else if rn_identity_key n = [] then fail RE_IdentityRequired
       else seqE (map_err RE_Raft (raft_add_learner Y i n False)) (\<lambda>_.
         seq (refresh_verifier_from_metrics X Y) (\<lambda>_.
           ok \<lparr>mi_node_id = i, mi_peer_id = rn_peer_id n, mi_identity_key = rn_identity_key n, mi_x25519_key = rn_x25519_key n,
               mi_voter = False\<rparr>)))"

definition promote_voter :: "ext \<Rightarrow> ('e, 'b) env \<Rightarrow> node_id \<Rightarrow> ('e node, run_error + unit) act" where
  "promote_voter X Y i =
     seq (membership_view Y) (\<lambda>view.
       if view_is_voter view i then fail (RE_AlreadyVoter i)
       else (case view_find view i of
          None \<Rightarrow> fail (RE_NotLearner i)
        | Some m \<Rightarrow>
            let n = \<lparr>rn_peer_id = mi_peer_id m, rn_identity_key = mi_identity_key m, rn_x25519_key = mi_x25519_key m\<rparr> in
            seqE (map_err RE_Raft (raft_add_learner Y i n True)) (\<lambda>_.
              let voters = finsert i (fset_of_list (map mi_node_id (mv_voters view))) in
              seqE (map_err RE_Raft (raft_change_membership Y (SetVoters voters))) (\<lambda>_.
                seq (refresh_verifier_from_metrics X Y) (\<lambda>_. ok ())))))"

definition remaining_voters :: "node_id list \<Rightarrow> node_id \<Rightarrow> run_error + node_id fset" where
  "remaining_voters voters i =
     (let remaining = fset_of_list (filter (\<lambda>j. j \<noteq> i) voters) in
      if remaining = {||} then Inl RE_LastVoter else Inr remaining)"

definition send_body ::
  "ext \<Rightarrow> 'b serde \<Rightarrow> ('e, 'b) env \<Rightarrow> raft_runtime \<Rightarrow> node_id \<Rightarrow> 'b rpc_body \<Rightarrow> ('e node, run_error + unit) act" where
  "send_body X Z Y rt target body =
     seq (member_node Y target) (\<lambda>n. seqE (of_opt (RE_UnknownTarget target) n) (\<lambda>node.
       seqE (of_res RE_Transport (encode_request X (z_body Z) (rt_identity rt) (rt_cluster_id rt) (rt_node_id rt) target body)) (\<lambda>payload.
       seqE (map_err RE_Call (send_to Y (rt_service rt) (rn_peer_id node) payload)) (\<lambda>raw.
       seqE (of_opt RE_Decode (z_reply Z raw)) (\<lambda>reply.
       seq (gets nd_verifier) (\<lambda>v.
       seqE (of_res RE_Transport (rpc_verify_reply X v target reply)) (\<lambda>_. ok ())))))))"

text \<open>The wait for the election of the candidate, with the number of pauses left before the deadline.\<close>

fun await_leader :: "('e, 'b) env \<Rightarrow> node_id \<Rightarrow> nat \<Rightarrow> ('e node, run_error + unit) act" where
  "await_leader Y candidate n =
     seq (call (y_metrics Y)) (\<lambda>m.
       if mt_leader m = Some candidate \<and> mt_state m \<noteq> Leader then ok ()
       else (case n of 0 \<Rightarrow> fail RE_TransferTimeout | Suc k \<Rightarrow> await_leader Y candidate k))"

declare await_leader.simps [simp del]

definition transfer_leader_away ::
  "ext \<Rightarrow> 'b serde \<Rightarrow> ('e, 'b) env \<Rightarrow> raft_runtime \<Rightarrow> ('e node, run_error + unit) act" where
  "transfer_leader_away X Z Y rt =
     seq (membership_view Y) (\<lambda>view.
       seqE (of_opt RE_NoOtherVoter (find (\<lambda>i. i \<noteq> rt_node_id rt) (map mi_node_id (mv_voters view)))) (\<lambda>candidate.
       seqE (send_body X Z Y rt candidate Elect) (\<lambda>_.
       seq (call (y_polls Y)) (\<lambda>n. await_leader Y candidate n))))"

text \<open>A leader that is to leave first makes another voter the leader.\<close>

definition step_aside ::
  "ext \<Rightarrow> 'b serde \<Rightarrow> ('e, 'b) env \<Rightarrow> raft_runtime \<Rightarrow> node_id \<Rightarrow> ('e node, run_error + unit) act" where
  "step_aside X Z Y rt i =
     (if i = rt_node_id rt then seq (is_leader Y) (\<lambda>l. if l then transfer_leader_away X Z Y rt else ok ()) else ok ())"

definition demote_voter ::
  "ext \<Rightarrow> 'b serde \<Rightarrow> ('e, 'b) env \<Rightarrow> raft_runtime \<Rightarrow> node_id \<Rightarrow> ('e node, run_error + unit) act" where
  "demote_voter X Z Y rt i =
     seq (membership_view Y) (\<lambda>view.
       if \<not> view_is_voter view i then fail (RE_NotVoter i)
       else seqE (of_res (\<lambda>e. e) (remaining_voters (map mi_node_id (mv_voters view)) i)) (\<lambda>remaining.
         seqE (step_aside X Z Y rt i) (\<lambda>_.
         seqE (map_err RE_Raft (raft_change_membership Y (SetVoters remaining))) (\<lambda>_.
         seq (refresh_verifier_from_metrics X Y) (\<lambda>_. ok ())))))"

definition remove_member ::
  "ext \<Rightarrow> 'b serde \<Rightarrow> ('e, 'b) env \<Rightarrow> raft_runtime \<Rightarrow> node_id \<Rightarrow> ('e node, run_error + unit) act" where
  "remove_member X Z Y rt i =
     seq (membership_view Y) (\<lambda>view.
       if \<not> view_is_member view i then fail (RE_NotMember i)
       else seqE (step_aside X Z Y rt i) (\<lambda>_.
         seqE (if view_is_voter view i
               then seqE (of_res (\<lambda>e. e) (remaining_voters (map mi_node_id (mv_voters view)) i)) (\<lambda>remaining.
                 map_err RE_Raft (raft_change_membership Y (SetVoters remaining)))
               else ok ()) (\<lambda>_.
         seq (member_node Y i) (\<lambda>n.
         seqE (if n \<noteq> None then map_err RE_Raft (raft_change_membership Y (RemoveNodes {|i|})) else ok ()) (\<lambda>_.
         seq (refresh_verifier_from_metrics X Y) (\<lambda>_. ok ())))))) "

section \<open>The authority seed\<close>

definition seed_envelope_sval :: "seed_envelope \<Rightarrow> sval" where
  "seed_envelope_sval v = SMap [(''v'', sint8 (sv_v v)), (''from_node'', SInt (sv_from_node v)), (''cluster_id'', SStr (sv_cluster_id v)),
     (''network'', SStr (sv_network v)), (''node_id'', SInt (sv_node_id v)), (''peer_id'', SStr (sv_peer_id v)),
     (''identity_key'', SStr (sv_identity_key v)), (''ephemeral_key'', SStr (sv_ephemeral_key v)), (''aead_nonce'', SStr (sv_aead_nonce v)),
     (''ciphertext'', SStr (sv_ciphertext v)), (''sig'', SStr (sv_sig v))]"

definition seed_delivery_sval :: "seed_envelope \<Rightarrow> sval" where
  "seed_delivery_sval v = SMap [(''op'', SStr SEED_DELIVERY_OP), (''envelope'', seed_envelope_sval v)]"

definition seed_drop_sval :: "seed_drop_request \<Rightarrow> sval" where
  "seed_drop_sval q = SMap [(''op'', SStr (sd_op q)), (''v'', sint8 (sd_v q)), (''cluster_id'', SStr (sd_cluster_id q)),
     (''from_node'', SInt (sd_from_node q)), (''node_id'', SInt (sd_node_id q)), (''peer_id'', SStr (sd_peer_id q)), (''sig'', SStr (sd_sig q))]"

definition seed_ack_sval :: "seed_ack \<Rightarrow> sval" where
  "seed_ack_sval a = SMap [(''v'', sint8 (sa_v a)), (''from'', SInt (sa_from a)), (''to'', SInt (sa_to a)), (''ok'', SBool (sa_ok a)),
     (''error'', SStr (sa_error a)), (''sig'', SStr (sa_sig a))]"

text \<open>A request to another node that is answered by a receipt.\<close>

definition acked_request ::
  "ext \<Rightarrow> 'b serde \<Rightarrow> ('e, 'b) env \<Rightarrow> raft_runtime \<Rightarrow> node_id \<Rightarrow> raft_node \<Rightarrow> sval \<Rightarrow> ('e node, run_error + unit) act" where
  "acked_request X Z Y rt target node v =
     seqE (of_opt RE_Encode (x_json X v)) (\<lambda>payload.
     seqE (map_err RE_Call (send_to Y (rt_service rt) (rn_peer_id node) payload)) (\<lambda>raw.
     seqE (of_opt RE_Decode (z_ack Z raw)) (\<lambda>ack.
     seq (gets nd_verifier) (\<lambda>ver. of_res RE_Seed (verify_ack X ver target ack)))))"

definition deliver_seed ::
  "ext \<Rightarrow> 'b serde \<Rightarrow> ('e, 'b) env \<Rightarrow> raft_runtime \<Rightarrow> node_id \<Rightarrow> ('e node, run_error + unit) act" where
  "deliver_seed X Z Y rt target =
     seq (gets nd_ctx) (\<lambda>c. seqE (of_opt RE_NoSeed (authority_seed c)) (\<lambda>seed.
     seq (member_node Y target) (\<lambda>n. seqE (of_opt (RE_UnknownTarget target) n) (\<lambda>node.
     seq (call (y_random Y)) (\<lambda>eph. seq (call (y_random Y)) (\<lambda>aead.
     seqE (of_res RE_Seed (seal_seed X eph aead (rt_identity rt) (rt_node_id rt) (rt_cluster_id rt) (ac_network c) target node seed)) (\<lambda>v.
     acked_request X Z Y rt target node (seed_delivery_sval v))))))))"

definition drop_remote_seed ::
  "ext \<Rightarrow> 'b serde \<Rightarrow> ('e, 'b) env \<Rightarrow> raft_runtime \<Rightarrow> node_id \<Rightarrow> ('e node, run_error + unit) act" where
  "drop_remote_seed X Z Y rt target =
     seq (member_node Y target) (\<lambda>n. seqE (of_opt (RE_UnknownTarget target) n) (\<lambda>node.
     seqE (of_res RE_Seed (sign_drop_request X (rt_identity rt) (rt_node_id rt) (rt_cluster_id rt) target node)) (\<lambda>q.
     acked_request X Z Y rt target node (seed_drop_sval q))))"

definition on_fs :: "(fs \<Rightarrow> 'a \<times> fs) \<Rightarrow> ('e node, 'a) act" where
  "on_fs f s = (case f (nd_fs s) of (a, t) \<Rightarrow> (a, s\<lparr>nd_fs := t\<rparr>))"

definition remove_seed :: "('e, 'b) env \<Rightarrow> path \<Rightarrow> ('e node, seed_error + unit) act" where
  "remove_seed Y p = seq (call (y_remove_io Y)) (\<lambda>x. on_fs (remove_seed_file x p))"

definition accept_seed ::
  "ext \<Rightarrow> ('e, 'b) env \<Rightarrow> raft_runtime \<Rightarrow> seed_envelope \<Rightarrow> ('e node, run_error + unit) act" where
  "accept_seed X Y rt v =
     seq (leader_id Y) (\<lambda>leader. seq (gets nd_ctx) (\<lambda>c. seq (gets nd_verifier) (\<lambda>ver.
     seqE (of_res RE_Seed (open_seed X (rt_x25519 rt) ver (rt_node_id rt) (rt_peer_id rt) (ik_public_key_b64 (rt_identity rt))
             (rt_cluster_id rt) (ac_network c) leader v)) (\<lambda>seed.
     seqE (of_res RE_Authority (from_seed X seed (ac_network c))) (\<lambda>a.
     seq (call (y_io Y)) (\<lambda>e.
     seqE (map_err RE_Seed (on_fs (write_seed_file e (ac_authority_key_path c) seed))) (\<lambda>_.
     seq (upd_ctx (install_authority a)) (\<lambda>_. ok ()))))))))"

definition accept_seed_drop ::
  "ext \<Rightarrow> ('e, 'b) env \<Rightarrow> raft_runtime \<Rightarrow> seed_drop_request \<Rightarrow> ('e node, run_error + unit) act" where
  "accept_seed_drop X Y rt q =
     seq (leader_id Y) (\<lambda>leader. seq (gets nd_verifier) (\<lambda>ver.
     seqE (of_res RE_Seed (verify_drop_request X ver leader q (rt_node_id rt) (rt_peer_id rt) (rt_cluster_id rt))) (\<lambda>_.
     seq (gets nd_ctx) (\<lambda>c.
     seqE (map_err RE_Seed (remove_seed Y (ac_authority_key_path c))) (\<lambda>_.
     seq (upd_ctx clear_authority) (\<lambda>_. ok ()))))))"

section \<open>Joining with a token\<close>

definition join_candidates :: "string list \<Rightarrow> string list \<Rightarrow> string \<Rightarrow> string list" where
  "join_candidates configured discovered self_peer =
     remdups_adj (sort (filter (\<lambda>p. p \<noteq> self_peer) (configured @ discovered)))"

definition read_join_token :: "'b serde \<Rightarrow> io \<Rightarrow> cluster_config \<Rightarrow> fs \<Rightarrow> join_token option" where
  "read_join_token Z e k s =
     (if cc_join_token_path k \<noteq> [] then
        (case read_to_string e (path_of (cc_join_token_path k)) s of Inl _ \<Rightarrow> None | Inr text \<Rightarrow> z_join_token Z text)
      else if cc_join_token k \<noteq> [] then z_join_token Z (cc_join_token k)
      else None)"

definition raft_join_request_sval :: "raft_join_request \<Rightarrow> sval" where
  "raft_join_request_sval q = SMap [(''op'', SStr (rj_op q)), (''v'', sint8 (rj_v q)), (''cluster_id'', SStr (rj_cluster_id q)),
     (''network'', SStr (rj_network q)), (''token'', join_token_sval (rj_token q)), (''node_id'', SInt (rj_node_id q)),
     (''peer_id'', SStr (rj_peer_id q)), (''identity_key'', SStr (rj_identity_key q)), (''x25519_key'', SStr (rj_x25519_key q)),
     (''nonce'', SStr (rj_nonce q)), (''ts'', SInt (rj_ts q)), (''edge_peer'', SStr (rj_edge_peer q)), (''sig'', SStr (rj_sig q))]"

text \<open>\<open>error\<close> is the last failure.\<close>

fun try_candidates ::
  "ext \<Rightarrow> 'b serde \<Rightarrow> ('e, 'b) env \<Rightarrow> raft_runtime \<Rightarrow> string \<Rightarrow> bytes \<Rightarrow> run_error \<Rightarrow> string list \<Rightarrow> ('e node, run_error + bool) act" where
  "try_candidates X Z Y rt network payload error [] = fail error"
| "try_candidates X Z Y rt network payload error (p # ps) =
     seq (send_to Y (rt_service rt) p payload) (\<lambda>r.
       case r of
         Inl e \<Rightarrow> try_candidates X Z Y rt network payload (RE_Call e) ps
       | Inr raw \<Rightarrow>
           (case z_join_response Z raw of
              None \<Rightarrow> try_candidates X Z Y rt network payload RE_Decode ps
            | Some resp \<Rightarrow>
                if \<not> rp_ok resp then
                  try_candidates X Z Y rt network payload
                    (if rp_error resp = [] then RE_AllFailed else RE_JoinRefused (rp_error resp)) ps
                else if rp_cluster_id resp \<noteq> rt_cluster_id rt \<or> rp_network resp \<noteq> network then
                  try_candidates X Z Y rt network payload RE_JoinMismatch ps
                else
                  let known = map (\<lambda>m. (mi_node_id m, mi_identity_key m)) (rp_members resp);
                      nodes = (if rt_node_id rt \<in> fst ` set known then known
                               else known @ [(rt_node_id rt, ik_public_key_b64 (rt_identity rt))])
                  in seq (gets nd_verifier) (\<lambda>v.
                       case replace_nodes X nodes v of
                         (Inl e, v') \<Rightarrow> seq (set_verifier (\<lambda>_. v')) (\<lambda>_. fail (RE_Transport e))
                       | (Inr _, v') \<Rightarrow> seq (set_verifier (\<lambda>_. v')) (\<lambda>_. ok True))))"

definition try_join ::
  "ext \<Rightarrow> 'b serde \<Rightarrow> ('e, 'b) env \<Rightarrow> raft_runtime \<Rightarrow> service_config \<Rightarrow> ('e node, run_error + bool) act" where
  "try_join X Z Y rt cfg =
     seqE (map_err RE_Raft (call (y_initialized Y))) (\<lambda>init. if init then ok False else
     seq (call (y_io Y)) (\<lambda>e. seq (gets nd_fs) (\<lambda>s.
     case read_join_token Z e (sc_cluster cfg) s of
       None \<Rightarrow> ok False
     | Some token \<Rightarrow>
         seq (call (y_discover Y (rt_service rt))) (\<lambda>d.
         let discovered = (case d of Inl _ \<Rightarrow> [] | Inr ps \<Rightarrow> ps);
             candidates = join_candidates (map cm_peer_id (cc_voters (sc_cluster cfg) @ cc_learners (sc_cluster cfg))) discovered (rt_peer_id rt)
         in if candidates = [] then fail RE_NoCandidate else
         seq (call (y_random Y)) (\<lambda>nonce. seq (call (y_now Y)) (\<lambda>now.
         let q = \<lparr>rj_op = RAFT_JOIN_OP, rj_v = RAFT_JOIN_VERSION, rj_cluster_id = rt_cluster_id rt, rj_network = sc_network cfg,
                  rj_token = token, rj_node_id = rt_node_id rt, rj_peer_id = rt_peer_id rt,
                  rj_identity_key = ik_public_key_b64 (rt_identity rt), rj_x25519_key = sx_public_b64 (rt_x25519 rt),
                  rj_nonce = x_b64url X nonce, rj_ts = now, rj_edge_peer = [], rj_sig = []\<rparr>
         in seqE (of_res RE_Join (raft_join_sign X (rt_identity rt) q)) (\<lambda>signed.
            seqE (of_opt RE_Encode (x_json X (raft_join_request_sval signed))) (\<lambda>payload.
            try_candidates X Z Y rt (sc_network cfg) payload RE_AllFailed candidates))))))))"

section \<open>Serving Raft RPCs\<close>

text \<open>
  The error of a handler: its code and, for the message, what the message is about (\<open>Plain\<close> for a fixed text, otherwise
  the value that is formatted).
\<close>

datatype detail =
    Plain
  | D_Transport transport_error
  | D_Admin admin_error
  | D_V2 admin_v2_error
  | D_Store store_error
  | D_Rep rep_error
  | D_Join join_error
  | D_Token join_token_error
  | D_RaftJoin raft_join_error
  | D_Reject reject_msg
  | D_Raft string
  | D_Run run_error
  | D_Seed seed_error
  | D_Publish u64 publish_error
  | D_Node node_id
  | D_Text string
  | D_Result policy_result

datatype publish_note = PN_NotLeader | PN_Error publish_error

record service_error =
  er_code :: string
  er_detail :: detail
  er_publish :: "publish_note option"

definition err :: "string \<Rightarrow> detail \<Rightarrow> service_error" where
  "err code d = \<lparr>er_code = code, er_detail = d, er_publish = None\<rparr>"

definition handle_rpc ::
  "ext \<Rightarrow> 'b serde \<Rightarrow> ('e, 'b) env \<Rightarrow> raft_runtime \<Rightarrow> bytes \<Rightarrow> ('e node, service_error + bytes) act" where
  "handle_rpc X Z Y rt payload =
     seqE (of_opt (err ''raft_bad_request'' Plain) (z_envelope Z payload)) (\<lambda>v.
     if ev_op v \<noteq> RAFT_RPC_OP then fail (err ''raft_bad_request'' Plain) else
     seq (gets nd_verifier) (\<lambda>ver.
     seqE (of_res (\<lambda>e. err ''raft_auth_failed'' (D_Transport e)) (rpc_verify_request X (z_unbody Z) ver v)) (\<lambda>(src, body).
     seq (call (y_rpc Y body)) (\<lambda>outcome.
     let (good, b, error) = (case outcome of Inr b \<Rightarrow> (True, b, []) | Inl e \<Rightarrow> (False, [], e)) in
     of_res (\<lambda>e. err ''raft_encode_error'' (D_Transport e))
       (encode_reply X (rt_identity rt) (rt_cluster_id rt) (rt_node_id rt) src good b error)))))"

text \<open>The client side, which openraft calls.\<close>

definition network_send ::
  "ext \<Rightarrow> 'b serde \<Rightarrow> ('e, 'b) env \<Rightarrow> raft_runtime \<Rightarrow> node_id \<Rightarrow> raft_node \<Rightarrow> 'b rpc_body \<Rightarrow> ('e node, run_error + bytes) act" where
  "network_send X Z Y rt target node body =
     seqE (of_res RE_Transport (encode_request X (z_body Z) (rt_identity rt) (rt_cluster_id rt) (rt_node_id rt) target body)) (\<lambda>payload.
     seqE (map_err RE_Call (send_to Y (rt_service rt) (rn_peer_id node) payload)) (\<lambda>raw.
     seqE (of_opt RE_Decode (z_reply Z raw)) (\<lambda>reply.
     seq (gets nd_verifier) (\<lambda>v. of_res RE_Transport (rpc_verify_reply X v target reply)))))"

section \<open>Bootstrap and start\<close>

datatype bootstrap_error = BE_Raft string | BE_MissingPeer | BE_ZeroNode | BE_MissingIdentity node_id | BE_Duplicate node_id | BE_NoVoter

fun members_from_config ::
  "ext \<Rightarrow> cluster_member_config list \<Rightarrow> (node_id, raft_node) btmap \<Rightarrow> bootstrap_error + (node_id, raft_node) btmap" where
  "members_from_config X [] m = Inr m"
| "members_from_config X (c # cs) m =
     (if cm_peer_id c = [] then Inl BE_MissingPeer
      else let i = node_id_from_peer_id X (cm_peer_id c) in
        if i = 0 then Inl BE_ZeroNode
        else if cm_identity_key c = [] then Inl (BE_MissingIdentity i)
        else if bt_get m i \<noteq> None then Inl (BE_Duplicate i)
        else members_from_config X cs
          (bt_insert i \<lparr>rn_peer_id = cm_peer_id c, rn_identity_key = cm_identity_key c, rn_x25519_key = []\<rparr> m))"

definition bootstrap_if_enabled ::
  "ext \<Rightarrow> ('e, 'b) env \<Rightarrow> cluster_config \<Rightarrow> node_id \<Rightarrow> raft_node \<Rightarrow> ('e node, bootstrap_error + bool) act" where
  "bootstrap_if_enabled X Y k local_id local_node =
     (if \<not> cc_bootstrap k then ok False else
      seqE (map_err BE_Raft (call (y_initialized Y))) (\<lambda>init. if init then ok False else
      seqE (of_res (\<lambda>e. e) (members_from_config X (cc_voters k) bt_empty)) (\<lambda>vs.
      let voters = (if bt_get vs local_id = None then bt_insert local_id local_node vs else vs) in
      if entries voters = [] then fail BE_NoVoter else
      seqE (map_err BE_Raft (call (y_initialize Y voters))) (\<lambda>_. ok True))))"

datatype config_reason = CR_Renew | CR_AdminKeys admin_v2_error | CR_ZeroNode | CR_SeedKey seed_error | CR_MissingPeer | CR_Duplicate node_id | CR_Collision | CR_Raft string

datatype init_error =
    IE_Disabled | IE_Whoami sidecar_error | IE_Transport transport_error | IE_Storage string | IE_Config config_reason
  | IE_Bootstrap bootstrap_error

text \<open>The configured members: their ids, whether this node is one of them, and the verifier with their keys.\<close>

fun start_members ::
  "ext \<Rightarrow> string \<Rightarrow> cluster_member_config list \<Rightarrow> node_id fset \<Rightarrow> bool \<Rightarrow> rpc_verifier \<Rightarrow> init_error + node_id fset \<times> bool \<times> rpc_verifier" where
  "start_members X whoami [] ids here v = Inr (ids, here, v)"
| "start_members X whoami (c # cs) ids here v =
     (if cm_peer_id c = [] then Inl (IE_Config CR_MissingPeer)
      else let i = node_id_from_peer_id X (cm_peer_id c) in
        if i |\<in>| ids then Inl (IE_Config (CR_Duplicate i))
        else (case add_node X i (cm_identity_key c) v of
           (Inl e, _) \<Rightarrow> Inl (IE_Transport e)
         | (Inr _, v') \<Rightarrow> start_members X whoami cs (finsert i ids) (here \<or> cm_peer_id c = whoami) v'))"

definition raft_config_of :: "cluster_config \<Rightarrow> raft_config" where
  "raft_config_of k = \<lparr>rc_cluster_name = cc_cluster_id k, rc_heartbeat_interval = max (cc_heartbeat_interval_ms k) 10,
     rc_election_timeout_min = max (cc_election_timeout_min_ms k) 50,
     rc_election_timeout_max = max (cc_election_timeout_max_ms k) (sat_add (cc_election_timeout_min_ms k) 50)\<rparr>"

definition raft_start ::
  "ext \<Rightarrow> 'b serde \<Rightarrow> ('e, 'b) env \<Rightarrow> service_config \<Rightarrow> ('e node, init_error + raft_runtime) act" where
  "raft_start X Z Y cfg =
     (let k = sc_cluster cfg in
      if \<not> cc_enabled k then fail IE_Disabled
      else if sc_renew_secs cfg = 0 \<or> sc_renew_secs cfg \<ge> sc_expires_secs cfg then fail (IE_Config CR_Renew)
      else seqE (of_res (\<lambda>e. IE_Config (CR_AdminKeys e)) (from_config X (sc_admin_keys cfg) True)) (\<lambda>_.
      seqE (map_err IE_Whoami (call (y_whoami Y))) (\<lambda>me.
      let i = node_id_from_peer_id X me in
      if i = 0 then fail (IE_Config CR_ZeroNode) else
      seq (call (y_io Y)) (\<lambda>e1. seq (call (y_random Y)) (\<lambda>r1.
      seqE (map_err IE_Transport (on_fs (identity_load_or_create X e1 r1 (path_of (cc_identity_key_path k))))) (\<lambda>identity.
      seq (call (y_io Y)) (\<lambda>e2. seq (call (y_random Y)) (\<lambda>r2.
      seqE (map_err (\<lambda>e. IE_Config (CR_SeedKey e)) (on_fs (exchange_load_or_create X e2 r2 (path_of (cc_seed_exchange_key_path k))))) (\<lambda>x25519.
      let local = \<lparr>rn_peer_id = me, rn_identity_key = ik_public_key_b64 identity, rn_x25519_key = sx_public_b64 x25519\<rparr> in
      seqE (of_res (\<lambda>e. e) (start_members X me (cc_voters k @ cc_learners k) {||} False (rpc_verifier_new (cc_cluster_id k) i)))
        (\<lambda>(ids, here, v1).
      if i |\<in>| ids \<and> \<not> here then fail (IE_Config CR_Collision) else
      seqE (of_res IE_Transport (add_nodes X [(i, rn_identity_key local)] v1)) (\<lambda>v2.
      seqE (map_err IE_Storage (call (y_open_storage Y (cc_data_path k) (sc_network cfg)))) (\<lambda>members.
      seqE (of_res IE_Transport (add_nodes X (map (\<lambda>(j, n). (j, rn_identity_key n)) members) v2)) (\<lambda>v3.
      seqE (case y_config_ok Y (raft_config_of k) of Some e \<Rightarrow> fail (IE_Config (CR_Raft e)) | None \<Rightarrow> ok ()) (\<lambda>_.
      seqE (map_err IE_Storage (call (y_raft_new Y i (raft_config_of k)))) (\<lambda>_.
      seqE (map_err IE_Bootstrap (bootstrap_if_enabled X Y k i local)) (\<lambda>_.
      seq (set_verifier (\<lambda>_. v3)) (\<lambda>_.
      seq (refresh_verifier_from_metrics X Y) (\<lambda>_.
      ok \<lparr>rt_identity = identity, rt_cluster_id = cc_cluster_id k, rt_node_id = i, rt_peer_id = me, rt_service = sc_service cfg,
          rt_x25519 = x25519\<rparr>))))))))))))))))))"

section \<open>Events of the runtime's operations\<close>

named_theorems ev_keeps \<open>which events an operation can cause\<close>

lemmas [ev_keeps] = keeps_events_call keeps_events_upd_ctx ev_frame.keeps_rules

lemma keeps_set_verifier [ev_keeps]: "keeps (new_events P) (set_verifier f)"
  by (auto simp: keeps_def set_verifier_def new_events_def)

lemma keeps_on_fs [ev_keeps]: "keeps (new_events P) (on_fs f)"
  by (auto simp: keeps_def on_fs_def new_events_def split: prod.split)

lemma keeps_queries [ev_keeps]:
  "keeps (new_events P) (is_leader Y)" "keeps (new_events P) (raft_term Y)" "keeps (new_events P) (leader_id Y)"
  "keeps (new_events P) (leader_peer Y)" "keeps (new_events P) (policy_snapshot Y)" "keeps (new_events P) (raft_applied_index Y)"
  "keeps (new_events P) (raft_stale Y)" "keeps (new_events P) (status_snapshot Y rt)" "keeps (new_events P) (membership_view Y)"
  "keeps (new_events P) (member_node Y i)"
  unfolding is_leader_def raft_term_def leader_id_def leader_peer_def policy_snapshot_def raft_applied_index_def raft_stale_def
    status_snapshot_def membership_view_def member_node_def by (intro ev_keeps)+

lemma keeps_refresh [ev_keeps]: "keeps (new_events P) (refresh_verifier_from_metrics X Y)"
  unfolding refresh_verifier_from_metrics_def Let_def by (intro ev_keeps)

lemma keeps_asks [ev_keeps]:
  "P (Ev_Propose c) \<Longrightarrow> keeps (new_events P) (propose Y c)"
  "P (Ev_AddLearner i n b) \<Longrightarrow> keeps (new_events P) (raft_add_learner Y i n b)"
  "P (Ev_ChangeMembership ch) \<Longrightarrow> keeps (new_events P) (raft_change_membership Y ch)"
  "P (Ev_Send service peer payload) \<Longrightarrow> keeps (new_events P) (send_to Y service peer payload)"
  by (simp_all add: propose_def client_write_def raft_add_learner_def raft_change_membership_def send_to_def keeps_events_ask)

text \<open>Predicates that allow every message to another node.\<close>

definition allows_sends :: "(event \<Rightarrow> bool) \<Rightarrow> bool" where
  "allows_sends P \<longleftrightarrow> (\<forall>service peer payload. P (Ev_Send service peer payload))"

lemma keeps_send_body: "allows_sends P \<Longrightarrow> keeps (new_events P) (send_body X Z Y rt target body)"
  unfolding send_body_def allows_sends_def by (intro ev_keeps) simp

lemma keeps_await: "keeps (new_events P) (await_leader Y candidate n)"
proof (induction n)
  case 0
  show ?case
    unfolding await_leader.simps [of Y candidate 0] nat.case by (intro ev_keeps)
next
  case (Suc n)
  show ?case
    unfolding await_leader.simps [of Y candidate "Suc n"] nat.case by (intro ev_keeps Suc.IH)
qed

lemma keeps_step_aside: "allows_sends P \<Longrightarrow> keeps (new_events P) (step_aside X Z Y rt i)"
  unfolding step_aside_def transfer_leader_away_def by (intro ev_keeps keeps_send_body keeps_await)

lemma keeps_acked: "allows_sends P \<Longrightarrow> keeps (new_events P) (acked_request X Z Y rt target node v)"
  unfolding acked_request_def allows_sends_def by (intro ev_keeps) simp

lemma keeps_seed_messages:
  assumes "allows_sends P"
  shows "keeps (new_events P) (deliver_seed X Z Y rt target)" "keeps (new_events P) (drop_remote_seed X Z Y rt target)"
  unfolding deliver_seed_def drop_remote_seed_def by (intro ev_keeps keeps_acked assms)+

lemma keeps_accept [ev_keeps]:
  "keeps (new_events P) (accept_seed X Y rt v)" "keeps (new_events P) (accept_seed_drop X Y rt q)"
  "keeps (new_events P) (remove_seed Y p)" "keeps (new_events P) (handle_rpc X Z Y rt payload)"
  unfolding accept_seed_def accept_seed_drop_def remove_seed_def handle_rpc_def case_prod_unfold Let_def by (intro ev_keeps)+

lemma keeps_add_learner_node:
  "(\<And>b. P (Ev_AddLearner i n b)) \<Longrightarrow> keeps (new_events P) (add_learner_node X Y i n)"
  unfolding add_learner_node_def by (intro ev_keeps) simp

section \<open>The voters\<close>

text \<open>The voters of the cluster as the metrics show it.\<close>

definition voters_of :: "metrics \<Rightarrow> node_id fset" where
  "voters_of m = ffilter (\<lambda>i. i |\<in>| mt_voters m) (fset_of_list (bt_keys (mt_nodes m)))"

lemma view_voters: "fset_of_list (map mi_node_id (mv_voters (view_of m))) = voters_of m"
  by (rule fset_eqI) (force simp: view_of_def voters_of_def Let_def bt_keys_def fset_of_list.rep_eq)

lemmas view_voter_ids = view_voters [simplified]

lemma remaining_voters_Inr:
  assumes "remaining_voters voters i = Inr vs"
  shows "vs \<noteq> {||} \<and> vs = fset_of_list voters |-| {|i|}"
proof -
  have "fset_of_list (filter (\<lambda>j. j \<noteq> i) voters) = fset_of_list voters |-| {|i|}"
    by (rule fset_eqI) (auto simp: fset_of_list.rep_eq)
  then show ?thesis
    using assms by (auto simp: remaining_voters_def Let_def split: if_splits)
qed

lemma view_is_voter_iff: "view_is_voter (view_of m) i \<longleftrightarrow> i |\<in>| voters_of m"
  by (auto simp: view_is_voter_def list_ex_iff fset_of_list.rep_eq simp flip: view_voters)

lemma remaining_view:
  "remaining_voters (map mi_node_id (mv_voters (view_of m))) i = Inr vs \<Longrightarrow> vs \<noteq> {||} \<and> vs = voters_of m |-| {|i|}"
  using remaining_voters_Inr [of "map mi_node_id (mv_voters (view_of m))"] unfolding view_voters .

text \<open>The changes of the membership that were asked for, in order; learners were added only as node \<open>i\<close>.\<close>

definition changes :: "event list \<Rightarrow> membership_change list" where
  "changes evs = concat (map (\<lambda>ev. case ev of Ev_ChangeMembership ch \<Rightarrow> [ch] | _ \<Rightarrow> []) evs)"

definition asks :: "node_id \<Rightarrow> membership_change list \<Rightarrow> 'e node \<Rightarrow> 'e node \<Rightarrow> bool" where
  "asks i chs s t \<longleftrightarrow> (\<exists>evs. nd_trace t = nd_trace s @ evs \<and> changes evs = chs \<and> (\<forall>j n b. Ev_AddLearner j n b \<in> set evs \<longrightarrow> j = i))"

definition asks_nothing :: "node_id \<Rightarrow> event \<Rightarrow> bool" where
  "asks_nothing i ev \<longleftrightarrow> (\<forall>ch. ev \<noteq> Ev_ChangeMembership ch) \<and> (\<forall>j n b. ev = Ev_AddLearner j n b \<longrightarrow> j = i)"

lemma asks_nothing_sends: "allows_sends (asks_nothing i)"
  by (simp add: allows_sends_def asks_nothing_def)

lemma asks_refl: "asks i [] s s"
  by (simp add: asks_def changes_def)

lemma asks_trans:
  assumes "asks i cs s t" "asks i ds t u"
  shows "asks i (cs @ ds) s u"
proof -
  obtain es fs where "nd_trace t = nd_trace s @ es" "changes es = cs" "nd_trace u = nd_trace t @ fs" "changes fs = ds"
    and "\<forall>j n b. Ev_AddLearner j n b \<in> set es \<longrightarrow> j = i" "\<forall>j n b. Ev_AddLearner j n b \<in> set fs \<longrightarrow> j = i"
    using assms unfolding asks_def by blast
  then show ?thesis
    unfolding asks_def by (intro exI [of _ "es @ fs"] conjI allI impI) (simp_all add: changes_def, blast)
qed

lemma asks_quiet:
  assumes "keeps (new_events (asks_nothing i)) m" "m s = (r, t)"
  shows "asks i [] s t"
proof -
  obtain evs where evs: "nd_trace t = nd_trace s @ evs" "\<forall>ev \<in> set evs. asks_nothing i ev"
    using keepsD [OF assms] by (auto simp: new_events_def)
  then have "changes evs = []"
    by (auto simp: changes_def asks_nothing_def split: event.split)
  then show ?thesis
    using evs by (auto simp: asks_def asks_nothing_def)
qed

lemma asks_change: "map_err f (raft_change_membership Y ch) s = (r, t) \<Longrightarrow> asks i [ch] s t"
  by (auto simp: asks_def changes_def raft_change_membership_def ask_def record_event_def call_def act_defs split: prod.splits sum.splits)

lemma asks_view: "asks i chs (s\<lparr>nd_env := e\<rparr>) t \<longleftrightarrow> asks i chs s t" "asks i [] s (s\<lparr>nd_env := e\<rparr>)"
  by (simp_all add: asks_def changes_def)

lemma after_view: "y_metrics Y (nd_env s) = (m, e) \<Longrightarrow> seq (membership_view Y) k s = k (view_of m) (s\<lparr>nd_env := e\<rparr>)"
  by (simp add: seq_def membership_view_def call_def ret_def)

lemma asks_refresh: "seq (refresh_verifier_from_metrics X Y) (\<lambda>_. ok ()) s = (r, t) \<Longrightarrow> asks i [] s t \<and> r = Inr ()"
  using asks_quiet [of i, OF keeps_refresh, of X Y s] by (auto simp: act_defs split: prod.splits)

text \<open>The last steps of every operation.\<close>

lemma asks_finish:
  assumes "seqE (map_err RE_Raft (raft_change_membership Y ch)) (\<lambda>_. seq (refresh_verifier_from_metrics X Y) (\<lambda>_. ok ())) s = (r, t)"
  shows "asks i [ch] s t"
proof -
  obtain r1 t1 where 1: "map_err RE_Raft (raft_change_membership Y ch) s = (r1, t1)"
    by fastforce
  show ?thesis
  proof (cases r1)
    case (Inr u)
    then have "asks i [] t1 t"
      using assms 1 asks_refresh [of X Y t1 r t i] by (simp add: seqE_simp)
    then show ?thesis
      using asks_trans [OF asks_change [OF 1]] by fastforce
  qed (use assms 1 asks_change [OF 1] in \<open>simp add: seqE_simp\<close>)
qed

lemma promote_asks:
  assumes "y_metrics Y (nd_env s) = (m, e)" "promote_voter X Y i s = (r, t)"
  shows "(\<exists>x. r = Inl x) \<and> asks i [] s t \<or> i |\<notin>| voters_of m \<and> asks i [SetVoters (finsert i (voters_of m))] s t"
proof (cases "view_is_voter (view_of m) i \<or> view_find (view_of m) i = None")
  case True
  then show ?thesis
    using assms(2) unfolding promote_voter_def after_view [OF assms(1)] by (auto simp: fail_def ret_def asks_view asks_refl split: if_splits)
next
  case False
  then obtain x where x: "view_find (view_of m) i = Some x"
    by blast
  let ?n = "\<lparr>rn_peer_id = mi_peer_id x, rn_identity_key = mi_identity_key x, rn_x25519_key = mi_x25519_key x\<rparr>"
  obtain r1 t1 where 1: "map_err RE_Raft (raft_add_learner Y i ?n True) (s\<lparr>nd_env := e\<rparr>) = (r1, t1)"
    by fastforce
  have quiet: "asks i [] s t1"
  proof -
    have "keeps (new_events (asks_nothing i)) (map_err RE_Raft (raft_add_learner Y i ?n True))"
      by (intro ev_keeps) (simp add: asks_nothing_def)
    from asks_quiet [OF this 1] show ?thesis
      by (simp add: asks_view)
  qed
  show ?thesis
  proof (cases r1)
    case (Inl y)
    then show ?thesis
      using assms(2) False x 1 quiet unfolding promote_voter_def after_view [OF assms(1)] by (auto simp: Let_def seqE_simp)
  next
    case (Inr u)
    then have "asks i [SetVoters (finsert i (voters_of m))] t1 t"
      using assms(2) False x 1
      by (intro asks_finish [where X = X and Y = Y and r = r]) (simp add: promote_voter_def after_view [OF assms(1)] Let_def seqE_simp view_voter_ids)
    then show ?thesis
      using asks_trans [OF quiet] False by (fastforce simp: view_is_voter_iff)
  qed
qed

lemma demote_asks:
  assumes "y_metrics Y (nd_env s) = (m, e)" "demote_voter X Z Y rt i s = (r, t)"
  shows "(\<exists>x. r = Inl x) \<and> asks i [] s t \<or>
    i |\<in>| voters_of m \<and> voters_of m |-| {|i|} \<noteq> {||} \<and> asks i [SetVoters (voters_of m |-| {|i|})] s t"
proof (cases "view_is_voter (view_of m) i \<and> (\<exists>vs. remaining_voters (map mi_node_id (mv_voters (view_of m))) i = Inr vs)")
  case True
  then have vs: "remaining_voters (map mi_node_id (mv_voters (view_of m))) i = Inr (voters_of m |-| {|i|})" "voters_of m |-| {|i|} \<noteq> {||}"
    using remaining_view by blast+
  obtain r1 t1 where 1: "step_aside X Z Y rt i (s\<lparr>nd_env := e\<rparr>) = (r1, t1)"
    by fastforce
  have quiet: "asks i [] s t1"
    using asks_quiet [OF keeps_step_aside [OF asks_nothing_sends] 1] by (simp add: asks_view)
  show ?thesis
  proof (cases r1)
    case (Inl y)
    then show ?thesis
      using assms(2) True vs 1 quiet unfolding demote_voter_def after_view [OF assms(1)] by (auto simp: seqE_simp of_res_def ok_def ret_def)
  next
    case (Inr u)
    then have "asks i [SetVoters (voters_of m |-| {|i|})] t1 t"
      using assms(2) True vs 1
      by (intro asks_finish [where X = X and Y = Y and r = r])
        (simp add: demote_voter_def after_view [OF assms(1)] seqE_simp of_res_def ok_def ret_def)
    then show ?thesis
      using asks_trans [OF quiet] vs(2) True by (fastforce simp: view_is_voter_iff)
  qed
next
  case False
  then show ?thesis
    using assms(2) unfolding demote_voter_def after_view [OF assms(1)]
    by (auto simp: fail_def ret_def of_res_def seqE_simp asks_view split: if_splits sum.splits)
qed

text \<open>The second half of a removal: the node is taken out if it is still there.\<close>

lemma remove_rest_asks:
  assumes "seq (member_node Y i) (\<lambda>n. seqE (if n \<noteq> None then map_err RE_Raft (raft_change_membership Y (RemoveNodes {|i|})) else ok ()) (\<lambda>_.
      seq (refresh_verifier_from_metrics X Y) (\<lambda>_. ok ()))) s = (r, t)"
  shows "asks i [RemoveNodes {|i|}] s t \<or> asks i [] s t \<and> (\<exists>e m e'. y_metrics Y e = (m, e') \<and> bt_get (mt_nodes m) i = None)"
proof -
  obtain m e where m: "y_metrics Y (nd_env s) = (m, e)"
    by fastforce
  show ?thesis
  proof (cases "bt_get (mt_nodes m) i")
    case None
    then have "seq (refresh_verifier_from_metrics X Y) (\<lambda>_. ok ()) (s\<lparr>nd_env := e\<rparr>) = (r, t)"
      using assms m by (simp add: member_node_def act_defs call_def)
    then show ?thesis
      using asks_refresh [of X Y "s\<lparr>nd_env := e\<rparr>" r t i] None m by (auto simp: asks_view)
  next
    case (Some n)
    then have "seqE (map_err RE_Raft (raft_change_membership Y (RemoveNodes {|i|}))) (\<lambda>_. seq (refresh_verifier_from_metrics X Y) (\<lambda>_. ok ()))
        (s\<lparr>nd_env := e\<rparr>) = (r, t)"
      using assms m by (simp add: member_node_def seq_def ret_def call_def)
    from asks_finish [OF this, of i] show ?thesis
      by (simp add: asks_view)
  qed
qed

definition leaving_voters :: "node_id fset \<Rightarrow> node_id \<Rightarrow> membership_change list" where
  "leaving_voters V i = (if i |\<in>| V then [SetVoters (V |-| {|i|})] else [])"

lemma leave_voters_asks:
  assumes "(if view_is_voter (view_of m) i
      then seqE (of_res (\<lambda>e. e) (remaining_voters (map mi_node_id (mv_voters (view_of m))) i)) (\<lambda>remaining.
        map_err RE_Raft (raft_change_membership Y (SetVoters remaining)))
      else ok ()) s = (r, t)"
  shows "(\<exists>x. r = Inl x) \<and> asks i [] s t \<or>
    (i |\<in>| voters_of m \<longrightarrow> voters_of m |-| {|i|} \<noteq> {||}) \<and> asks i (leaving_voters (voters_of m) i) s t"
proof (cases "remaining_voters (map mi_node_id (mv_voters (view_of m))) i")
  case (Inl x)
  then show ?thesis
    using assms by (auto simp: leaving_voters_def of_res_def seqE_simp fail_def ok_def ret_def asks_refl view_is_voter_iff split: if_splits)
next
  case (Inr vs)
  note vs = remaining_view [OF Inr]
  show ?thesis
  proof (cases "view_is_voter (view_of m) i")
    case True
    then have "map_err RE_Raft (raft_change_membership Y (SetVoters vs)) s = (r, t)"
      using assms Inr by (simp add: of_res_def seqE_simp ok_def ret_def)
    then have "voters_of m |-| {|i|} \<noteq> {||}" "asks i (leaving_voters (voters_of m) i) s t"
      using vs True asks_change [of RE_Raft Y "SetVoters vs" s r t i] by (auto simp only: leaving_voters_def view_is_voter_iff if_True)
    then show ?thesis
      by blast
  qed (use assms in \<open>simp add: leaving_voters_def view_is_voter_iff ok_def ret_def asks_refl\<close>)
qed

lemma remove_asks:
  assumes "y_metrics Y (nd_env s) = (m, e)" "remove_member X Z Y rt i s = (r, t)"
  defines "leave \<equiv> leaving_voters (voters_of m) i"
  shows "(\<exists>x. r = Inl x) \<and> asks i [] s t \<or> (i |\<in>| voters_of m \<longrightarrow> voters_of m |-| {|i|} \<noteq> {||}) \<and>
    (asks i (leave @ [RemoveNodes {|i|}]) s t \<or>
     asks i leave s t \<and> ((\<exists>x. r = Inl x) \<or> (\<exists>e m e'. y_metrics Y e = (m, e') \<and> bt_get (mt_nodes m) i = None)))"
proof (cases "view_is_member (view_of m) i")
  case True
  let ?first = "if view_is_voter (view_of m) i
      then seqE (of_res (\<lambda>e. e) (remaining_voters (map mi_node_id (mv_voters (view_of m))) i)) (\<lambda>remaining.
        map_err RE_Raft (raft_change_membership Y (SetVoters remaining)))
      else ok ()"
  obtain r1 t1 where 1: "step_aside X Z Y rt i (s\<lparr>nd_env := e\<rparr>) = (r1, t1)"
    by fastforce
  have quiet: "asks i [] s t1"
    using asks_quiet [OF keeps_step_aside [OF asks_nothing_sends] 1] by (simp add: asks_view)
  obtain r2 t2 where 2: "?first t1 = (r2, t2)"
    by fastforce
  let ?rest = "seq (member_node Y i) (\<lambda>n. seqE (if n \<noteq> None then map_err RE_Raft (raft_change_membership Y (RemoveNodes {|i|})) else ok ()) (\<lambda>_.
          seq (refresh_verifier_from_metrics X Y) (\<lambda>_. ok ())))"
  have run: "seqE (step_aside X Z Y rt i) (\<lambda>_. seqE ?first (\<lambda>_. ?rest)) (s\<lparr>nd_env := e\<rparr>) = (r, t)"
    using assms(2) True unfolding remove_member_def after_view [OF assms(1)] by (simp only: not_True_eq_False if_False)
  show ?thesis
  proof (cases r1)
    case (Inl y)
    then show ?thesis
      using run 1 quiet by (auto simp: seqE_simp)
  next
    case r1: (Inr u)
    note first = leave_voters_asks [OF 2, folded leave_def]
    show ?thesis
    proof (cases r2)
      case (Inl y)
      then have "r = Inl y" "t = t2"
        using run unfolding seqE_simp [of "step_aside X Z Y rt i"] seqE_simp [of ?first] 1 r1 by (simp_all only: 2 Inl prod.case sum.case prod.inject)
      then show ?thesis
        using first asks_trans [OF quiet, of _ t2] by auto
    next
      case (Inr v)
      then have first: "i |\<in>| voters_of m \<longrightarrow> voters_of m |-| {|i|} \<noteq> {||}" "asks i leave s t2"
        using first asks_trans [OF quiet, of leave t2] by auto
      have "?rest t2 = (r, t)"
        using run unfolding seqE_simp [of "step_aside X Z Y rt i"] seqE_simp [of ?first] 1 r1 by (simp only: 2 Inr prod.case sum.case)
      from remove_rest_asks [OF this] show ?thesis
        using first asks_trans [OF first(2)] by fastforce
    qed
  qed
next
  case False
  then show ?thesis
    using assms(2) unfolding remove_member_def after_view [OF assms(1)] by (auto simp: fail_def ret_def asks_view)
qed

text \<open>
  C10: An operation on the membership asks Raft for exactly its own change. Let \<open>V\<close> be the voters that promoting, demoting or removing node
  \<open>i\<close> reads at its start. Promoting a node that is no voter asks for \<open>V\<close> with \<open>i\<close>, demoting a voter for \<open>V\<close> without \<open>i\<close>, and removing a
  node for \<open>V\<close> without \<open>i\<close>, if it was a voter, and then for taking out \<open>i\<close> alone, unless it is gone by then; each change is asked for once, in this
  order, and an operation that succeeds has asked for all of them. No set of voters asked for is empty, no other
  change is asked for, and no learner other than \<open>i\<close> is added. \<open>V\<close> is not read again: whatever the others did in the meantime, the set asked for is made from it.
\<close>

theorem membership_changes_safe:
  assumes "y_metrics Y (nd_env s) = (m, e)"
  defines "V \<equiv> voters_of m"
  shows "(promote_voter X Y i s = (r, t) \<longrightarrow> (\<exists>x. r = Inl x) \<and> asks i [] s t \<or> i |\<notin>| V \<and> asks i [SetVoters (finsert i V)] s t) \<and>
    (demote_voter X Z Y rt i s = (r, t) \<longrightarrow>
       (\<exists>x. r = Inl x) \<and> asks i [] s t \<or> i |\<in>| V \<and> V |-| {|i|} \<noteq> {||} \<and> asks i [SetVoters (V |-| {|i|})] s t) \<and>
    (remove_member X Z Y rt i s = (r, t) \<longrightarrow>
       (\<exists>x. r = Inl x) \<and> asks i [] s t \<or> (i |\<in>| V \<longrightarrow> V |-| {|i|} \<noteq> {||}) \<and>
       (asks i (leaving_voters V i @ [RemoveNodes {|i|}]) s t \<or>
        asks i (leaving_voters V i) s t \<and> ((\<exists>x. r = Inl x) \<or> (\<exists>e m e'. y_metrics Y e = (m, e') \<and> bt_get (mt_nodes m) i = None))))"
  using promote_asks [OF assms(1), of X i r t] demote_asks [OF assms(1), of X Z rt i r t] remove_asks [OF assms(1), of X Z rt i r t]
  unfolding V_def by (intro conjI impI)

section \<open>A node that leaves\<close>

text \<open>
  What openraft documents of a change of membership: on a node that is not the leader it is answered by an error
  (\<open>ForwardToLeader\<close>).
\<close>

definition forward_law :: "('e, 'b) env \<Rightarrow> bool" where
  "forward_law Y \<longleftrightarrow> (\<forall>e m e' ch. y_metrics Y e = (m, e') \<and> mt_state m \<noteq> Leader \<longrightarrow> (\<exists>x. fst (y_change_membership Y ch e') = Inl x))"

definition follower_at :: "('e, 'b) env \<Rightarrow> 'e \<Rightarrow> bool" where
  "follower_at Y e \<longleftrightarrow> (\<exists>e0 m. y_metrics Y e0 = (m, e) \<and> mt_state m \<noteq> Leader)"

lemma follower_atI: "y_metrics Y e0 = (m, e) \<Longrightarrow> mt_state m \<noteq> Leader \<Longrightarrow> follower_at Y e"
  unfolding follower_at_def by blast

lemma await_leader_ok: "await_leader Y c n s = (Inr u, t) \<Longrightarrow> follower_at Y (nd_env t)"
proof (induction n arbitrary: s)
  case 0
  then show ?case
    by (subst (asm) await_leader.simps) (auto simp: act_defs call_def intro: follower_atI split: prod.splits if_splits)
next
  case (Suc n)
  then show ?case
    by (subst (asm) await_leader.simps) (auto simp: act_defs call_def intro: follower_atI split: prod.splits if_splits)
qed

lemma step_aside_ok:
  assumes "step_aside X Z Y rt (rt_node_id rt) s = (Inr u, t)"
  shows "follower_at Y (nd_env t)"
proof -
  obtain m e where m: "y_metrics Y (nd_env s) = (m, e)"
    by (cases "y_metrics Y (nd_env s)")
  show ?thesis
  proof (cases "mt_state m = Leader")
    case True
    then have "transfer_leader_away X Z Y rt (s\<lparr>nd_env := e\<rparr>) = (Inr u, t)"
      using assms m by (simp add: step_aside_def is_leader_def seq_def ret_def call_def)
    then obtain c n s' where "await_leader Y c n s' = (Inr u, t)"
      unfolding transfer_leader_away_def seq_def by (auto split: prod.splits elim!: seqE_InrE)
    then show ?thesis
      by (rule await_leader_ok)
  next
    case False
    then show ?thesis
      using assms m by (auto simp: step_aside_def is_leader_def act_defs call_def intro: follower_atI)
  qed
qed

lemma change_refused:
  assumes "forward_law Y" "follower_at Y (nd_env t)"
  shows "\<exists>x. fst (map_err f (raft_change_membership Y ch) t) = Inl x"
proof -
  obtain x where "fst (y_change_membership Y ch (nd_env t)) = Inl x"
    using assms unfolding forward_law_def follower_at_def by blast
  then show ?thesis
    by (auto simp: map_err_simp raft_change_membership_def ask_def seq_def record_event_def call_def split: prod.split)
qed

lemma seqE_fails: "(\<And>a t. m s = (Inr a, t) \<Longrightarrow> \<exists>x. fst (k a t) = Inl x) \<Longrightarrow> \<exists>x. fst (seqE m k s) = Inl x"
  by (cases "m s"; cases "fst (m s)") (auto simp: seqE_simp)

lemma seqE_fails_first: "\<exists>x. fst (m s) = Inl x \<Longrightarrow> \<exists>x. fst (seqE m k s) = Inl x"
  by (rule seqE_fails) auto

text \<open>
  C37: A voter cannot leave by itself. Before it changes the membership, a leader that is to be demoted or removed hands the
  leadership over, and then asks for the change as a follower, which openraft refuses: demoting or removing the node that
  executes the request never succeeds while that node is a voter.
\<close>

theorem voter_cannot_leave_itself:
  assumes "forward_law Y" "y_metrics Y (nd_env s) = (m, e)" "rt_node_id rt |\<in>| voters_of m"
  shows "(\<exists>x. fst (demote_voter X Z Y rt (rt_node_id rt) s) = Inl x) \<and> (\<exists>x. fst (remove_member X Z Y rt (rt_node_id rt) s) = Inl x)"
proof -
  let ?i = "rt_node_id rt" and ?view = "view_of m" and ?s = "s\<lparr>nd_env := e\<rparr>"
  have start: "seq (membership_view Y) k s = k ?view ?s" for k :: "members_view \<Rightarrow> ('a node, run_error + unit) act"
    using assms(2) by (simp add: seq_def membership_view_def call_def ret_def)
  have refused: "\<exists>x. fst (map_err RE_Raft (raft_change_membership Y ch) t) = Inl x"
    if "step_aside X Z Y rt ?i u = (Inr v, t)" for ch t u v
    by (rule change_refused [OF assms(1) step_aside_ok [OF that]])
  have voter: "view_is_voter ?view ?i"
    using assms(3) by (simp add: view_is_voter_iff)
  have member: "view_is_member ?view ?i"
    using voter by (auto simp: view_is_voter_def view_is_member_def view_find_def view_all_def find_None_iff list_ex_iff)
  have "\<exists>x. fst (demote_voter X Z Y rt ?i s) = Inl x"
    using voter unfolding demote_voter_def start by (simp, intro seqE_fails seqE_fails_first refused)
  moreover have "\<exists>x. fst (remove_member X Z Y rt ?i s) = Inl x"
    using voter member unfolding remove_member_def start
    by (simp, intro seqE_fails [of "step_aside X Z Y rt ?i"] seqE_fails_first seqE_fails [of "of_res _ _"])
      (auto simp: of_res_def ok_def ret_def fail_def split: sum.splits dest: refused)
  ultimately show ?thesis ..
qed

section \<open>A concrete system\<close>

text \<open>The environment is the metrics; calls change nothing in it and a change of membership follows the law above.\<close>

definition demo_system :: "(metrics, unit) env" where
  "demo_system = \<lparr>y_now = (\<lambda>e. (1000, e)), y_uptime = (\<lambda>e. (0, e)), y_random = (\<lambda>e. (replicate 32 (CHR ''r''), e)), y_io = (\<lambda>e. (io_fine, e)),
     y_remove_io = (\<lambda>e. (None, e)), y_polls = (\<lambda>e. (3, e)), y_metrics = (\<lambda>e. (e, e)), y_policy = (\<lambda>e. ((policy_new ''net'')\<lparr>ps_index_expires_at := 5000\<rparr>, e)),
     y_applied = (\<lambda>e. (Some 1, e)), y_open_storage = (\<lambda>_ _ e. (Inr [], e)), y_config_ok = (\<lambda>_. None), y_raft_new = (\<lambda>_ _ e. (Inr (), e)),
     y_initialize = (\<lambda>_ e. (Inr (), e)), y_initialized = (\<lambda>e. (Inr True, e)),
     y_client_write = (\<lambda>c e. (Inr (fst (apply_command_at demo_ext c 2 (policy_new ''net'')), 2), e)),
     y_add_learner = (\<lambda>_ _ _ e. (Inr (), e)),
     y_change_membership = (\<lambda>_ e. (if mt_state e = Leader then Inr () else Inl ''forward to leader'', e)),
     y_rpc = (\<lambda>_ e. (Inr [], e)), y_add_key = (\<lambda>_ _ _ e. (Inr (), e)), y_send = (\<lambda>_ _ _ e. (Inr [], e)),
     y_whoami = (\<lambda>e. (Inr ''me'', e)), y_discover = (\<lambda>_ e. (Inr [], e))\<rparr>"

definition demo_metrics :: metrics where
  "demo_metrics = \<lparr>mt_state = Leader, mt_term = 1, mt_leader = Some 1, mt_last_applied = Some 1, mt_last_log = Some 1,
     mt_nodes = bt_insert 2 \<lparr>rn_peer_id = ''p2'', rn_identity_key = ''k2'', rn_x25519_key = ''x2''\<rparr>
       (bt_insert 1 \<lparr>rn_peer_id = ''p1'', rn_identity_key = ''k1'', rn_x25519_key = ''x1''\<rparr> bt_empty),
     mt_voters = {|1, 2|}\<rparr>"

definition demo_runtime :: raft_runtime where
  "demo_runtime = \<lparr>rt_identity = \<lparr>ik_seed = demo_sk, ik_public_key_b64 = ''k1''\<rparr>, rt_cluster_id = ''c'', rt_node_id = 1, rt_peer_id = ''p1'',
     rt_service = ''auth'', rt_x25519 = \<lparr>sx_secret = demo_sk, sx_public_b64 = ''x1''\<rparr>\<rparr>"

definition demo_context :: auth_context where
  "demo_context = \<lparr>ac_authority = Some \<lparr>au_key = demo_sk, au_network = ''net'', au_net_hash = net_hash demo_ext ''net''\<rparr>,
     ac_authority_key_path = ([''data''], ''seed.key''), ac_store = demo_store,
     ac_admin = \<lparr>aa_mac_key = demo_sk, aa_guard = guard_default\<rparr>, ac_admin_keys = demo_verifier, ac_join = join_server_new ''pw'' True,
     ac_replicate = \<lparr>ra_key = demo_sk, ra_guard = guard_default\<rparr>,
     ac_publisher = \<lparr>pu_clients = [1], pu_publish_notify = False, pu_renew_notify = False, pu_next_id = 2,
       pu_status = \<lparr>pb_last_epoch = None, pb_last_ok = False, pb_last_error = None, pb_last_at = None\<rparr>\<rparr>,
     ac_raft = Some demo_runtime, ac_admin_raft = Some demo_runtime, ac_raft_required = True, ac_network = ''net'', ac_service_name = ''auth'',
     ac_expires_secs = 3600, ac_renew_secs = 1200\<rparr>"

definition demo_node :: "metrics node" where
  "demo_node = \<lparr>nd_ctx = demo_context, nd_verifier = rpc_verifier_new ''c'' 1, nd_fs = demo_fs, nd_trace = [], nd_env = demo_metrics\<rparr>"

definition demo_serde :: "unit serde" where
  "demo_serde = \<lparr>z_value = Map.empty, z_mgmt = Map.empty, z_v2 = Map.empty, z_forwarded = Map.empty, z_replicate = Map.empty, z_sync = Map.empty,
     z_join = Map.empty, z_raft_join = Map.empty, z_seed_delivery = Map.empty, z_seed_drop = Map.empty, z_envelope = Map.empty,
     z_reply = Map.empty, z_ack = Map.empty, z_join_response = Map.empty, z_join_token = Map.empty, z_body = Map.empty, z_unbody = Map.empty,
     z_text = (\<lambda>_. []), z_publish_text = (\<lambda>_. [])\<rparr>"

lemma demo_metrics_read: "y_metrics demo_system (nd_env demo_node) = (demo_metrics, demo_metrics)"
  by (simp add: demo_system_def demo_node_def)

lemma fset_of_list_nonempty: "x \<in> set xs \<Longrightarrow> fset_of_list xs \<noteq> {||}"
  by (metis fempty_iff fset_of_list_elem)

lemma demo_voters: "voters_of demo_metrics = {|1, 2|}"
  by (rule fset_eqI) (auto simp: voters_of_def demo_metrics_def bt_keys_def fset_of_list.rep_eq)

theorem membership_changes_safe_witness:
  "\<exists>t. demote_voter demo_ext demo_serde demo_system demo_runtime 2 demo_node = (Inr (), t) \<and> asks 2 [SetVoters ({|1, 2|} |-| {|2|})] demo_node t"
proof -
  obtain r t where run: "demote_voter demo_ext demo_serde demo_system demo_runtime 2 demo_node = (r, t)"
    by fastforce
  have "view_is_voter (view_of demo_metrics) 2"
    by (simp add: view_is_voter_iff demo_voters)
  moreover obtain vs where "remaining_voters (map mi_node_id (mv_voters (view_of demo_metrics))) 2 = Inr vs"
  proof -
    have "1 |\<in>| fset_of_list (map mi_node_id (mv_voters (view_of demo_metrics)))"
      unfolding view_voters demo_voters by simp
    then have "fset_of_list (filter (\<lambda>j. j \<noteq> 2) (map mi_node_id (mv_voters (view_of demo_metrics)))) \<noteq> {||}"
      by (intro fset_of_list_nonempty) (auto simp: fset_of_list_elem)
    then show ?thesis
      using that by (simp only: remaining_voters_def Let_def if_False)
  qed
  moreover have "mt_state demo_metrics = Leader"
    by (simp add: demo_metrics_def)
  ultimately have "r = Inr ()"
    using run unfolding demote_voter_def after_view [OF demo_metrics_read]
    by (auto simp: of_res_def step_aside_def demo_runtime_def raft_change_membership_def ask_def record_event_def call_def demo_system_def
        refresh_verifier_from_metrics_def set_verifier_def act_defs Let_def split: if_splits)
  with run show ?thesis
    using membership_changes_safe [OF demo_metrics_read, of demo_ext 2 "Inr ()" t demo_serde demo_runtime] by (simp add: demo_voters)
qed

theorem voter_cannot_leave_itself_witness:
  "\<exists>x. fst (demote_voter demo_ext demo_serde demo_system demo_runtime 1 demo_node) = Inl x"
proof -
  have "forward_law demo_system"
    by (simp add: forward_law_def demo_system_def)
  moreover have "rt_node_id demo_runtime |\<in>| voters_of demo_metrics"
    by (simp add: demo_voters demo_runtime_def)
  ultimately show ?thesis
    using voter_cannot_leave_itself [OF _ demo_metrics_read, of demo_runtime demo_ext demo_serde] by (simp add: demo_runtime_def)
qed

end
