(* ===== verification/Publisher.thy ===== *)
theory Publisher
  imports Cluster
begin

text \<open>
  \<open>src/publisher.rs\<close>: publication of the signed whitelists and of the index on all connections. In Raft mode only the leader
  publishes, from a snapshot of the policy state; the old mode publishes the local store. The background loop chooses
  between its triggers nondeterministically, so only its round is modelled.
\<close>

section \<open>The publisher's state\<close>

abbreviation PUBLISH_ATTEMPTS :: nat where "PUBLISH_ATTEMPTS \<equiv> 3"
abbreviation PUBLISH_ROUND_ATTEMPTS :: nat where "PUBLISH_ROUND_ATTEMPTS \<equiv> 3"

datatype publish_outcome = Published u64 | NoConnections | NotLeader

definition publisher_new :: publisher where
  "publisher_new = \<lparr>pu_clients = [], pu_publish_notify = False, pu_renew_notify = False, pu_next_id = 1,
     pu_status = \<lparr>pb_last_epoch = None, pb_last_ok = False, pb_last_error = None, pb_last_at = None\<rparr>\<rparr>"

definition register :: "publisher \<Rightarrow> u64 \<times> publisher" where
  "register p = (pu_next_id p, p\<lparr>pu_clients := pu_clients p @ [pu_next_id p], pu_publish_notify := True, pu_next_id := pu_next_id p + 1\<rparr>)"

definition unregister :: "u64 \<Rightarrow> publisher \<Rightarrow> publisher" where
  "unregister i p = p\<lparr>pu_clients := filter (\<lambda>j. j \<noteq> i) (pu_clients p)\<rparr>"

abbreviation notify_publish :: "publisher \<Rightarrow> publisher" where
  "notify_publish p \<equiv> p\<lparr>pu_publish_notify := True\<rparr>"

abbreviation notify_renew :: "publisher \<Rightarrow> publisher" where
  "notify_renew p \<equiv> p\<lparr>pu_renew_notify := True\<rparr>"

abbreviation connection_count :: "publisher \<Rightarrow> nat" where
  "connection_count p \<equiv> length (pu_clients p)"

definition any_client :: "publisher \<Rightarrow> u64 option" where
  "any_client p = (case pu_clients p of [] \<Rightarrow> None | c # _ \<Rightarrow> Some c)"

definition success_status :: "u64 \<Rightarrow> u64 \<Rightarrow> publish_status \<Rightarrow> publish_status" where
  "success_status now epoch st = \<lparr>pb_last_epoch = Some epoch, pb_last_ok = True, pb_last_error = None, pb_last_at = Some now\<rparr>"

definition failure_status :: "u64 \<Rightarrow> u64 option \<Rightarrow> publish_error \<Rightarrow> publish_status \<Rightarrow> publish_status" where
  "failure_status now epoch e st = \<lparr>
     pb_last_epoch = (case epoch of
        None \<Rightarrow> pb_last_epoch st
      | Some n \<Rightarrow> Some (case pb_last_epoch st of None \<Rightarrow> n | Some p \<Rightarrow> max p n)),
     pb_last_ok = False, pb_last_error = Some e, pb_last_at = Some now\<rparr>"

definition upd_publisher :: "(publisher \<Rightarrow> publisher) \<Rightarrow> ('e node, unit) act" where
  "upd_publisher f = upd_ctx (\<lambda>c. c\<lparr>ac_publisher := f (ac_publisher c)\<rparr>)"

definition record_success :: "('e, 'b) env \<Rightarrow> u64 \<Rightarrow> ('e node, unit) act" where
  "record_success Y epoch = seq (call (y_now Y)) (\<lambda>now.
     upd_publisher (\<lambda>p. p\<lparr>pu_status := success_status now epoch (pu_status p)\<rparr>))"

definition record_failure :: "('e, 'b) env \<Rightarrow> u64 option \<Rightarrow> publish_error \<Rightarrow> ('e node, unit) act" where
  "record_failure Y epoch e = seq (call (y_now Y)) (\<lambda>now.
     upd_publisher (\<lambda>p. p\<lparr>pu_status := failure_status now epoch e (pu_status p)\<rparr>))"

text \<open>A failure that is recorded and returned.\<close>

definition failed :: "('e, 'b) env \<Rightarrow> u64 option \<Rightarrow> publish_error \<Rightarrow> ('e node, publish_error + 'a) act" where
  "failed Y epoch e = seq (record_failure Y epoch e) (\<lambda>_. fail e)"

section \<open>One record\<close>

fun add_key_attempts ::
  "('e, 'b) env \<Rightarrow> u64 \<Rightarrow> string \<Rightarrow> bytes \<Rightarrow> nat \<Rightarrow> sidecar_error \<Rightarrow> ('e node, sidecar_error + unit) act" where
  "add_key_attempts Y c k v 0 e = ret (Inl e)"
| "add_key_attempts Y c k v (Suc n) e =
     seq (add_key Y c k v) (\<lambda>r. case r of Inr _ \<Rightarrow> ret (Inr ()) | Inl e' \<Rightarrow> add_key_attempts Y c k v n e')"

definition add_key_with_retry ::
  "('e, 'b) env \<Rightarrow> u64 \<Rightarrow> string \<Rightarrow> bytes \<Rightarrow> ('e node, sidecar_error + unit) act" where
  "add_key_with_retry Y c k v =
     add_key_attempts Y c k v PUBLISH_ATTEMPTS (sidecar_error_new ''publish_failed'' ''no attempt made'')"

text \<open>On all connections; the first error is kept.\<close>

fun publish_to ::
  "('e, 'b) env \<Rightarrow> string \<Rightarrow> bytes \<Rightarrow> u64 list \<Rightarrow> publish_error option \<Rightarrow> ('e node, publish_error option) act" where
  "publish_to Y k v [] first = ret first"
| "publish_to Y k v (c # cs) first =
     seq (add_key_with_retry Y c k v) (\<lambda>r.
       publish_to Y k v cs
         (case r of Inr _ \<Rightarrow> first | Inl e \<Rightarrow> (case first of None \<Rightarrow> Some (PE_Conn c k e) | Some x \<Rightarrow> Some x)))"

definition publish_record :: "('e, 'b) env \<Rightarrow> string \<Rightarrow> bytes \<Rightarrow> ('e node, publish_error + unit) act" where
  "publish_record Y k v =
     seq (gets (\<lambda>s. pu_clients (ac_publisher (nd_ctx s)))) (\<lambda>clients.
     seq (publish_to Y k v clients None) (\<lambda>first. case first of None \<Rightarrow> ok () | Some e \<Rightarrow> fail e))"

section \<open>Whitelists and index\<close>

type_synonym service_list = "(string \<times> u64 \<times> string list) list"

text \<open>All whitelists are signed before the first is published: their index entries and their records.\<close>

fun sign_services ::
  "ext \<Rightarrow> authority \<Rightarrow> service_list \<Rightarrow> publish_error + service_entry list \<times> (string \<times> bytes) list" where
  "sign_services X a [] = Inr ([], [])"
| "sign_services X a ((name, ver, members) # services) =
     (case sign_whitelist X a name \<lparr>wl_version = ver, wl_members = members\<rparr> of
        Inl e \<Rightarrow> Inl (PE_WhitelistSign name e)
      | Inr v \<Rightarrow>
          (case service_key a name of
             Inl e \<Rightarrow> Inl (PE_Service name e)
           | Inr key \<Rightarrow>
               (case sign_services X a services of
                  Inl e \<Rightarrow> Inl e
                | Inr (es, ps) \<Rightarrow>
                    Inr (\<lparr>se_name = name, se_hash = content_hash X v, se_length = of_nat (length v)\<rparr> # es, (key, v) # ps))))"

fun publish_pending :: "('e, 'b) env \<Rightarrow> (string \<times> bytes) list \<Rightarrow> ('e node, publish_error + unit) act" where
  "publish_pending Y [] = ok ()"
| "publish_pending Y ((k, v) # ps) = seqE (publish_record Y k v) (\<lambda>_. publish_pending Y ps)"

definition publish_whitelists ::
  "ext \<Rightarrow> ('e, 'b) env \<Rightarrow> service_list \<Rightarrow> ('e node, publish_error + service_entry list) act" where
  "publish_whitelists X Y services =
     seq (gets nd_ctx) (\<lambda>c.
     seqE (of_opt PE_NoSeed (ctx_authority X c)) (\<lambda>a.
     seqE (of_res (\<lambda>e. e) (sign_services X a services)) (\<lambda>(es, ps).
     seqE (publish_pending Y ps) (\<lambda>_. ok es))))"

definition publish_index ::
  "ext \<Rightarrow> ('e, 'b) env \<Rightarrow> u64 \<Rightarrow> u64 \<Rightarrow> service_entry list \<Rightarrow> ('e node, publish_error + unit) act" where
  "publish_index X Y index_version expires_at services =
     seq (gets nd_ctx) (\<lambda>c.
     seqE (of_opt PE_NoSeed (ctx_authority X c)) (\<lambda>a.
     seqE (of_res PE_IndexSign (sign_index X a \<lparr>ix_version = index_version, ix_expires_at = expires_at, ix_services = services\<rparr>)) (\<lambda>b.
     publish_record Y (index_key a) b)))"

section \<open>Rounds\<close>

definition policy_services :: "policy_state \<Rightarrow> service_list" where
  "policy_services p = map (\<lambda>(name, sv). (name, ss_version sv, sorted_list_of_fset (ss_members sv))) (entries (ps_services p))"

text \<open>The expiry of the index is renewed through Raft when it is asked for or due.\<close>

definition renewed_state :: "('e, 'b) env \<Rightarrow> bool \<Rightarrow> u64 \<Rightarrow> ('e node, publish_error + policy_state) act" where
  "renewed_state Y renew expires_secs =
     seq (policy_snapshot Y) (\<lambda>p. seq (call (y_now Y)) (\<lambda>now.
       if renew \<or> ps_index_expires_at p \<le> now
       then seq (propose Y (RenewIndex (sat_add now expires_secs))) (\<lambda>r.
         case r of
           Inl e \<Rightarrow> failed Y (Some (ps_policy_epoch p)) (PE_Renew e)
         | Inr _ \<Rightarrow> seq (policy_snapshot Y) ok)
       else ok p))"

text \<open>The part of a round after the checks; \<open>p\<close> is the state that is published.\<close>

definition publish_state :: "ext \<Rightarrow> ('e, 'b) env \<Rightarrow> policy_state \<Rightarrow> ('e node, publish_error + publish_outcome) act" where
  "publish_state X Y p =
     (let epoch = ps_policy_epoch p in
      seq (publish_whitelists X Y (policy_services p)) (\<lambda>r.
        case r of
          Inl e \<Rightarrow> failed Y (Some epoch) e
        | Inr es \<Rightarrow>
            seq (is_leader Y) (\<lambda>l.
              if \<not> l then failed Y (Some epoch) PE_LostLeader
              else seq (publish_index X Y epoch (ps_index_expires_at p) es) (\<lambda>r'.
                case r' of
                  Inl e \<Rightarrow> failed Y (Some epoch) e
                | Inr _ \<Rightarrow> seq (record_success Y epoch) (\<lambda>_. ok (Published epoch))))))"

definition publish_once_raft :: "ext \<Rightarrow> ('e, 'b) env \<Rightarrow> bool \<Rightarrow> ('e node, publish_error + publish_outcome) act" where
  "publish_once_raft X Y renew =
     seq (gets nd_ctx) (\<lambda>c.
     if ac_admin_raft c = None then fail PE_NotReady else
     seq (is_leader Y) (\<lambda>l. if \<not> l then ok NotLeader else
     seqE (renewed_state Y renew (ac_expires_secs c)) (\<lambda>p.
     seq (is_leader Y) (\<lambda>l'. if \<not> l' then ok NotLeader else
     seq (gets (\<lambda>s. pb_last_epoch (pu_status (ac_publisher (nd_ctx s))))) (\<lambda>last_epoch.
     let epoch = ps_policy_epoch p in
     case (case last_epoch of None \<Rightarrow> None | Some n \<Rightarrow> if epoch < n then Some n else None) of
       Some n \<Rightarrow> failed Y (Some epoch) (PE_Stale epoch n)
     | None \<Rightarrow>
         if ps_index_expires_at p = 0 then failed Y (Some epoch) PE_NoExpiry
         else publish_state X Y p)))))"

definition on_store :: "(store \<Rightarrow> fs \<Rightarrow> 'a \<times> store \<times> fs) \<Rightarrow> ('e node, 'a) act" where
  "on_store f s = (case f (ac_store (nd_ctx s)) (nd_fs s) of
     (a, st, t) \<Rightarrow> (a, s\<lparr>nd_ctx := (nd_ctx s)\<lparr>ac_store := st\<rparr>, nd_fs := t\<rparr>))"

definition store_services :: "store \<Rightarrow> service_list" where
  "store_services st = map (\<lambda>name. (name, (case store_version st name of None \<Rightarrow> 1 | Some v \<Rightarrow> v),
     (case store_members st name of None \<Rightarrow> [] | Some ms \<Rightarrow> ms))) (service_names st)"

definition publish_once ::
  "store_env \<Rightarrow> ('e, 'b) env \<Rightarrow> bool \<Rightarrow> ('e node, publish_error + publish_outcome) act" where
  "publish_once E Y renew =
     seq (gets nd_ctx) (\<lambda>c.
     if pu_clients (ac_publisher c) = [] then ok NoConnections
     else if ac_raft_required c then publish_once_raft (en_ext E) Y renew
     else
       seq (call (y_io Y)) (\<lambda>e.
       seq (if renew then seq (on_store (bump_index_version (E\<lparr>en_io := e\<rparr>))) (\<lambda>_. ret ()) else ret ()) (\<lambda>_.
       seq (gets (\<lambda>s. ac_store (nd_ctx s))) (\<lambda>st.
       seq (call (y_now Y)) (\<lambda>now.
       seqE (publish_whitelists (en_ext E) Y (store_services st)) (\<lambda>es.
       seqE (publish_index (en_ext E) Y (st_index_version st) (sat_add now (ac_expires_secs c)) es) (\<lambda>_.
       seq (record_success Y (st_index_version st)) (\<lambda>_. ok (Published (st_index_version st))))))))))"

fun publish_attempts ::
  "store_env \<Rightarrow> ('e, 'b) env \<Rightarrow> bool \<Rightarrow> nat \<Rightarrow> publish_error \<Rightarrow> ('e node, publish_error + publish_outcome) act" where
  "publish_attempts E Y renew 0 e = fail e"
| "publish_attempts E Y renew (Suc n) e =
     seq (publish_once E Y renew) (\<lambda>r. case r of Inr out \<Rightarrow> ok out | Inl e' \<Rightarrow> publish_attempts E Y renew n e')"

definition publish_with_retry ::
  "store_env \<Rightarrow> ('e, 'b) env \<Rightarrow> bool \<Rightarrow> nat \<Rightarrow> ('e node, publish_error + publish_outcome) act" where
  "publish_with_retry E Y renew attempts = publish_attempts E Y renew (max attempts 1) PE_NotAttempted"

definition run_publish_round :: "store_env \<Rightarrow> ('e, 'b) env \<Rightarrow> bool \<Rightarrow> ('e node, unit) act" where
  "run_publish_round E Y renew = seq (publish_with_retry E Y renew PUBLISH_ROUND_ATTEMPTS) (\<lambda>_. ret ())"

definition publish_now :: "store_env \<Rightarrow> ('e, 'b) env \<Rightarrow> bool \<Rightarrow> ('e node, publish_error + publish_outcome) act" where
  "publish_now E Y renew = publish_once E Y renew"

section \<open>What a publication does\<close>

text \<open>Only these records are published; each of them is accepted by all connections.\<close>

definition only_adds :: "(string \<times> bytes) list \<Rightarrow> event list \<Rightarrow> bool" where
  "only_adds kvs evs \<longleftrightarrow> (\<forall>ev \<in> set evs. \<exists>c k v b. ev = Ev_AddKey c k v b \<and> (k, v) \<in> set kvs)"

definition published :: "u64 list \<Rightarrow> (string \<times> bytes) list \<Rightarrow> event list \<Rightarrow> bool" where
  "published clients kvs evs \<longleftrightarrow> (\<forall>(k, v) \<in> set kvs. \<forall>c \<in> set clients. Ev_AddKey c k v True \<in> set evs)"

definition clients_of :: "'e node \<Rightarrow> u64 list" where
  "clients_of s = pu_clients (ac_publisher (nd_ctx s))"

text \<open>An action that publishes \<open>kvs\<close>, completely when it succeeds, and changes nothing else in the process.\<close>

definition publishes :: "(string \<times> bytes) list \<Rightarrow> ('e node, 'x + 'a) act \<Rightarrow> bool" where
  "publishes kvs m \<longleftrightarrow> (\<forall>s r t. m s = (r, t) \<longrightarrow> nd_ctx t = nd_ctx s \<and>
     (\<exists>evs. nd_trace t = nd_trace s @ evs \<and> only_adds kvs evs \<and> (\<forall>a. r = Inr a \<longrightarrow> published (clients_of s) kvs evs)))"

lemma publishesD:
  assumes "publishes kvs m" "m s = (r, t)"
  obtains evs where "nd_ctx t = nd_ctx s" "nd_trace t = nd_trace s @ evs" "only_adds kvs evs"
    "\<forall>a. r = Inr a \<longrightarrow> published (clients_of s) kvs evs"
proof -
  have "nd_ctx t = nd_ctx s \<and> (\<exists>evs. nd_trace t = nd_trace s @ evs \<and> only_adds kvs evs \<and>
      (\<forall>a. r = Inr a \<longrightarrow> published (clients_of s) kvs evs))"
    using assms(1) [unfolded publishes_def, rule_format, OF assms(2)] by simp
  then show ?thesis
    using that by (elim conjE exE)
qed

lemma add_key_attempts_spec:
  "add_key_attempts Y c k v n e s = (r, t) \<Longrightarrow> nd_ctx t = nd_ctx s \<and>
     (\<exists>evs. nd_trace t = nd_trace s @ evs \<and> only_adds [(k, v)] evs \<and> (r = Inr () \<longrightarrow> Ev_AddKey c k v True \<in> set evs))"
proof (induction n arbitrary: e s)
  case 0
  then show ?case
    by (auto simp: ret_def only_adds_def)
next
  case (Suc n)
  obtain q u where q: "y_add_key Y c k v (nd_env s) = (q, u)"
    by (cases "y_add_key Y c k v (nd_env s)")
  let ?s = "s\<lparr>nd_env := u, nd_trace := nd_trace s @ [Ev_AddKey c k v (q = Inr ())]\<rparr>"
  have step: "add_key Y c k v s = (q, ?s)"
    by (simp add: add_key_def seq_def call_def ret_def record_event_def q)
  show ?case
  proof (cases q)
    case (Inl e')
    then have "add_key_attempts Y c k v n e' ?s = (r, t)"
      using Suc.prems step by (simp add: seq_def)
    from Suc.IH [OF this] obtain evs where evs: "nd_ctx t = nd_ctx s" "nd_trace t = nd_trace s @ Ev_AddKey c k v False # evs"
        "only_adds [(k, v)] evs" "r = Inr () \<longrightarrow> Ev_AddKey c k v True \<in> set evs"
      using Inl by auto
    then show ?thesis
      by (intro conjI exI [of _ "Ev_AddKey c k v False # evs"]) (auto simp: only_adds_def)
  next
    case (Inr w)
    then show ?thesis
      using Suc.prems step by (auto simp: seq_def ret_def only_adds_def)
  qed
qed

lemma publish_to_spec:
  "publish_to Y k v cs first s = (r, t) \<Longrightarrow> nd_ctx t = nd_ctx s \<and>
     (\<exists>evs. nd_trace t = nd_trace s @ evs \<and> only_adds [(k, v)] evs \<and>
        (r = None \<longrightarrow> first = None \<and> (\<forall>c \<in> set cs. Ev_AddKey c k v True \<in> set evs)))"
proof (induction cs arbitrary: first s)
  case Nil
  then show ?case
    by (auto simp: ret_def only_adds_def)
next
  case (Cons c cs)
  obtain q s1 where q: "add_key_with_retry Y c k v s = (q, s1)"
    by (cases "add_key_with_retry Y c k v s")
  from add_key_attempts_spec [OF q [unfolded add_key_with_retry_def]] obtain evs where evs: "nd_ctx s1 = nd_ctx s"
      "nd_trace s1 = nd_trace s @ evs" "only_adds [(k, v)] evs" "q = Inr () \<longrightarrow> Ev_AddKey c k v True \<in> set evs"
    by blast
  let ?first = "case q of Inr _ \<Rightarrow> first | Inl e \<Rightarrow> (case first of None \<Rightarrow> Some (PE_Conn c k e) | Some x \<Rightarrow> Some x)"
  have "publish_to Y k v cs ?first s1 = (r, t)"
    using Cons.prems q by (simp add: seq_def)
  from Cons.IH [OF this] obtain evs' where evs': "nd_ctx t = nd_ctx s1" "nd_trace t = nd_trace s1 @ evs'" "only_adds [(k, v)] evs'"
      "r = None \<longrightarrow> ?first = None \<and> (\<forall>c \<in> set cs. Ev_AddKey c k v True \<in> set evs')"
    by blast
  then show ?case
    using evs by (intro conjI exI [of _ "evs @ evs'"]) (auto simp: only_adds_def split: sum.splits option.splits)
qed

lemma publish_record_spec: "publishes [(k, v)] (publish_record Y k v)"
  unfolding publishes_def
proof (intro allI impI)
  fix s :: "'a node" and r t
  assume a: "publish_record Y k v s = (r, t)"
  obtain first s1 where f: "publish_to Y k v (clients_of s) None s = (first, s1)"
    by (cases "publish_to Y k v (clients_of s) None s")
  then have "t = s1 \<and> (\<forall>u. r = Inr u \<longrightarrow> first = None)"
    using a by (auto simp: publish_record_def seq_def gets_def clients_of_def ok_def ret_def fail_def split: option.splits)
  then show "nd_ctx t = nd_ctx s \<and> (\<exists>evs. nd_trace t = nd_trace s @ evs \<and> only_adds [(k, v)] evs \<and>
      (\<forall>u. r = Inr u \<longrightarrow> published (clients_of s) [(k, v)] evs))"
    using publish_to_spec [OF f] by (auto simp: published_def)
qed

lemma publish_pending_spec: "publishes kvs (publish_pending Y kvs)"
proof (induction kvs)
  case Nil
  then show ?case
    by (auto simp: publishes_def ok_def ret_def only_adds_def published_def)
next
  case (Cons kv kvs)
  obtain k v where kv: "kv = (k, v)" by (cases kv)
  show ?case
    unfolding publishes_def
  proof (intro allI impI)
    fix s :: "'a node" and r t
    assume a: "publish_pending Y (kv # kvs) s = (r, t)"
    obtain q s1 where q: "publish_record Y k v s = (q, s1)"
      by (cases "publish_record Y k v s")
    from publishesD [OF publish_record_spec q] obtain evs where evs: "nd_ctx s1 = nd_ctx s" "nd_trace s1 = nd_trace s @ evs"
      "only_adds [(k, v)] evs" "\<forall>u. q = Inr u \<longrightarrow> published (clients_of s) [(k, v)] evs" .
    show "nd_ctx t = nd_ctx s \<and> (\<exists>evs. nd_trace t = nd_trace s @ evs \<and> only_adds (kv # kvs) evs \<and>
        (\<forall>u. r = Inr u \<longrightarrow> published (clients_of s) (kv # kvs) evs))"
    proof (cases q)
      case (Inl e)
      then show ?thesis
        using a q kv evs by (auto simp: seqE_simp only_adds_def)
    next
      case (Inr u)
      then have "publish_pending Y kvs s1 = (r, t)"
        using a q kv by (simp add: seqE_simp)
      from publishesD [OF Cons this] obtain evs' where evs': "nd_ctx t = nd_ctx s1" "nd_trace t = nd_trace s1 @ evs'"
        "only_adds kvs evs'" "\<forall>u. r = Inr u \<longrightarrow> published (clients_of s1) kvs evs'" .
      then show ?thesis
        using evs kv Inr by (intro conjI exI [of _ "evs @ evs'"]) (auto simp: only_adds_def published_def clients_of_def)
    qed
  qed
qed

lemma sign_services_keys:
  "sign_services X a sv = Inr (es, ps) \<Longrightarrow> (k, v) \<in> set ps \<Longrightarrow> \<exists>name. service_key a name = Inr k"
  by (induction X a sv arbitrary: es ps rule: sign_services.induct) (auto split: sum.splits prod.splits)

text \<open>An event of a round before the index: a renewal, or a whitelist under the key of a service.\<close>

definition early_event :: "ext \<Rightarrow> auth_context \<Rightarrow> event \<Rightarrow> bool" where
  "early_event X c ev \<longleftrightarrow> (\<exists>x. ev = Ev_Propose (RenewIndex x)) \<or>
     (\<exists>cn k v b a name. ev = Ev_AddKey cn k v b \<and> ctx_authority X c = Some a \<and> service_key a name = Inr k)"

lemma early_adds:
  assumes "ctx_authority X c = Some a" "sign_services X a sv = Inr (es, ps)" "only_adds ps evs" "ev \<in> set evs"
  shows "early_event X c ev"
proof -
  obtain cn k v b where ev: "ev = Ev_AddKey cn k v b" "(k, v) \<in> set ps"
    using assms(3,4) unfolding only_adds_def by blast
  obtain name where "service_key a name = Inr k"
    using sign_services_keys [OF assms(2) ev(2)] by blast
  then show ?thesis
    using ev(1) assms(1) by (auto simp: early_event_def)
qed

lemma publish_whitelists_spec:
  assumes "publish_whitelists X Y sv s = (r, t)"
  shows "nd_ctx t = nd_ctx s \<and> (\<exists>evs. nd_trace t = nd_trace s @ evs \<and> (\<forall>ev \<in> set evs. early_event X (nd_ctx s) ev) \<and>
    (\<forall>es. r = Inr es \<longrightarrow> (\<exists>a ps. ctx_authority X (nd_ctx s) = Some a \<and> sign_services X a sv = Inr (es, ps) \<and>
       published (clients_of s) ps evs)))"
proof (cases "ctx_authority X (nd_ctx s)")
  case None
  then show ?thesis
    using assms by (auto simp: publish_whitelists_def act_defs)
next
  case (Some a)
  show ?thesis
  proof (cases "sign_services X a sv")
    case (Inl e)
    then show ?thesis
      using assms Some by (auto simp: publish_whitelists_def act_defs)
  next
    case (Inr esps)
    obtain es ps where ep: "esps = (es, ps)" by (cases esps)
    obtain q u where q: "publish_pending Y ps s = (q, u)"
      by (cases "publish_pending Y ps s")
    from publishesD [OF publish_pending_spec q] obtain evs where evs: "nd_ctx u = nd_ctx s" "nd_trace u = nd_trace s @ evs"
      "only_adds ps evs" "\<forall>w. q = Inr w \<longrightarrow> published (clients_of s) ps evs" .
    have "u = t \<and> (\<forall>es'. r = Inr es' \<longrightarrow> es' = es \<and> q = Inr ())"
      using assms Some Inr ep q by (cases q) (auto simp: publish_whitelists_def act_defs)
    then show ?thesis
      using evs early_adds [OF Some Inr [unfolded ep] evs(3)] Some Inr ep by (intro conjI exI [of _ evs]) auto
  qed
qed

lemma publish_index_spec:
  assumes "publish_index X Y n x es s = (r, t)"
  shows "nd_ctx t = nd_ctx s \<and> (nd_trace t = nd_trace s \<and> (\<exists>e. r = Inl e) \<or>
    (\<exists>a b evs. ctx_authority X (nd_ctx s) = Some a \<and>
       sign_index X a \<lparr>ix_version = n, ix_expires_at = x, ix_services = es\<rparr> = Inr b \<and> nd_trace t = nd_trace s @ evs \<and>
       only_adds [(index_key a, b)] evs \<and> (\<forall>u. r = Inr u \<longrightarrow> published (clients_of s) [(index_key a, b)] evs)))"
proof (cases "ctx_authority X (nd_ctx s)")
  case None
  then show ?thesis
    using assms by (auto simp: publish_index_def act_defs)
next
  case (Some a)
  show ?thesis
  proof (cases "sign_index X a \<lparr>ix_version = n, ix_expires_at = x, ix_services = es\<rparr>")
    case (Inl e)
    then show ?thesis
      using assms Some by (auto simp: publish_index_def act_defs)
  next
    case (Inr b)
    then have "publish_record Y (index_key a) b s = (r, t)"
      using assms Some by (simp add: publish_index_def act_defs)
    from publishesD [OF publish_record_spec this] obtain evs where evs: "nd_ctx t = nd_ctx s" "nd_trace t = nd_trace s @ evs"
      "only_adds [(index_key a, b)] evs" "\<forall>u. r = Inr u \<longrightarrow> published (clients_of s) [(index_key a, b)] evs" .
    show ?thesis
      by (intro conjI disjI2 exI [of _ a] exI [of _ b] exI [of _ evs] evs Some Inr)
  qed
qed

text \<open>
  The index of a state after its whitelists: signed over exactly the entries of the whitelists that were accepted on every
  connection before.
\<close>

definition index_round :: "ext \<Rightarrow> 'e node \<Rightarrow> policy_state \<Rightarrow> event list \<Rightarrow> event list \<Rightarrow> bool \<Rightarrow> bool" where
  "index_round X s p pre post complete \<longleftrightarrow> (\<exists>a es ps b. ctx_authority X (nd_ctx s) = Some a \<and>
     sign_services X a (policy_services p) = Inr (es, ps) \<and> published (clients_of s) ps pre \<and>
     sign_index X a \<lparr>ix_version = ps_policy_epoch p, ix_expires_at = ps_index_expires_at p, ix_services = es\<rparr> = Inr b \<and>
     only_adds [(index_key a, b)] post \<and> (complete \<longrightarrow> published (clients_of s) [(index_key a, b)] post))"

lemma failed_spec: "failed Y ep e s = (r, t) \<Longrightarrow> nd_trace t = nd_trace s \<and> r = Inl e"
  by (auto simp: failed_def record_failure_def upd_publisher_def upd_ctx_def call_def seq_def fail_def ret_def split: prod.splits)

lemma record_success_trace: "nd_trace (snd (record_success Y ep s)) = nd_trace s"
  by (auto simp: record_success_def upd_publisher_def upd_ctx_def call_def seq_def split: prod.splits)

lemma is_leader_spec: "is_leader Y s = (l, t) \<Longrightarrow> nd_trace t = nd_trace s \<and> nd_ctx t = nd_ctx s"
  by (auto simp: is_leader_def seq_def call_def ret_def split: prod.splits)

text \<open>What a round in state \<open>p\<close> did: nothing after the whitelists, or the index after all of them.\<close>

definition round_ok :: "ext \<Rightarrow> 'e node \<Rightarrow> policy_state \<Rightarrow> publish_error + publish_outcome \<Rightarrow> 'e node \<Rightarrow> bool" where
  "round_ok X s p r t \<longleftrightarrow> (\<exists>pre post. nd_trace t = nd_trace s @ pre @ post \<and> (\<forall>ev \<in> set pre. early_event X (nd_ctx s) ev) \<and>
     (post = [] \<and> (\<forall>n. r \<noteq> Inr (Published n)) \<or> index_round X s p pre post (\<exists>n. r = Inr (Published n))) \<and>
     (\<forall>n. r = Inr (Published n) \<longrightarrow> n = ps_policy_epoch p))"

lemma round_okI:
  assumes "nd_trace t = nd_trace s @ pre" "\<forall>ev \<in> set pre. early_event X (nd_ctx s) ev" "\<forall>n. r \<noteq> Inr (Published n)"
  shows "round_ok X s p r t"
  unfolding round_ok_def using assms by (intro exI [of _ pre] exI [of _ "[]"]) simp

lemma index_step_ok:
  assumes full: "ctx_authority X (nd_ctx s) = Some a" "sign_services X a (policy_services p) = Inr (es, ps)" "published (clients_of s) ps pre"
    and pre: "nd_trace s2 = nd_trace s @ pre" "nd_ctx s2 = nd_ctx s" "\<forall>ev \<in> set pre. early_event X (nd_ctx s) ev"
    and step: "publish_index X Y (ps_policy_epoch p) (ps_index_expires_at p) es s2 = (q, s3)" "nd_trace t = nd_trace s3"
      "\<forall>n. r = Inr (Published n) \<longleftrightarrow> q = Inr () \<and> n = ps_policy_epoch p"
  shows "round_ok X s p r t"
proof -
  from publish_index_spec [OF step(1)] full(1) pre(2) consider
      (none) e where "nd_trace s3 = nd_trace s2" "q = Inl e"
    | (index) b evs where "sign_index X a \<lparr>ix_version = ps_policy_epoch p, ix_expires_at = ps_index_expires_at p, ix_services = es\<rparr> = Inr b"
        "nd_trace s3 = nd_trace s2 @ evs" "only_adds [(index_key a, b)] evs"
        "\<forall>u. q = Inr u \<longrightarrow> published (clients_of s2) [(index_key a, b)] evs"
    by fastforce
  then show ?thesis
  proof cases
    case none
    then show ?thesis
      using step(2,3) pre by (intro round_okI [of _ _ pre]) auto
  next
    case index
    have "clients_of s2 = clients_of s"
      by (simp add: clients_of_def pre(2))
    then have "index_round X s p pre evs (\<exists>n. r = Inr (Published n))"
      unfolding index_round_def using index full step(3) by (intro exI [of _ a] exI [of _ es] exI [of _ ps] exI [of _ b]) auto
    then show ?thesis
      unfolding round_ok_def using step(2,3) pre index(2) by (intro exI [of _ pre] exI [of _ evs]) auto
  qed
qed

lemma publish_state_spec:
  assumes "publish_state X Y p s = (r, t)"
  shows "round_ok X s p r t"
proof -
  obtain q s1 where q: "publish_whitelists X Y (policy_services p) s = (q, s1)"
    by (cases "publish_whitelists X Y (policy_services p) s")
  obtain pre where pre: "nd_ctx s1 = nd_ctx s" "nd_trace s1 = nd_trace s @ pre" "\<forall>ev \<in> set pre. early_event X (nd_ctx s) ev"
      and full: "\<forall>es. q = Inr es \<longrightarrow> (\<exists>a ps. ctx_authority X (nd_ctx s) = Some a \<and> sign_services X a (policy_services p) = Inr (es, ps) \<and>
        published (clients_of s) ps pre)"
    using publish_whitelists_spec [OF q] by (elim conjE exE) 
  have quiet: "round_ok X s p (Inl e) u" if "nd_trace u = nd_trace s1" for e u
    using pre that by (intro round_okI [of _ _ pre]) simp_all
  show ?thesis
  proof (cases q)
    case (Inl e)
    then have "failed Y (Some (ps_policy_epoch p)) e s1 = (r, t)"
      using assms q by (simp add: publish_state_def Let_def seq_def)
    then show ?thesis
      using failed_spec quiet by metis
  next
    case (Inr es)
    obtain l s2 where l: "is_leader Y s1 = (l, s2)" by (cases "is_leader Y s1")
    obtain q' s3 where q': "publish_index X Y (ps_policy_epoch p) (ps_index_expires_at p) es s2 = (q', s3)"
      by (cases "publish_index X Y (ps_policy_epoch p) (ps_index_expires_at p) es s2")
    have s2: "nd_trace s2 = nd_trace s1" "nd_ctx s2 = nd_ctx s"
      using is_leader_spec [OF l] pre(1) by auto
    have rest: "(if \<not> l then failed Y (Some (ps_policy_epoch p)) PE_LostLeader s2
        else (case q' of Inl e \<Rightarrow> failed Y (Some (ps_policy_epoch p)) e s3
          | Inr _ \<Rightarrow> seq (record_success Y (ps_policy_epoch p)) (\<lambda>_. ok (Published (ps_policy_epoch p))) s3)) = (r, t)"
      using assms q Inr l q' by (auto simp: publish_state_def Let_def seq_def split: sum.splits)
    show ?thesis
    proof (cases l)
      case False
      then show ?thesis
        using rest failed_spec quiet s2(1) by (metis (full_types))
    next
      case True
      have "nd_trace t = nd_trace s3" "\<forall>n. r = Inr (Published n) \<longleftrightarrow> q' = Inr () \<and> n = ps_policy_epoch p"
        using rest True record_success_trace [of Y "ps_policy_epoch p" s3]
        by (cases q'; auto simp: seq_def ok_def ret_def split: prod.splits dest: failed_spec)+
      moreover obtain a ps where "ctx_authority X (nd_ctx s) = Some a" "sign_services X a (policy_services p) = Inr (es, ps)"
          "published (clients_of s) ps pre"
        using full Inr by blast
      ultimately show ?thesis
        using pre s2 by (intro index_step_ok [OF _ _ _ _ _ _ q']) simp_all
    qed
  qed
qed

lemma round_ok_prefix:
  assumes "round_ok X s1 p r t" "nd_ctx s1 = nd_ctx s" "nd_trace s1 = nd_trace s @ evs" "\<forall>ev \<in> set evs. early_event X (nd_ctx s) ev"
  shows "round_ok X s p r t"
proof -
  obtain pre post where a: "nd_trace t = nd_trace s1 @ pre @ post" "\<forall>ev \<in> set pre. early_event X (nd_ctx s1) ev"
      "post = [] \<and> (\<forall>n. r \<noteq> Inr (Published n)) \<or> index_round X s1 p pre post (\<exists>n. r = Inr (Published n))"
      "\<forall>n. r = Inr (Published n) \<longrightarrow> n = ps_policy_epoch p"
    using assms(1) unfolding round_ok_def by (elim exE conjE)
  have "index_round X s p (evs @ pre) post b" if "index_round X s1 p pre post b" for b
    using that assms(2) unfolding index_round_def by (elim exE) (auto simp: published_def clients_of_def)
  then show ?thesis
    unfolding round_ok_def using a assms(2-4) by (intro exI [of _ "evs @ pre"] exI [of _ post]) auto
qed

text \<open>\<open>p\<close> was read from the state machine.\<close>

definition policy_read :: "('e, 'b) env \<Rightarrow> policy_state \<Rightarrow> bool" where
  "policy_read Y p \<longleftrightarrow> (\<exists>e e'. y_policy Y e = (p, e'))"

lemma policy_readI: "y_policy Y e = (p, e') \<Longrightarrow> policy_read Y p"
  unfolding policy_read_def by blast

lemma renewed_state_spec:
  assumes "renewed_state Y renew x s = (r, t)"
  shows "\<exists>evs. nd_trace t = nd_trace s @ evs \<and> (\<forall>ev \<in> set evs. early_event X (nd_ctx s) ev) \<and> 
    (\<forall>p. r = Inr p \<longrightarrow> nd_ctx t = nd_ctx s \<and> policy_read Y p)"
  using assms unfolding renewed_state_def
  by (auto simp: seq_def policy_snapshot_def call_def propose_def client_write_def ask_def record_event_def ok_def ret_def
      early_event_def intro: policy_readI split: prod.splits if_splits sum.splits dest!: failed_spec)

text \<open>The rest of a round, from the snapshot on.\<close>

lemma fresh_round_spec:
  assumes "(case (case l of None \<Rightarrow> None | Some n \<Rightarrow> if ps_policy_epoch p < n then Some n else None) of
       Some n \<Rightarrow> failed Y (Some (ps_policy_epoch p)) (PE_Stale (ps_policy_epoch p) n)
     | None \<Rightarrow> if ps_index_expires_at p = 0 then failed Y (Some (ps_policy_epoch p)) PE_NoExpiry else publish_state X Y p) s = (r, t)"
  shows "round_ok X s p r t \<and> (\<forall>n m. r = Inr (Published n) \<and> l = Some m \<longrightarrow> m \<le> n)"
proof (cases "publish_state X Y p s = (r, t) \<and> (\<forall>m. l = Some m \<longrightarrow> m \<le> ps_policy_epoch p)")
  case True
  then have ok: "round_ok X s p r t"
    using publish_state_spec by blast
  have "n = ps_policy_epoch p" if "r = Inr (Published n)" for n
    using ok that unfolding round_ok_def by (elim exE conjE) simp
  with ok True show ?thesis by blast
next
  case False
  then have "nd_trace t = nd_trace s \<and> (\<exists>e. r = Inl e)"
    using assms by (auto split: option.splits if_splits dest: failed_spec)
  then show ?thesis
    by (auto intro: round_okI [of _ _ "[]"])
qed

lemma publish_round_spec:
  assumes "publish_once_raft X Y renew s = (r, t)"
  shows "\<exists>p. policy_read Y p \<and> round_ok X s p r t \<and>
    (\<forall>n m. r = Inr (Published n) \<and> pb_last_epoch (pu_status (ac_publisher (nd_ctx s))) = Some m \<longrightarrow> m \<le> n)"
proof -
  have quiet: "\<exists>p. policy_read Y p \<and> round_ok X s p r t \<and>
      (\<forall>n m. r = Inr (Published n) \<and> pb_last_epoch (pu_status (ac_publisher (nd_ctx s))) = Some m \<longrightarrow> m \<le> n)"
    if "nd_trace t = nd_trace s @ evs" "\<forall>ev \<in> set evs. early_event X (nd_ctx s) ev" "\<forall>n. r \<noteq> Inr (Published n)" for evs
    using round_okI [OF that] that(3) by (intro exI [of _ "fst (y_policy Y (nd_env s))"]) (auto intro: policy_readI [OF prod.collapse [symmetric]])
  obtain l s1 where l: "is_leader Y s = (l, s1)" by (cases "is_leader Y s")
  obtain q s2 where q: "renewed_state Y renew (ac_expires_secs (nd_ctx s)) s1 = (q, s2)"
    by (cases "renewed_state Y renew (ac_expires_secs (nd_ctx s)) s1")
  obtain l' s3 where l': "is_leader Y s2 = (l', s3)" by (cases "is_leader Y s2")
  have s1: "nd_trace s1 = nd_trace s" "nd_ctx s1 = nd_ctx s"
    using is_leader_spec [OF l] by auto
  obtain evs where evs: "nd_trace s2 = nd_trace s @ evs" "\<forall>ev \<in> set evs. early_event X (nd_ctx s) ev" "\<forall>p. q = Inr p \<longrightarrow> nd_ctx s2 = nd_ctx s"
    and read: "\<forall>p. q = Inr p \<longrightarrow> policy_read Y p"
    using renewed_state_spec [OF q, of X] s1 by auto
  have s3: "nd_trace s3 = nd_trace s @ evs" "\<forall>p. q = Inr p \<longrightarrow> nd_ctx s3 = nd_ctx s"
    using is_leader_spec [OF l'] evs by auto
  show ?thesis
  proof (cases "ac_admin_raft (nd_ctx s) = None \<or> \<not> l")
    case True
    then have "nd_trace t = nd_trace s @ []" "\<forall>n. r \<noteq> Inr (Published n)"
      using assms l s1 by (auto simp: publish_once_raft_def seq_def gets_def fail_def ok_def ret_def split: if_splits)
    then show ?thesis
      by (intro quiet [of "[]"]) simp_all
  next
    case False
    then obtain sv where sv: "ac_admin_raft (nd_ctx s) = Some sv" "l" by auto
    show ?thesis
    proof (cases "(\<exists>p. q = Inr p) \<and> l'")
      case True
      then obtain p where p: "q = Inr p" "l'" by blast
      have "round_ok X s3 p r t \<and>
          (\<forall>n m. r = Inr (Published n) \<and> pb_last_epoch (pu_status (ac_publisher (nd_ctx s))) = Some m \<longrightarrow> m \<le> n)"
        using assms sv l q l' s3(2) p
        by (intro fresh_round_spec [where Y = Y]) (simp add: publish_once_raft_def seq_def seqE_simp gets_def Let_def)
      then show ?thesis
        using s3 p(1) evs(2) read by (intro exI [of _ p]) (auto intro: round_ok_prefix [of X s3 p r t s evs])
    next
      case no: False
      have "(case q of Inl e \<Rightarrow> (Inl e, s2) | Inr p \<Rightarrow> (Inr NotLeader, s3)) = (r, t)"
        using assms sv l q l' no by (auto simp: publish_once_raft_def seq_def seqE_simp gets_def ok_def ret_def split: sum.splits)
      then show ?thesis
        using s3 evs by (intro quiet [of evs]) (auto split: sum.splits)
    qed
  qed
qed

lemma publish_once_raft_connected: "publish_once_raft X Y renew s \<noteq> (Inr NoConnections, t)"
proof -
  have "publish_state X Y p u \<noteq> (Inr NoConnections, t)" for p u
    by (auto simp: publish_state_def seq_def ok_def ret_def Let_def split: prod.splits sum.splits if_splits dest: failed_spec)
  then show ?thesis
    by (auto simp: publish_once_raft_def seq_def seqE_simp gets_def ok_def fail_def ret_def Let_def
        split: prod.splits sum.splits if_splits option.splits dest: failed_spec)
qed

text \<open>
  C7: The index is published last, complete and never older. In a round of the Raft mode, whatever calls fail and however
  leadership changes in between, the only records before the index are whitelists under the keys of services, and the index
  is sent only when the whitelist of every service of one snapshot of the policy was accepted on every connection; the index
  lists exactly these whitelists, with the epoch and expiry of that snapshot. A round that reports success has the index accepted
  on every connection, and its epoch is not below the last recorded one.
\<close>

theorem index_published_last:
  assumes "publish_once_raft X Y renew s = (r, t)"
  shows "\<exists>p. policy_read Y p \<and> round_ok X s p r t \<and>
    (\<forall>n m. r = Inr (Published n) \<and> pb_last_epoch (pu_status (ac_publisher (nd_ctx s))) = Some m \<longrightarrow> m \<le> n)"
  by (rule publish_round_spec [OF assms])

section \<open>A concrete round\<close>

lemma sign_index_total:
  assumes "cbor_law X" "cose_law X"
  obtains b where "sign_index X a d = Inr b"
proof -
  obtain q where q: "x_cbor X (index_doc_sval d) = Some q"
    by (rule cbor_total [OF assms(1)])
  obtain e where "x_cose_enc X q (x_ed_sign X (au_key a) (x_cose_tbs X (index_key a) q)) = Some e"
    using assms(2) unfolding cose_law_def by blast
  then show ?thesis
    using that [of e] q by (simp add: sign_index_def cbor_encode_def sign_payload_def)
qed

definition demo_authority :: authority where
  "demo_authority = \<lparr>au_key = demo_sk, au_network = ''net'', au_net_hash = net_hash demo_ext ''net''\<rparr>"

lemma demo_ctx_authority: "ctx_authority demo_ext (nd_ctx demo_node) = Some demo_authority"
  by (simp add: ctx_authority_def demo_node_def demo_context_def from_seed_def demo_authority_def is_valid_network_name_def
      is_ascii_alphanumeric_def)

theorem index_published_last_witness:
  "\<exists>t p. publish_once_raft demo_ext demo_system False demo_node = (Inr (Published 1), t) \<and>
     round_ok demo_ext demo_node p (Inr (Published 1)) t"
proof -
  obtain b where "sign_index demo_ext demo_authority \<lparr>ix_version = 1, ix_expires_at = 5000, ix_services = []\<rparr> = Inr b"
    by (rule sign_index_total [OF demo_laws(5,7)])
  then have "\<exists>t. publish_once_raft demo_ext demo_system False demo_node = (Inr (Published 1), t)"
    using demo_ctx_authority
    by (simp add: publish_once_raft_def act_defs is_leader_def call_def renewed_state_def policy_snapshot_def demo_system_def
        demo_node_def demo_metrics_def demo_context_def publish_state_def Let_def publish_whitelists_def policy_services_def policy_new_def
        publish_index_def publish_record_def add_key_with_retry_def numeral_3_eq_3 add_key_def record_event_def
        record_success_def upd_publisher_def upd_ctx_def)
  then show ?thesis
    using index_published_last by blast
qed

end
