(* ===== verification/Service.thy ===== *)
theory Service
  imports Publisher
begin

text \<open>
  \<open>src/service.rs\<close>: the handlers of incoming requests. In the old mode (\<open>raft_required\<close> unset) requests carry a MAC of the
  management password and change the local store; in Raft mode they are signed by administrators and become proposals of the
  leader, to which other nodes forward them. Audit log lines are not modelled.
\<close>

section \<open>Replies and errors\<close>

text \<open>An object of \<open>serde_json\<close> is an ordered map: a later member of the same name replaces an earlier one.\<close>

definition jobj :: "(string \<times> sval) list \<Rightarrow> sval" where
  "jobj fs = SMap (entries (fold (\<lambda>(k, v) m. bt_insert k v m) fs bt_empty))"

definition encode :: "ext \<Rightarrow> sval \<Rightarrow> bytes" where
  "encode X v = (case x_json X v of None \<Rightarrow> ''{}'' | Some b \<Rightarrow> b)"

definition get_op :: "sval \<Rightarrow> string option" where
  "get_op v = (case v of SMap fs \<Rightarrow> (case map_of fs ''op'' of Some (SStr w) \<Rightarrow> Some w | _ \<Rightarrow> None) | _ \<Rightarrow> None)"

fun admin_error_code :: "admin_error \<Rightarrow> string" where
  "admin_error_code EmptyPassword = ''empty_password''"
| "admin_error_code Kdf = ''kdf_error''"
| "admin_error_code BadMac = ''bad_mac''"
| "admin_error_code ExpiredTimestamp = ''expired_timestamp''"
| "admin_error_code AdminReplay = ''replay''"
| "admin_error_code BadNonce = ''bad_nonce''"

definition admin_err :: "admin_error \<Rightarrow> service_error" where
  "admin_err e = err (admin_error_code e) (D_Admin e)"

text \<open>\<open>St_Panic\<close> is no error of the source but a panic of the handler.\<close>

fun store_error_code :: "store_error \<Rightarrow> string" where
  "store_error_code (St_NotFound _) = ''not_found''"
| "store_error_code (St_AlreadyExists _) = ''already_exists''"
| "store_error_code (St_InvalidService _) = ''invalid_service''"
| "store_error_code (St_InvalidPeer _) = ''invalid_peer''"
| "store_error_code (St_NetworkMismatch _ _) = ''network_mismatch''"
| "store_error_code (St_Parse _) = ''state_error''"
| "store_error_code (St_Io _) = ''io_error''"
| "store_error_code St_Panic = ''panic''"

definition store_err :: "store_error \<Rightarrow> service_error" where
  "store_err e = err (store_error_code e) (D_Store e)"

fun rep_error_code :: "rep_error \<Rightarrow> string" where
  "rep_error_code RepEmptyPassword = ''rep_empty_password''"
| "rep_error_code RepKdf = ''rep_kdf_error''"
| "rep_error_code RepBadMac = ''rep_bad_mac''"
| "rep_error_code RepExpiredTimestamp = ''rep_expired_timestamp''"
| "rep_error_code RepReplay = ''rep_replay''"
| "rep_error_code RepBadNonce = ''rep_bad_nonce''"
| "rep_error_code RepDecode = ''rep_decode_error''"
| "rep_error_code (RepStore _) = ''rep_store_error''"

definition rep_err :: "rep_error \<Rightarrow> service_error" where
  "rep_err e = err (rep_error_code e) (D_Rep e)"

abbreviation v2_err :: "admin_v2_error \<Rightarrow> service_error" where
  "v2_err e \<equiv> err (admin_v2_code e) (D_V2 e)"

section \<open>The old management path\<close>

definition on_admin :: "(admin_auth \<Rightarrow> 'a \<times> admin_auth) \<Rightarrow> ('e node, 'a) act" where
  "on_admin f s = (case f (ac_admin (nd_ctx s)) of (a, x) \<Rightarrow> (a, s\<lparr>nd_ctx := (nd_ctx s)\<lparr>ac_admin := x\<rparr>\<rparr>))"

definition on_replicate :: "(rep_auth \<Rightarrow> 'a \<times> rep_auth) \<Rightarrow> ('e node, 'a) act" where
  "on_replicate f s = (case f (ac_replicate (nd_ctx s)) of (a, x) \<Rightarrow> (a, s\<lparr>nd_ctx := (nd_ctx s)\<lparr>ac_replicate := x\<rparr>\<rparr>))"

definition on_join :: "(join_server \<Rightarrow> 'a \<times> join_server) \<Rightarrow> ('e node, 'a) act" where
  "on_join f s = (case f (ac_join (nd_ctx s)) of (a, x) \<Rightarrow> (a, s\<lparr>nd_ctx := (nd_ctx s)\<lparr>ac_join := x\<rparr>\<rparr>))"

definition on_keys :: "(admin_verifier \<Rightarrow> 'a \<times> admin_verifier) \<Rightarrow> ('e node, 'a) act" where
  "on_keys f s = (case f (ac_admin_keys (nd_ctx s)) of (a, x) \<Rightarrow> (a, s\<lparr>nd_ctx := (nd_ctx s)\<lparr>ac_admin_keys := x\<rparr>\<rparr>))"

text \<open>An operation of the store, with the outcomes of its disk calls.\<close>

definition store_op ::
  "store_env \<Rightarrow> ('e, 'b) env \<Rightarrow> (store_env \<Rightarrow> store \<Rightarrow> fs \<Rightarrow> 'a \<times> store \<times> fs) \<Rightarrow> ('e node, 'a) act" where
  "store_op E Y f = seq (call (y_io Y)) (\<lambda>e. on_store (f (E\<lparr>en_io := e\<rparr>)))"

definition require_service :: "string \<Rightarrow> ('e node, service_error + string) act" where
  "require_service service = (if service = [] then fail (err ''bad_request'' Plain) else ok service)"

text \<open>The broadcast runs in its own task; here it is the event that starts it.\<close>

definition after_change :: "bool \<Rightarrow> string \<Rightarrow> u64 \<Rightarrow> string list \<Rightarrow> u64 \<Rightarrow> bool \<Rightarrow> ('e node, unit) act" where
  "after_change client service ver members index_version deleted =
     seq (upd_publisher notify_publish) (\<lambda>_. seq (gets nd_ctx) (\<lambda>c.
       if ac_raft_required c then ret ()
       else if client then record_event (Ev_Broadcast service ver members index_version deleted) else ret ()))"

definition change_reply :: "auth_context \<Rightarrow> string \<Rightarrow> u64 \<Rightarrow> sval" where
  "change_reply c service ver = jobj [(''service'', SStr service), (''version'', SInt ver),
     (''members'', SInt (of_nat (case member_count (ac_store c) service of None \<Rightarrow> 0 | Some n \<Rightarrow> n))),
     (''index_version'', SInt (st_index_version (ac_store c)))]"

text \<open>The shared body of \<open>add_members\<close>, \<open>remove_members\<close>, \<open>set_members\<close> and \<open>create_service\<close>.\<close>

definition change_service ::
  "store_env \<Rightarrow> ('e, 'b) env \<Rightarrow> bool \<Rightarrow> management_request \<Rightarrow>
   (store_env \<Rightarrow> string \<Rightarrow> string list \<Rightarrow> store \<Rightarrow> fs \<Rightarrow> (store_error + u64) \<times> store \<times> fs) \<Rightarrow> ('e node, service_error + bytes) act" where
  "change_service E Y client q f =
     seqE (require_service (mr_service q)) (\<lambda>service.
     seqE (map_err store_err (store_op E Y (\<lambda>E'. f E' service (mr_peers q)))) (\<lambda>ver.
     seq (gets (\<lambda>s. ac_store (nd_ctx s))) (\<lambda>st.
     let members = (case store_members st service of None \<Rightarrow> [] | Some ms \<Rightarrow> ms) in
     seq (after_change client service ver members (st_index_version st) False) (\<lambda>_.
     seq (gets nd_ctx) (\<lambda>c. ok (encode (en_ext E) (change_reply c service ver)))))))"

definition delete_service_request ::
  "store_env \<Rightarrow> ('e, 'b) env \<Rightarrow> bool \<Rightarrow> management_request \<Rightarrow> ('e node, service_error + bytes) act" where
  "delete_service_request E Y client q =
     seqE (require_service (mr_service q)) (\<lambda>service.
     seqE (map_err store_err (store_op E Y (\<lambda>E'. delete_service E' service))) (\<lambda>tombstone.
     seq (gets (\<lambda>s. ac_store (nd_ctx s))) (\<lambda>st.
     seq (after_change client service tombstone [] (st_index_version st) True) (\<lambda>_.
     ok (encode (en_ext E) (jobj [(''service'', SStr service), (''index_version'', SInt (st_index_version st))]))))))"

definition opt_str :: "string option \<Rightarrow> sval" where
  "opt_str v = (case v of None \<Rightarrow> SNull | Some w \<Rightarrow> SStr w)"

definition opt_int :: "u64 option \<Rightarrow> sval" where
  "opt_int v = (case v of None \<Rightarrow> SNull | Some n \<Rightarrow> SInt n)"

definition status_services :: "store \<Rightarrow> sval" where
  "status_services st = SMap (map (\<lambda>name. (name, jobj [
     (''version'', SInt (case store_version st name of None \<Rightarrow> 0 | Some v \<Rightarrow> v)),
     (''members'', SInt (of_nat (case member_count st name of None \<Rightarrow> 0 | Some n \<Rightarrow> n)))])) (service_names st))"

definition legacy_status :: "ext \<Rightarrow> u64 \<Rightarrow> auth_context \<Rightarrow> sval" where
  "legacy_status X uptime c = jobj [(''network'', SStr (ac_network c)), (''authority_public_key'', opt_str (authority_public_key_b64 X c)),
     (''has_authority_seed'', SBool (has_authority_seed c)), (''index_version'', SInt (st_index_version (ac_store c))),
     (''services'', status_services (ac_store c)), (''expires_secs'', SInt (ac_expires_secs c)), (''renew_secs'', SInt (ac_renew_secs c)),
     (''connections'', SInt (of_nat (connection_count (ac_publisher c)))), (''uptime_secs'', SInt uptime)]"

definition handle_legacy ::
  "store_env \<Rightarrow> 'b serde \<Rightarrow> ('e, 'b) env \<Rightarrow> bool \<Rightarrow> sval \<Rightarrow> ('e node, service_error + bytes) act" where
  "handle_legacy E Z Y client v =
     (let X = en_ext E in
      seqE (of_opt (err ''bad_request'' Plain) (z_mgmt Z v)) (\<lambda>q.
      seq (call (y_now Y)) (\<lambda>now.
      seqE (map_err admin_err (on_admin (\<lambda>a. admin_verify X a q now))) (\<lambda>_.
      if mr_op q = ''status'' then
        seq (call (y_uptime Y)) (\<lambda>up. seq (gets nd_ctx) (\<lambda>c. ok (encode X (legacy_status X up c))))
      else if mr_op q = ''export_authority_pubkey'' then
        seq (gets nd_ctx) (\<lambda>c. ok (encode X (jobj [(''network'', SStr (ac_network c)),
          (''public_key'', SStr (case authority_public_key_b64 X c of None \<Rightarrow> [] | Some k \<Rightarrow> k))])))
      else if mr_op q = ''list_services'' then
        seq (gets nd_ctx) (\<lambda>c. ok (encode X (jobj [(''services'', SSeq (map SStr (service_names (ac_store c))))])))
      else if mr_op q = ''list_members'' then
        seqE (require_service (mr_service q)) (\<lambda>service. seq (gets nd_ctx) (\<lambda>c.
          case (store_version (ac_store c) service, store_members (ac_store c) service) of
            (Some ver, Some members) \<Rightarrow>
              ok (encode X (jobj [(''service'', SStr service), (''version'', SInt ver), (''members'', SSeq (map SStr members))]))
          | _ \<Rightarrow> fail (err ''not_found'' (D_Text service))))
      else if mr_op q = ''add_members'' then change_service E Y client q add_members
      else if mr_op q = ''remove_members'' then change_service E Y client q remove_members
      else if mr_op q = ''set_members'' then change_service E Y client q set_members
      else if mr_op q = ''create_service'' then change_service E Y client q create_service
      else if mr_op q = ''delete_service'' then delete_service_request E Y client q
      else if mr_op q = ''publish_now'' then
        seq (upd_publisher notify_publish) (\<lambda>_. ok (encode X (jobj [(''scheduled'', SBool True)])))
      else fail (err ''unknown_op'' (D_Text (mr_op q)))))))"

section \<open>Replication and password-based joining\<close>

definition handle_replicate ::
  "store_env \<Rightarrow> 'b serde \<Rightarrow> ('e, 'b) env \<Rightarrow> sval \<Rightarrow> ('e node, service_error + bytes) act" where
  "handle_replicate E Z Y v =
     (let X = en_ext E in
      seqE (of_opt (err ''bad_request'' Plain) (z_replicate Z v)) (\<lambda>m.
      seq (call (y_now Y)) (\<lambda>now.
      seqE (map_err rep_err (on_replicate (\<lambda>a. verify_replicate X a m now))) (\<lambda>_.
      seqE (map_err store_err (store_op E Y (\<lambda>E'. apply_replicated E' (rm_service m) (rm_version m) (rm_members m)
              (rm_index_version m) (rm_deleted m)))) (\<lambda>changed.
      seq (if changed then upd_publisher notify_publish else ret ()) (\<lambda>_.
      ok (encode X (jobj [(''applied'', SBool changed), (''service'', SStr (rm_service m)), (''version'', SInt (rm_version m))]))))))))"

definition sync_response_sval :: "sync_response \<Rightarrow> sval" where
  "sync_response_sval r = jobj [(''op'', SStr (sr_op r)), (''nonce'', SStr (sr_nonce r)), (''snapshot'', snapshot_sval (sr_snapshot r)),
     (''ts'', SInt (sr_ts r)), (''mac'', SStr (sr_mac r))]"

definition handle_sync_request ::
  "store_env \<Rightarrow> 'b serde \<Rightarrow> ('e, 'b) env \<Rightarrow> sval \<Rightarrow> ('e node, service_error + bytes) act" where
  "handle_sync_request E Z Y v =
     (let X = en_ext E in
      seqE (of_opt (err ''bad_request'' Plain) (z_sync Z v)) (\<lambda>q.
      seq (call (y_now Y)) (\<lambda>now.
      seqE (map_err rep_err (on_replicate (\<lambda>a. verify_sync_request X a q now))) (\<lambda>_.
      seq (gets nd_ctx) (\<lambda>c.
      seq (call (y_now Y)) (\<lambda>ts.
      let sn = store_snapshot (ac_store c) in
      seqE (of_res rep_err (sign_sync_response X (ac_replicate c) (ac_network c) (sq_nonce q) sn ts)) (\<lambda>mac.
      ok (encode X (sync_response_sval \<lparr>sr_op = OP_SYNC_RESPONSE, sr_nonce = sq_nonce q, sr_snapshot = sn, sr_ts = ts, sr_mac = mac\<rparr>)))))))))"

fun join_error_code :: "join_error \<Rightarrow> string" where
  "join_error_code JE_NoCandidates = ''no_candidates''"
| "join_error_code (JE_Request _ _) = ''request_failed''"
| "join_error_code (JE_BadResponse _) = ''bad_response''"
| "join_error_code JE_Auth = ''join_auth_failed''"
| "join_error_code JE_Decrypt = ''join_decrypt_failed''"
| "join_error_code JE_Decode = ''join_decode_error''"
| "join_error_code JE_KeyMismatch = ''join_key_mismatch''"
| "join_error_code (JE_PersistSeed _) = ''join_persist_error''"
| "join_error_code (JE_PersistState _) = ''join_persist_error''"
| "join_error_code JE_InvalidNonce = ''join_invalid_nonce''"

definition join_err :: "join_error \<Rightarrow> service_error" where
  "join_err e = err (join_error_code e) (D_Join e)"

definition join_response_sval :: "join_response \<Rightarrow> sval" where
  "join_response_sval r = jobj [(''op'', SStr (jr_op r)), (''responder_nonce'', SStr (jr_responder_nonce r)),
     (''aead_nonce'', SStr (jr_aead_nonce r)), (''ciphertext'', SStr (jr_ciphertext r)), (''mac'', SStr (jr_mac r))]"

definition handle_join ::
  "store_env \<Rightarrow> 'b serde \<Rightarrow> ('e, 'b) env \<Rightarrow> sval \<Rightarrow> ('e node, service_error + bytes) act" where
  "handle_join E Z Y v =
     (let X = en_ext E in
      seqE (of_opt (err ''bad_request'' Plain) (z_join Z v)) (\<lambda>q.
      seq (gets nd_ctx) (\<lambda>c.
      seqE (of_opt (err ''no_authority_seed'' Plain) (ctx_authority X c)) (\<lambda>a.
      seq (call (y_now Y)) (\<lambda>now. seq (call (y_random Y)) (\<lambda>rn. seq (call (y_random Y)) (\<lambda>an.
      seqE (map_err join_err (on_join (\<lambda>j. respond X (x_b64url X rn) an j (ac_network c) q now (au_key a) (store_snapshot (ac_store c))))) (\<lambda>r.
      ok (encode X (join_response_sval r))))))))))"

section \<open>Administrator requests in Raft mode\<close>

datatype admin_op_class = ReadOp | WriteOp | UnknownOp

definition is_mutating_op :: "string \<Rightarrow> bool" where
  "is_mutating_op op \<longleftrightarrow> op \<in> {''add_members'', ''remove_members'', ''set_members'', ''create_service'', ''delete_service''}"

definition classify_admin_op :: "string \<Rightarrow> admin_op_class" where
  "classify_admin_op op =
     (if op \<in> {''status'', ''export_authority_pubkey'', ''list_services'', ''list_members''} then ReadOp
      else if op = ''publish_now'' then WriteOp
      else if is_mutating_op op then WriteOp
      else UnknownOp)"

definition is_member_management_op :: "string \<Rightarrow> bool" where
  "is_member_management_op op \<longleftrightarrow>
     op \<in> {''add_learner'', ''promote_voter'', ''demote_voter'', ''remove_member'', ''issue_join_token''}"

definition require_service_v2 :: "admin_request \<Rightarrow> service_error + string" where
  "require_service_v2 q = (if rq_service q = [] then Inl (err ''bad_request'' Plain) else Inr (rq_service q))"

definition policy_command_for :: "admin_request \<Rightarrow> service_error + policy_command" where
  "policy_command_for q =
     (case require_service_v2 q of
        Inl e \<Rightarrow> Inl e
      | Inr service \<Rightarrow>
          let peers = canonical_peers (rq_peers q) in
          if rq_op q = ''add_members'' then Inr (AddMembers service peers)
          else if rq_op q = ''remove_members'' then Inr (RemoveMembers service peers)
          else if rq_op q = ''set_members'' then Inr (SetMembers service peers)
          else if rq_op q = ''create_service'' then Inr (CreateService service peers)
          else if rq_op q = ''delete_service'' then Inr (DeleteService service)
          else Inl (err ''unknown_op'' (D_Text (rq_op q))))"

text \<open>The text of a failed proposal is searched for two phrases, ignoring case.\<close>

definition to_lower :: "string \<Rightarrow> string" where
  "to_lower = map (\<lambda>c. let n = of_char c :: nat in if 65 \<le> n \<and> n \<le> 90 then char_of (n + 32) else c)"

definition contains :: "string \<Rightarrow> string \<Rightarrow> bool" where
  "contains text pat = list_ex (\<lambda>i. take (length pat) (drop i text) = pat) [0..<Suc (length text)]"

definition map_admin_apply_error :: "string \<Rightarrow> service_error" where
  "map_admin_apply_error e =
     (let lower = to_lower e in
      if contains lower ''forwardtoleader'' \<or> contains lower ''not leader'' then err ''not_leader'' (D_Raft e)
      else err ''apply_timeout'' (D_Raft e))"

definition publish_err :: "string \<Rightarrow> publish_error \<Rightarrow> u64 \<Rightarrow> service_error" where
  "publish_err code e epoch = \<lparr>er_code = code, er_detail = D_Publish epoch e, er_publish = Some (PN_Error e)\<rparr>"

definition admin_raft :: "('e node, service_error + raft_runtime) act" where
  "admin_raft = seq (gets nd_ctx) (\<lambda>c. of_opt (err ''raft_not_ready'' Plain) (ac_admin_raft c))"

definition raft_runtime_of :: "('e node, service_error + raft_runtime) act" where
  "raft_runtime_of = seq (gets nd_ctx) (\<lambda>c. of_opt (err ''raft_not_ready'' Plain) (ac_raft c))"

section \<open>Members of the cluster\<close>

definition require_member :: "admin_request \<Rightarrow> ('e node, service_error + admin_member_spec) act" where
  "require_member q = of_opt (err ''bad_request'' Plain) (rq_member q)"

definition member_node_id :: "ext \<Rightarrow> admin_member_spec \<Rightarrow> service_error + node_id" where
  "member_node_id X m =
     (if \<not> is_valid_peer_id X (am_peer_id m) then Inl (err ''bad_request'' Plain)
      else let derived = node_id_from_peer_id X (am_peer_id m) in
        if am_node_id m = 0 \<or> am_node_id m \<noteq> derived then Inl (err ''bad_request'' (D_Node derived)) else Inr derived)"

definition node_from_spec :: "ext \<Rightarrow> admin_member_spec \<Rightarrow> bool \<Rightarrow> service_error + raft_node" where
  "node_from_spec X m require_identity =
     (case member_node_id X m of
        Inl e \<Rightarrow> Inl e
      | Inr _ \<Rightarrow>
          if require_identity \<and> am_identity_key m = [] then Inl (err ''bad_request'' Plain)
          else if require_identity \<and> am_x25519_key m = [] then Inl (err ''bad_request'' Plain)
          else Inr \<lparr>rn_peer_id = am_peer_id m, rn_identity_key = am_identity_key m, rn_x25519_key = am_x25519_key m\<rparr>)"

text \<open>The end of each reply: epoch, applied index and term.\<close>

definition member_reply :: "ext \<Rightarrow> ('e, 'b) env \<Rightarrow> (string \<times> sval) list \<Rightarrow> ('e node, service_error + bytes) act" where
  "member_reply X Y fs =
     seq (policy_snapshot Y) (\<lambda>p. seq (raft_applied_index Y) (\<lambda>i. seq (raft_term Y) (\<lambda>t.
       ok (encode X (jobj (fs @ [(''policy_epoch'', SInt (ps_policy_epoch p)), (''raft_index'', opt_int i), (''term'', SInt t)]))))))"

text \<open>This node gives up its own seed.\<close>

definition drop_own_seed :: "('e, 'b) env \<Rightarrow> ('e node, service_error + unit) act" where
  "drop_own_seed Y =
     seq (gets nd_ctx) (\<lambda>c.
     seqE (map_err (\<lambda>e. err ''seed_remove_failed'' (D_Seed e)) (remove_seed Y (ac_authority_key_path c))) (\<lambda>_.
     seq (upd_ctx clear_authority) (\<lambda>_. ok ())))"

definition add_learner_request ::
  "ext \<Rightarrow> ('e, 'b) env \<Rightarrow> admin_request \<Rightarrow> ('e node, service_error + bytes) act" where
  "add_learner_request X Y q =
     seqE (require_member q) (\<lambda>m.
     seqE (of_res (\<lambda>e. e) (member_node_id X m)) (\<lambda>target.
     seqE (of_res (\<lambda>e. e) (node_from_spec X m True)) (\<lambda>node.
     seqE (map_err (\<lambda>e. err ''add_learner_failed'' (D_Run e)) (add_learner_node X Y target node)) (\<lambda>info.
     member_reply X Y [(''request_id'', SStr (rq_request_id q)), (''node_id'', SInt (mi_node_id info)), (''peer_id'', SStr (mi_peer_id info)),
       (''voter'', SBool False)]))))"

text \<open>The seed is delivered before the node becomes a voter, and withdrawn again when that fails.\<close>

definition promote_voter_request ::
  "ext \<Rightarrow> 'b serde \<Rightarrow> ('e, 'b) env \<Rightarrow> raft_runtime \<Rightarrow> admin_request \<Rightarrow> ('e node, service_error + bytes) act" where
  "promote_voter_request X Z Y rt q =
     seqE (require_member q) (\<lambda>m.
     seqE (of_res (\<lambda>e. e) (member_node_id X m)) (\<lambda>target.
     seq (membership_view Y) (\<lambda>view.
     seqE (of_opt (err ''not_found'' (D_Node target)) (view_find view target)) (\<lambda>member.
     if mi_voter member then fail (err ''already_voter'' (D_Node target))
     else if mi_x25519_key member = [] then fail (err ''missing_x25519_key'' (D_Node target))
     else
       seqE (map_err (\<lambda>e. err ''seed_delivery_failed'' (D_Run e)) (deliver_seed X Z Y rt target)) (\<lambda>_.
       seq (promote_voter X Y target) (\<lambda>r.
       case r of
         Inl e \<Rightarrow> seq (drop_remote_seed X Z Y rt target) (\<lambda>_. fail (err ''promote_voter_failed'' (D_Run e)))
       | Inr _ \<Rightarrow> member_reply X Y [(''request_id'', SStr (rq_request_id q)), (''node_id'', SInt target),
           (''peer_id'', SStr (mi_peer_id member)), (''voter'', SBool True)]))))))"

definition demote_voter_request ::
  "ext \<Rightarrow> 'b serde \<Rightarrow> ('e, 'b) env \<Rightarrow> raft_runtime \<Rightarrow> admin_request \<Rightarrow> ('e node, service_error + bytes) act" where
  "demote_voter_request X Z Y rt q =
     seqE (require_member q) (\<lambda>m.
     seqE (of_res (\<lambda>e. e) (member_node_id X m)) (\<lambda>target.
     seq (membership_view Y) (\<lambda>view.
     if \<not> view_is_voter view target then fail (err ''not_voter'' (D_Node target))
     else
       seqE (map_err (\<lambda>e. err ''demote_voter_failed'' (D_Run e)) (demote_voter X Z Y rt target)) (\<lambda>_.
       seqE (if target = rt_node_id rt then drop_own_seed Y
             else map_err (\<lambda>e. err ''seed_remove_failed'' (D_Run e)) (drop_remote_seed X Z Y rt target)) (\<lambda>_.
       member_reply X Y [(''request_id'', SStr (rq_request_id q)), (''node_id'', SInt target), (''voter'', SBool False)])))))"

text \<open>A removed voter loses its seed first; it gets it back when the removal fails.\<close>

definition remove_member_request ::
  "ext \<Rightarrow> 'b serde \<Rightarrow> ('e, 'b) env \<Rightarrow> raft_runtime \<Rightarrow> admin_request \<Rightarrow> ('e node, service_error + bytes) act" where
  "remove_member_request X Z Y rt q =
     seqE (require_member q) (\<lambda>m.
     seqE (of_res (\<lambda>e. e) (member_node_id X m)) (\<lambda>target.
     seq (membership_view Y) (\<lambda>view.
     if \<not> view_is_member view target then fail (err ''not_found'' (D_Node target))
     else
       let was_voter = view_is_voter view target; remote = (was_voter \<and> target \<noteq> rt_node_id rt) in
       seqE (if remote then map_err (\<lambda>e. err ''seed_remove_failed'' (D_Run e)) (drop_remote_seed X Z Y rt target) else ok ()) (\<lambda>_.
       seq (remove_member X Z Y rt target) (\<lambda>r.
       case r of
         Inl e \<Rightarrow> seq (if remote then seq (deliver_seed X Z Y rt target) (\<lambda>_. ret ()) else ret ())
                    (\<lambda>_. fail (err ''remove_member_failed'' (D_Run e)))
       | Inr _ \<Rightarrow>
           seqE (if was_voter \<and> target = rt_node_id rt then drop_own_seed Y else ok ()) (\<lambda>_.
           member_reply X Y [(''request_id'', SStr (rq_request_id q)), (''node_id'', SInt target), (''removed'', SBool True)]))))))"

definition admin_command :: "admin_request \<Rightarrow> verified_admin \<Rightarrow> policy_command \<Rightarrow> policy_command" where
  "admin_command q va c = Admin (rq_request_id q) (rq_kid q) (va_request_hash va) (rq_ts q) c"

definition issue_join_token_write ::
  "ext \<Rightarrow> ('e, 'b) env \<Rightarrow> raft_runtime \<Rightarrow> admin_request \<Rightarrow> verified_admin \<Rightarrow> ('e node, service_error + bytes) act" where
  "issue_join_token_write X Y rt q va =
     seqE (of_opt (err ''bad_request'' Plain) (rq_join_token q)) (\<lambda>spec.
     seq (gets nd_ctx) (\<lambda>c.
     let token = token_from_spec (rt_cluster_id rt) (ac_network c) (rq_kid q) spec in
     seq (call (y_now Y)) (\<lambda>now.
     seqE (of_res (\<lambda>e. err (join_token_code e) (D_Token e))
            (verify_join_token X (ac_admin_keys c) token now (rt_cluster_id rt) (ac_network c) [rt_peer_id rt, jt_audience token])) (\<lambda>_.
     seqE (map_err map_admin_apply_error (propose Y (admin_command q va (IssueJoinToken token)))) (\<lambda>(result, index).
     seqE (case result of
             ResAdmin _ _ raft_index duplicate outcome \<Rightarrow>
               (case outcome of
                  OutRejected code msg \<Rightarrow> fail (err code (D_Reject msg))
                | OutApplied _ _ _ \<Rightarrow> ok (if duplicate then raft_index else index))
           | other \<Rightarrow> fail (err ''raft_unexpected_result'' (D_Result other))) (\<lambda>effective.
     seq (policy_snapshot Y) (\<lambda>p. seq (raft_term Y) (\<lambda>t.
     ok (encode X (jobj [(''request_id'', SStr (rq_request_id q)), (''token'', join_token_sval token),
       (''policy_epoch'', SInt (ps_policy_epoch p)), (''raft_index'', SInt effective), (''term'', SInt t)]))))))))))"

definition execute_member_write ::
  "ext \<Rightarrow> 'b serde \<Rightarrow> ('e, 'b) env \<Rightarrow> admin_request \<Rightarrow> verified_admin \<Rightarrow> ('e node, service_error + bytes) act" where
  "execute_member_write X Z Y q va =
     seqE raft_runtime_of (\<lambda>rt. seq (is_leader Y) (\<lambda>l.
       if \<not> l then fail (err ''not_leader'' Plain)
       else if rq_op q = ''issue_join_token'' then issue_join_token_write X Y rt q va
       else if rq_op q = ''add_learner'' then add_learner_request X Y q
       else if rq_op q = ''promote_voter'' then promote_voter_request X Z Y rt q
       else if rq_op q = ''demote_voter'' then demote_voter_request X Z Y rt q
       else if rq_op q = ''remove_member'' then remove_member_request X Z Y rt q
       else fail (err ''unknown_op'' (D_Text (rq_op q)))))"

section \<open>Writes\<close>

definition publish_request ::
  "store_env \<Rightarrow> ('e, 'b) env \<Rightarrow> admin_request \<Rightarrow> ('e node, service_error + bytes) act" where
  "publish_request E Y q =
     seq (publish_now E Y True) (\<lambda>outcome. seq (policy_snapshot Y) (\<lambda>p. seq (raft_applied_index Y) (\<lambda>i.
       case outcome of
         Inr NotLeader \<Rightarrow> fail (err ''not_leader'' Plain)
       | Inr out \<Rightarrow> ok (encode (en_ext E) (jobj [(''published'', SBool (\<exists>n. out = Published n)), (''policy_epoch'', SInt (ps_policy_epoch p)),
           (''raft_index'', opt_int i), (''request_id'', SStr (rq_request_id q))]))
       | Inl e \<Rightarrow> fail (publish_err ''publish_failed'' e (ps_policy_epoch p)))))"

text \<open>A change that is committed is published at once; when that fails the request reports it, the change stays.\<close>

definition finish_write ::
  "store_env \<Rightarrow> ('e, 'b) env \<Rightarrow> u64 \<Rightarrow> policy_result \<Rightarrow> ('e node, service_error + bytes) act" where
  "finish_write E Y index result =
     (case result of
        ResAdmin request_id epoch raft_index duplicate outcome \<Rightarrow>
          let effective = (if duplicate then raft_index else index) in
          (case outcome of
             OutRejected code msg \<Rightarrow> fail (err code (D_Reject msg))
           | OutApplied service ver changed \<Rightarrow>
               seqE (if changed
                     then seq (publish_now E Y False) (\<lambda>r.
                       case r of
                         Inr NotLeader \<Rightarrow> fail ((err ''committed_but_publish_failed'' Plain)\<lparr>er_publish := Some PN_NotLeader\<rparr>)
                       | Inr _ \<Rightarrow> ok ()
                       | Inl e \<Rightarrow> fail (publish_err ''committed_but_publish_failed'' e epoch))
                     else ok ()) (\<lambda>_.
               ok (encode (en_ext E) (jobj [(''request_id'', SStr request_id), (''service'', opt_str service), (''version'', opt_int ver),
                 (''changed'', SBool changed), (''policy_epoch'', SInt epoch), (''raft_index'', SInt effective), (''duplicate'', SBool duplicate)]))))
      | other \<Rightarrow> fail (err ''raft_unexpected_result'' (D_Result other)))"

definition execute_root_write ::
  "store_env \<Rightarrow> 'b serde \<Rightarrow> ('e, 'b) env \<Rightarrow> admin_request \<Rightarrow> verified_admin \<Rightarrow> ('e node, service_error + bytes) act" where
  "execute_root_write E Z Y q va =
     seq (leader_peer Y) (\<lambda>_.
     if is_member_management_op (rq_op q) then execute_member_write (en_ext E) Z Y q va
     else if rq_op q = ''publish_now'' then publish_request E Y q
     else
       seqE (of_res (\<lambda>e. e) (policy_command_for q)) (\<lambda>command.
       seqE (map_err map_admin_apply_error (propose Y (admin_command q va command))) (\<lambda>(result, index).
       finish_write E Y index result)))"

definition forwarded_sval :: "forwarded_admin_envelope \<Rightarrow> sval" where
  "forwarded_sval v = SMap [(''op'', SStr (fe_op v)), (''v'', sint8 (fe_v v)), (''request_b64'', SStr (fe_request_b64 v)),
     (''edge_peer'', SStr (fe_edge_peer v)), (''edge_sig'', SStr (fe_edge_sig v))]"

definition remote_err :: "sidecar_error \<Rightarrow> service_error" where
  "remote_err e = err (se_code e) (D_Text (se_message e))"

definition handle_root_write ::
  "store_env \<Rightarrow> 'b serde \<Rightarrow> ('e, 'b) env \<Rightarrow> bool \<Rightarrow> bytes \<Rightarrow> admin_request \<Rightarrow> verified_admin \<Rightarrow> ('e node, service_error + bytes) act" where
  "handle_root_write E Z Y forwarder raw q va =
     seqE admin_raft (\<lambda>rt.
     seq (is_leader Y) (\<lambda>l. if l then execute_root_write E Z Y q va else
     seq (leader_peer Y) (\<lambda>p.
     seqE (of_opt (err ''no_leader'' Plain) p) (\<lambda>leader.
     if \<not> forwarder then fail (err ''not_leader'' Plain) else
     seq (call (y_whoami Y)) (\<lambda>w.
     let edge = (case w of Inl _ \<Rightarrow> [] | Inr me \<Rightarrow> me);
         v = \<lparr>fe_op = FORWARDED_ADMIN_OP, fe_v = FORWARDED_ADMIN_VERSION, fe_request_b64 = x_b64 (en_ext E) raw, fe_edge_peer = edge, fe_edge_sig = []\<rparr>
     in seqE (of_opt (err ''bad_request'' Plain) (x_json (en_ext E) (forwarded_sval v))) (\<lambda>payload.
        map_err remote_err (send_to Y (rt_service rt) leader payload)))))))"

section \<open>Reads\<close>

definition with_raft_meta :: "u64 \<Rightarrow> u64 option \<Rightarrow> string option \<Rightarrow> u64 \<Rightarrow> bool \<Rightarrow> (string \<times> sval) list \<Rightarrow> sval" where
  "with_raft_meta epoch applied leader t stale fs = jobj (fs @ [(''policy_epoch'', SInt epoch), (''applied_index'', opt_int applied),
     (''leader'', opt_str leader), (''term'', SInt t), (''stale'', SBool stale)])"

definition status_member_sval :: "raft_status_member \<Rightarrow> sval" where
  "status_member_sval m = SMap [(''node_id'', SInt (sm_node_id m)), (''peer_id'', SStr (sm_peer_id m)), (''voter'', SBool (sm_voter m))]"

definition with_raft_status :: "u64 \<Rightarrow> raft_status_snapshot \<Rightarrow> (string \<times> sval) list \<Rightarrow> sval" where
  "with_raft_status epoch sn fs = jobj (fs @ [(''policy_epoch'', SInt epoch), (''cluster_id'', SStr (rs_cluster_id sn)),
     (''node_id'', SInt (rs_node_id sn)), (''leader'', opt_str (rs_leader sn)), (''term'', SInt (rs_term sn)), (''state'', SStr (rs_state sn)),
     (''applied_index'', opt_int (rs_applied_index sn)), (''last_log_index'', opt_int (rs_last_log_index sn)),
     (''voters'', SSeq (map status_member_sval (rs_voters sn))), (''learners'', SSeq (map status_member_sval (rs_learners sn))),
     (''stale'', SBool (rs_stale sn)), (''health'', SStr (health sn))])"

definition policy_status_fields :: "ext \<Rightarrow> 'b serde \<Rightarrow> u64 \<Rightarrow> auth_context \<Rightarrow> policy_state \<Rightarrow> (string \<times> sval) list" where
  "policy_status_fields X Z uptime c p =
     (let st = pu_status (ac_publisher c) in
      [(''network'', SStr (ac_network c)), (''authority_public_key'', opt_str (authority_public_key_b64 X c)),
       (''has_authority_seed'', SBool (has_authority_seed c)), (''authority_seed_present'', SBool (has_authority_seed c)),
       (''index_version'', SInt (ps_policy_epoch p)),
       (''services'', SMap (map (\<lambda>(name, sv). (name, jobj [(''version'', SInt (ss_version sv)),
          (''members'', SInt (of_nat (fcard (ss_members sv))))])) (entries (ps_services p)))),
       (''expires_secs'', SInt (ac_expires_secs c)), (''renew_secs'', SInt (ac_renew_secs c)),
       (''connections'', SInt (of_nat (connection_count (ac_publisher c)))), (''uptime_secs'', SInt uptime),
       (''last_publish_epoch'', opt_int (pb_last_epoch st)), (''last_publish_ok'', SBool (pb_last_ok st)),
       (''last_publish_error'', opt_str (map_option (z_publish_text Z) (pb_last_error st))), (''last_publish_at'', opt_int (pb_last_at st))])"

definition member_info_sval :: "member_info \<Rightarrow> sval" where
  "member_info_sval m = SMap [(''node_id'', SInt (mi_node_id m)), (''peer_id'', SStr (mi_peer_id m)), (''identity_key'', SStr (mi_identity_key m)),
     (''x25519_key'', SStr (mi_x25519_key m)), (''voter'', SBool (mi_voter m))]"

definition handle_admin_read ::
  "ext \<Rightarrow> 'b serde \<Rightarrow> ('e, 'b) env \<Rightarrow> admin_request \<Rightarrow> ('e node, service_error + bytes) act" where
  "handle_admin_read X Z Y q =
     seqE admin_raft (\<lambda>rt.
     seq (policy_snapshot Y) (\<lambda>p. seq (raft_applied_index Y) (\<lambda>applied. seq (leader_peer Y) (\<lambda>leader. seq (raft_term Y) (\<lambda>t.
     seq (raft_stale Y) (\<lambda>stale. seq (gets nd_ctx) (\<lambda>c.
     let meta = with_raft_meta (ps_policy_epoch p) applied leader t stale in
     if rq_op q = ''status'' then
       seq (call (y_uptime Y)) (\<lambda>up. seq (status_snapshot Y rt) (\<lambda>sn.
         ok (encode X (with_raft_status (ps_policy_epoch p) sn (policy_status_fields X Z up c p)))))
     else if rq_op q = ''export_authority_pubkey'' then
       seqE (of_opt (err ''no_authority_seed'' Plain) (authority_public_key_b64 X c)) (\<lambda>k.
         ok (encode X (meta [(''network'', SStr (ac_network c)), (''public_key'', SStr k)])))
     else if rq_op q = ''list_services'' then
       ok (encode X (meta [(''services'', SSeq (map SStr (bt_keys (ps_services p))))]))
     else if rq_op q = ''list_members'' then
       (if rq_service q = [] then
          seqE raft_runtime_of (\<lambda>run. seq (membership_view Y) (\<lambda>view.
            ok (encode X (meta [(''voters'', SSeq (map member_info_sval (mv_voters view))), (''learners'', SSeq (map member_info_sval (mv_learners view))),
              (''leader'', opt_int (mv_leader view)), (''term'', SInt (mv_term view)), (''cluster_id'', SStr (rt_cluster_id run))]))))
        else
          seqE (of_opt (err ''not_found'' (D_Text (rq_service q))) (bt_get (ps_services p) (rq_service q))) (\<lambda>sv.
            ok (encode X (meta [(''service'', SStr (rq_service q)), (''version'', SInt (ss_version sv)),
              (''members'', SSeq (map SStr (sorted_list_of_fset (ss_members sv))))]))))
     else fail (err ''unknown_op'' (D_Text (rq_op q))))))))))"

section \<open>The entry points of Raft mode\<close>

text \<open>On the leader: the original request is parsed and verified again.\<close>

definition handle_forwarded_admin ::
  "store_env \<Rightarrow> 'b serde \<Rightarrow> ('e, 'b) env \<Rightarrow> bytes \<Rightarrow> ('e node, service_error + bytes) act" where
  "handle_forwarded_admin E Z Y raw =
     (let X = en_ext E in
      seqE (of_opt (err ''bad_request'' Plain) (z_forwarded Z raw)) (\<lambda>v.
      if fe_op v \<noteq> FORWARDED_ADMIN_OP \<or> fe_v v \<noteq> FORWARDED_ADMIN_VERSION then fail (err ''bad_request'' Plain) else
      seqE admin_raft (\<lambda>_.
      seq (is_leader Y) (\<lambda>l. if \<not> l then fail (err ''not_leader'' Plain) else
      seqE (of_opt (err ''bad_request'' Plain) (x_unb64 X (fe_request_b64 v))) (\<lambda>bytes.
      seqE (of_opt (err ''bad_request'' Plain) (z_value Z bytes)) (\<lambda>val.
      seqE (of_opt (err ''bad_request'' Plain) (z_v2 Z val)) (\<lambda>q.
      seq (call (y_now Y)) (\<lambda>now.
      seqE (map_err v2_err (on_keys (\<lambda>a. admin_v2_verify X a q now))) (\<lambda>va.
      if va_role va \<noteq> Root then fail (err ''forbidden_role'' Plain)
      else if classify_admin_op (rq_op q) \<noteq> WriteOp then fail (err ''bad_request'' Plain)
      else execute_root_write E Z Y q va)))))))))"

definition handle_admin_v2 ::
  "store_env \<Rightarrow> 'b serde \<Rightarrow> ('e, 'b) env \<Rightarrow> bool \<Rightarrow> bytes \<Rightarrow> sval \<Rightarrow> ('e node, service_error + bytes) act" where
  "handle_admin_v2 E Z Y forwarder raw v =
     (if get_op v = Some FORWARDED_ADMIN_OP then handle_forwarded_admin E Z Y raw
      else
        seqE (of_opt (err ''bad_request'' Plain) (z_v2 Z v)) (\<lambda>q.
        seq (call (y_now Y)) (\<lambda>now.
        seqE (map_err v2_err (on_keys (\<lambda>a. admin_v2_verify (en_ext E) a q now))) (\<lambda>va.
        case classify_admin_op (rq_op q) of
          ReadOp \<Rightarrow> handle_admin_read (en_ext E) Z Y q
        | WriteOp \<Rightarrow> if va_role va \<noteq> Root then fail (err ''forbidden_role'' Plain) else handle_root_write E Z Y forwarder raw q va
        | UnknownOp \<Rightarrow> fail (err ''unknown_op'' (D_Text (rq_op q)))))))"

section \<open>Joining with a token\<close>

definition raft_join_response_sval :: "raft_join_response \<Rightarrow> sval" where
  "raft_join_response_sval r = SMap [(''v'', sint8 (rp_v r)), (''ok'', SBool (rp_ok r)), (''error'', SStr (rp_error r)),
     (''cluster_id'', SStr (rp_cluster_id r)), (''network'', SStr (rp_network r)), (''node_id'', SInt (rp_node_id r)), (''peer_id'', SStr (rp_peer_id r)),
     (''role'', SStr (rp_role r)), (''term'', SInt (rp_term r)), (''leader'', opt_int (rp_leader r)), (''policy_epoch'', SInt (rp_policy_epoch r)),
     (''members'', SSeq (map member_info_sval (rp_members r)))]"

text \<open>What the recorded token must satisfy before it is consumed.\<close>

definition check_stored_token :: "policy_state \<Rightarrow> join_token \<Rightarrow> service_error + unit" where
  "check_stored_token p token =
     (case bt_get (ps_join_tokens p) (jt_jti token) of
        None \<Rightarrow> Inl (err ''join_token_unknown'' (D_Text (jt_jti token)))
      | Some stored \<Rightarrow>
          if sj_token stored \<noteq> token then Inl (err ''join_token_mismatch'' Plain)
          else if sj_uses stored \<ge> jt_max_uses (sj_token stored) then Inl (err ''join_token_replayed'' (D_Text (jt_jti token)))
          else Inr ())"

definition join_reply ::
  "ext \<Rightarrow> ('e, 'b) env \<Rightarrow> raft_runtime \<Rightarrow> member_info \<Rightarrow> ('e node, service_error + bytes) act" where
  "join_reply X Y rt info =
     seq (membership_view Y) (\<lambda>view.
     let learners = (if view_find view (mi_node_id info) = None then sort_key mi_node_id (mv_learners view @ [info]) else mv_learners view) in
     seq (policy_snapshot Y) (\<lambda>p. seq (gets nd_ctx) (\<lambda>c. seq (raft_term Y) (\<lambda>t. seq (leader_id Y) (\<lambda>l.
     of_opt (err ''encode_error'' Plain) (x_json X (raft_join_response_sval \<lparr>rp_v = RAFT_JOIN_VERSION, rp_ok = True, rp_error = [],
       rp_cluster_id = rt_cluster_id rt, rp_network = ac_network c, rp_node_id = mi_node_id info, rp_peer_id = mi_peer_id info, rp_role = ''learner'',
       rp_term = t, rp_leader = l, rp_policy_epoch = ps_policy_epoch p, rp_members = mv_voters view @ learners\<rparr>)))))))"

definition join_err_of :: "raft_join_error \<Rightarrow> service_error" where
  "join_err_of e = err (raft_join_code e) (D_RaftJoin e)"

definition handle_leader_join ::
  "ext \<Rightarrow> ('e, 'b) env \<Rightarrow> raft_runtime \<Rightarrow> raft_join_request \<Rightarrow> ('e node, service_error + bytes) act" where
  "handle_leader_join X Y rt q =
     (let audiences = rt_peer_id rt # (if rj_edge_peer q = [] then [] else [rj_edge_peer q]) in
      seq (gets nd_ctx) (\<lambda>c. seq (call (y_now Y)) (\<lambda>now.
      seqE (of_res join_err_of (raft_join_verify X q (ac_admin_keys c) (rt_cluster_id rt) (ac_network c) now audiences)) (\<lambda>_.
      seq (membership_view Y) (\<lambda>view.
      if view_is_member view (rj_node_id q) then fail (err ''already_member'' (D_Node (rj_node_id q))) else
      seq (policy_snapshot Y) (\<lambda>p.
      seqE (of_res (\<lambda>e. e) (check_stored_token p (rj_token q))) (\<lambda>_.
      seq (call (y_now Y)) (\<lambda>used.
      seqE (map_err (\<lambda>e. err ''raft_join_failed'' (D_Raft e))
             (propose Y (ConsumeJoinToken (jt_jti (rj_token q)) (rj_node_id q) (rj_peer_id q) used))) (\<lambda>(result, _).
      seqE (case result of
              ResApplied _ _ _ _ \<Rightarrow> ok ()
            | ResRejected code msg _ \<Rightarrow> fail (err code (D_Reject msg))
            | other \<Rightarrow> fail (err ''raft_unexpected_result'' (D_Result other))) (\<lambda>_.
      seqE (map_err (\<lambda>e. err ''add_learner_failed'' (D_Run e)) (add_learner_node X Y (rj_node_id q)
             \<lparr>rn_peer_id = rj_peer_id q, rn_identity_key = rj_identity_key q, rn_x25519_key = rj_x25519_key q\<rparr>)) (\<lambda>info.
      join_reply X Y rt info)))))))))))"

definition handle_raft_join ::
  "ext \<Rightarrow> 'b serde \<Rightarrow> ('e, 'b) env \<Rightarrow> bool \<Rightarrow> sval \<Rightarrow> ('e node, service_error + bytes) act" where
  "handle_raft_join X Z Y client v =
     seqE raft_runtime_of (\<lambda>rt. seq (gets nd_ctx) (\<lambda>c.
     if \<not> js_allow (ac_join c) then fail (err ''join_not_allowed'' Plain) else
     seqE (of_opt (err ''bad_request'' Plain) (z_raft_join Z v)) (\<lambda>q.
     seq (call (y_now Y)) (\<lambda>now.
     seqE (of_res join_err_of (raft_join_verify X q (ac_admin_keys c) (rt_cluster_id rt) (ac_network c) now [rt_peer_id rt])) (\<lambda>_.
     seq (is_leader Y) (\<lambda>l. if l then handle_leader_join X Y rt q else
     seq (leader_peer Y) (\<lambda>p.
     seqE (of_opt (err ''no_leader'' Plain) p) (\<lambda>leader.
     if \<not> client then fail (err ''not_leader'' Plain) else
     seqE (of_opt (err ''bad_request'' Plain) (x_json X (raft_join_request_sval (q\<lparr>rj_edge_peer := rt_peer_id rt\<rparr>)))) (\<lambda>payload.
     map_err remote_err (send_to Y (rt_service rt) leader payload))))))))))"

section \<open>Seed messages\<close>

text \<open>The receipt says whether the message was obeyed.\<close>

definition seed_receipt ::
  "ext \<Rightarrow> 'b serde \<Rightarrow> raft_runtime \<Rightarrow> node_id \<Rightarrow> run_error + unit \<Rightarrow> ('e node, service_error + bytes) act" where
  "seed_receipt X Z rt src r =
     seqE (of_res (\<lambda>e. err ''seed_encode_error'' (D_Seed e))
            (sign_ack X (rt_identity rt) (rt_node_id rt) src (r = Inr ()) (case r of Inl e \<Rightarrow> z_text Z e | Inr _ \<Rightarrow> []))) (\<lambda>a.
     of_opt (err ''encode_error'' Plain) (x_json X (seed_ack_sval a)))"

definition handle_seed_delivery ::
  "ext \<Rightarrow> 'b serde \<Rightarrow> ('e, 'b) env \<Rightarrow> sval \<Rightarrow> ('e node, service_error + bytes) act" where
  "handle_seed_delivery X Z Y v =
     seqE raft_runtime_of (\<lambda>rt.
     seqE (of_opt (err ''bad_request'' Plain) (z_seed_delivery Z v)) (\<lambda>envelope.
     seq (accept_seed X Y rt envelope) (\<lambda>r. seed_receipt X Z rt (sv_from_node envelope) r)))"

definition handle_seed_drop ::
  "ext \<Rightarrow> 'b serde \<Rightarrow> ('e, 'b) env \<Rightarrow> sval \<Rightarrow> ('e node, service_error + bytes) act" where
  "handle_seed_drop X Z Y v =
     seqE raft_runtime_of (\<lambda>rt.
     seqE (of_opt (err ''bad_request'' Plain) (z_seed_drop Z v)) (\<lambda>q.
     seq (accept_seed_drop X Y rt q) (\<lambda>r. seed_receipt X Z rt (sd_from_node q) r)))"

section \<open>Dispatch\<close>

definition handle_service_request ::
  "store_env \<Rightarrow> 'b serde \<Rightarrow> ('e, 'b) env \<Rightarrow> bool \<Rightarrow> bool \<Rightarrow> bytes \<Rightarrow> ('e node, service_error + bytes) act" where
  "handle_service_request E Z Y client forwarder payload =
     (let X = en_ext E in
      seqE (of_opt (err ''bad_request'' Plain) (z_value Z payload)) (\<lambda>v.
      seqE (of_opt (err ''bad_request'' Plain) (get_op v)) (\<lambda>op.
      seq (gets nd_ctx) (\<lambda>c.
      if op = RAFT_RPC_OP then seqE (of_opt (err ''raft_disabled'' Plain) (ac_raft c)) (\<lambda>rt. handle_rpc X Z Y rt payload)
      else if op = RAFT_JOIN_OP then handle_raft_join X Z Y client v
      else if op = SEED_DELIVERY_OP then handle_seed_delivery X Z Y v
      else if op = SEED_DROP_OP then handle_seed_drop X Z Y v
      else if op = OP_REQUEST then
        (if ac_raft_required c then fail (err ''join_disabled'' Plain) else handle_join E Z Y v)
      else if op = OP_REPLICATE then
        (if ac_raft_required c then fail (err ''replicate_disabled'' Plain) else handle_replicate E Z Y v)
      else if op = OP_SYNC_REQUEST then
        (if ac_raft_required c then fail (err ''sync_disabled'' Plain) else handle_sync_request E Z Y v)
      else if ac_raft_required c then handle_admin_v2 E Z Y forwarder payload v
      else handle_legacy E Z Y client v))))"

end
