(* ===== verification/Service_Props.thy ===== *)
theory Service_Props
  imports Service
begin

text \<open>
  Properties of the request handlers of \<open>src/service.rs\<close>. A handler is a composition of calls to the outside
  world; the locale \<open>env_relation\<close> says what a relation on the state of that world must satisfy, and every handler then
  keeps the relation, the mode and the local store, and causes only events of a given kind.
\<close>

section \<open>What handlers keep\<close>

text \<open>In the mode \<open>M\<close> the mode and the store stay, the events are of \<open>P\<close> and the environment moves within \<open>Q\<close>.\<close>

definition mode_frame :: "bool \<Rightarrow> (event \<Rightarrow> bool) \<Rightarrow> ('e \<Rightarrow> 'e \<Rightarrow> bool) \<Rightarrow> 'e node \<Rightarrow> 'e node \<Rightarrow> bool" where
  "mode_frame M P Q s t \<longleftrightarrow> (ac_raft_required (nd_ctx s) = M \<longrightarrow>
     ac_raft_required (nd_ctx t) = M \<and> ac_store (nd_ctx t) = ac_store (nd_ctx s) \<and> new_events P s t \<and> Q (nd_env s) (nd_env t))"

named_theorems rm_keeps \<open>operations that keep the mode and the store\<close>

text \<open>
  The queries of the environment keep the relation \<open>Q\<close>; the calls that change something keep it when their event is
  one of \<open>P\<close>.
\<close>

locale env_relation =
  fixes Y :: "('e, 'b) env" and Q :: "'e \<Rightarrow> 'e \<Rightarrow> bool" and P :: "event \<Rightarrow> bool" and M :: bool
  assumes Q_refl: "Q e e"
    and Q_trans: "Q e f \<Longrightarrow> Q f g \<Longrightarrow> Q e g"
    and Q_reads: "Q e (snd (y_now Y e))" "Q e (snd (y_uptime Y e))" "Q e (snd (y_io Y e))" "Q e (snd (y_remove_io Y e))"
      "Q e (snd (y_metrics Y e))" "Q e (snd (y_policy Y e))" "Q e (snd (y_applied Y e))" "Q e (snd (y_whoami Y e))"
      "Q e (snd (y_random Y e))"
    and Q_rpc: "Q e (snd (y_rpc Y body e))"
    and Q_write: "P (Ev_Propose c) \<Longrightarrow> Q e (snd (y_client_write Y c e))"
    and Q_learner: "P (Ev_AddLearner i n blocking) \<Longrightarrow> Q e (snd (y_add_learner Y i n blocking e))"
    and Q_add_key: "Q e (snd (y_add_key Y conn k v e))"
    and Q_send: "Q e (snd (y_send Y service peer payload e))"
begin

sublocale fr: frame "mode_frame M P Q"
proof
  show "mode_frame M P Q s s" for s :: "'e node"
    by (simp add: mode_frame_def Q_refl ev_frame.frame_refl)
  show "mode_frame M P Q s t \<Longrightarrow> mode_frame M P Q t u \<Longrightarrow> mode_frame M P Q s u" for s t u :: "'e node"
    unfolding mode_frame_def by (auto intro: Q_trans ev_frame.frame_trans)
qed

lemmas [rm_keeps] = fr.keeps_rules

text \<open>A handler that reads the context finds the mode there.\<close>

lemma keeps_ctx: "(\<And>c. ac_raft_required c = M \<Longrightarrow> keeps (mode_frame M P Q) (k c)) \<Longrightarrow> keeps (mode_frame M P Q) (seq (gets nd_ctx) k)"
  by (auto simp: keeps_def seq_def gets_def mode_frame_def)

lemma keeps_env_call: "(\<And>e. Q e (snd (f e))) \<Longrightarrow> keeps (mode_frame M P Q) (call f)"
  by (auto simp: keeps_def call_def mode_frame_def new_events_def split: prod.split) (metis snd_conv)+

lemma keeps_reads [rm_keeps]:
  "keeps (mode_frame M P Q) (call (y_now Y))" "keeps (mode_frame M P Q) (call (y_uptime Y))" "keeps (mode_frame M P Q) (call (y_io Y))"
  "keeps (mode_frame M P Q) (call (y_remove_io Y))" "keeps (mode_frame M P Q) (call (y_metrics Y))" "keeps (mode_frame M P Q) (call (y_policy Y))"
  "keeps (mode_frame M P Q) (call (y_applied Y))" "keeps (mode_frame M P Q) (call (y_whoami Y))" "keeps (mode_frame M P Q) (call (y_rpc Y body))"
  "keeps (mode_frame M P Q) (call (y_random Y))"
  by (intro keeps_env_call Q_reads Q_rpc)+

lemma keeps_record: "P ev \<Longrightarrow> keeps (mode_frame M P Q) (record_event ev)"
  by (auto simp: keeps_def record_event_def mode_frame_def new_events_def Q_refl)

lemma mode_asks [rm_keeps]:
  "P (Ev_Propose c) \<Longrightarrow> keeps (mode_frame M P Q) (propose Y c)"
  "P (Ev_AddLearner i n blocking) \<Longrightarrow> keeps (mode_frame M P Q) (raft_add_learner Y i n blocking)"
  "P (Ev_Send service peer payload) \<Longrightarrow> keeps (mode_frame M P Q) (send_to Y service peer payload)"
  unfolding propose_def client_write_def raft_add_learner_def send_to_def ask_def
  by (intro fr.keeps_seq keeps_record keeps_env_call Q_write Q_learner Q_send; assumption)+

lemma keeps_add_key: "(\<And>b. P (Ev_AddKey c k v b)) \<Longrightarrow> keeps (mode_frame M P Q) (add_key Y c k v)"
  unfolding add_key_def by (intro fr.keeps_rules keeps_env_call Q_add_key keeps_record)

lemma keeps_states [rm_keeps]:
  "keeps (mode_frame M P Q) (set_verifier f)" "keeps (mode_frame M P Q) (on_fs g)" "keeps (mode_frame M P Q) (on_keys h)"
  "keeps (mode_frame M P Q) (upd_publisher w)" "keeps (mode_frame M P Q) (upd_ctx (install_authority a))" "keeps (mode_frame M P Q) (upd_ctx clear_authority)"
  by (auto simp: keeps_def set_verifier_def on_fs_def on_keys_def upd_publisher_def upd_ctx_def install_authority_def clear_authority_def
      mode_frame_def new_events_def Q_refl split: prod.split)

lemma mode_queries [rm_keeps]:
  "keeps (mode_frame M P Q) (is_leader Y)" "keeps (mode_frame M P Q) (raft_term Y)" "keeps (mode_frame M P Q) (leader_id Y)"
  "keeps (mode_frame M P Q) (leader_peer Y)" "keeps (mode_frame M P Q) (policy_snapshot Y)" "keeps (mode_frame M P Q) (raft_applied_index Y)"
  "keeps (mode_frame M P Q) (raft_stale Y)" "keeps (mode_frame M P Q) (status_snapshot Y rt)" "keeps (mode_frame M P Q) (membership_view Y)"
  "keeps (mode_frame M P Q) admin_raft" "keeps (mode_frame M P Q) raft_runtime_of"
  unfolding is_leader_def raft_term_def leader_id_def leader_peer_def policy_snapshot_def raft_applied_index_def raft_stale_def
    status_snapshot_def membership_view_def admin_raft_def raft_runtime_of_def by (intro rm_keeps)+

lemma keeps_handle_rpc: "keeps (mode_frame M P Q) (handle_rpc X Z Y rt payload)"
  unfolding handle_rpc_def case_prod_unfold Let_def by (intro rm_keeps)

lemma keeps_seed_handlers: "keeps (mode_frame M P Q) (handle_seed_delivery X Z Y v)" "keeps (mode_frame M P Q) (handle_seed_drop X Z Y v)"
  unfolding handle_seed_delivery_def handle_seed_drop_def accept_seed_def accept_seed_drop_def remove_seed_def seed_receipt_def
  by (intro rm_keeps)+

lemma keeps_admin_read: "keeps (mode_frame M P Q) (handle_admin_read X Z Y q)"
  unfolding handle_admin_read_def Let_def by (intro rm_keeps)

end

context env_relation
begin

text \<open>Publishing sends records and renews the expiry of the index.\<close>

lemma keeps_status [rm_keeps]: "keeps (mode_frame M P Q) (record_success Y n)" "keeps (mode_frame M P Q) (failed Y ep x)"
  unfolding record_success_def failed_def record_failure_def by (intro rm_keeps)+

lemma keeps_add_key_attempts:
  assumes "\<And>c k v b. P (Ev_AddKey c k v b)"
  shows "keeps (mode_frame M P Q) (add_key_attempts Y c k v n x)"
  by (induction n arbitrary: x) (simp_all, (intro rm_keeps keeps_add_key assms; assumption?)+)

lemma keeps_publish_to:
  assumes "\<And>c k v b. P (Ev_AddKey c k v b)"
  shows "keeps (mode_frame M P Q) (publish_to Y k v cs first)"
proof (induction cs arbitrary: first)
  case (Cons c cs)
  show ?case
    unfolding publish_to.simps add_key_with_retry_def by (intro fr.keeps_seq keeps_add_key_attempts assms Cons.IH)
qed (simp add: rm_keeps)

lemma keeps_publish_record:
  assumes "\<And>c k v b. P (Ev_AddKey c k v b)"
  shows "keeps (mode_frame M P Q) (publish_record Y k v)"
  unfolding publish_record_def by (intro rm_keeps keeps_publish_to assms)

lemma keeps_publish_pending:
  assumes "\<And>c k v b. P (Ev_AddKey c k v b)"
  shows "keeps (mode_frame M P Q) (publish_pending Y kvs)"
proof (induction kvs)
  case (Cons kv kvs)
  then show ?case
    by (cases kv) (simp, intro rm_keeps keeps_publish_record assms)
qed (simp add: rm_keeps)

lemma keeps_publish_once_raft:
  assumes "\<And>c k v b. P (Ev_AddKey c k v b)" "\<And>n. P (Ev_Propose (RenewIndex n))"
  shows "keeps (mode_frame M P Q) (publish_once_raft X Y renew)"
  unfolding publish_once_raft_def renewed_state_def publish_state_def publish_whitelists_def publish_index_def Let_def
  by (intro rm_keeps keeps_publish_pending keeps_publish_record assms)

lemma keeps_publish_now:
  assumes M and "\<And>c k v b. P (Ev_AddKey c k v b)" "\<And>n. P (Ev_Propose (RenewIndex n))"
  shows "keeps (mode_frame M P Q) (publish_now E Y renew)"
  unfolding publish_now_def publish_once_def
  using assms(1) by (intro keeps_ctx fr.keeps_if fr.keeps_pure keeps_publish_once_raft assms) simp_all

lemma keeps_finish_write:
  assumes M and "\<And>c k v b. P (Ev_AddKey c k v b)" "\<And>n. P (Ev_Propose (RenewIndex n))"
  shows "keeps (mode_frame M P Q) (finish_write E Y index result)"
  by (cases result) (auto simp: finish_write_def Let_def split: admin_outcome.split publish_outcome.split
      intro!: rm_keeps keeps_publish_now assms)

lemma keeps_root_write:
  assumes M and "\<And>c k v b. P (Ev_AddKey c k v b)" "\<And>n. P (Ev_Propose (RenewIndex n))"
    and "classify_admin_op (rq_op q) = WriteOp"
    and "\<And>c. policy_command_for q = Inr c \<Longrightarrow> P (Ev_Propose (admin_command q va c))"
  shows "keeps (mode_frame M P Q) (execute_root_write E Z Y q va)"
proof -
  have no_member: "\<not> is_member_management_op (rq_op q)"
    using assms(4) by (auto simp: classify_admin_op_def is_mutating_op_def is_member_management_op_def split: if_splits)
  have publish: "keeps (mode_frame M P Q) (publish_request E Y q)"
    unfolding publish_request_def
    by (intro rm_keeps keeps_publish_now assms) (auto split: sum.split publish_outcome.split intro!: rm_keeps)
  have change: "keeps (mode_frame M P Q) (seqE (map_err map_admin_apply_error (propose Y (admin_command q va c))) (\<lambda>(result, index).
      finish_write E Y index result))" if "policy_command_for q = Inr c" for c
    by (intro rm_keeps keeps_finish_write assms that)
  show ?thesis
    unfolding execute_root_write_def using no_member
    by (intro fr.keeps_seq mode_queries fr.keeps_if fr.keeps_of_res publish change) auto
qed

lemma keeps_join:
  assumes "\<And>used. P (Ev_Propose (ConsumeJoinToken (jt_jti (rj_token q)) (rj_node_id q) (rj_peer_id q) used))"
    and "\<And>blocking. P (Ev_AddLearner (rj_node_id q)
      \<lparr>rn_peer_id = rj_peer_id q, rn_identity_key = rj_identity_key q, rn_x25519_key = rj_x25519_key q\<rparr> blocking)"
  shows "keeps (mode_frame M P Q) (handle_leader_join X Y rt q)"
  unfolding handle_leader_join_def add_learner_node_def join_reply_def refresh_verifier_from_metrics_def Let_def
  by (intro rm_keeps assms; (auto split: policy_result.split intro!: rm_keeps)?)

end

section \<open>Authorisation in Raft mode\<close>

text \<open>The administrator request in a payload, alone or in the envelope of an edge node.\<close>

definition requested :: "ext \<Rightarrow> 'b serde \<Rightarrow> bytes \<Rightarrow> admin_request \<Rightarrow> bool" where
  "requested X Z payload q \<longleftrightarrow>
     (\<exists>v. z_value Z payload = Some v \<and> z_v2 Z v = Some q) \<or>
     (\<exists>f b v. z_forwarded Z payload = Some f \<and> x_unb64 X (fe_request_b64 f) = Some b \<and> z_value Z b = Some v \<and> z_v2 Z v = Some q)"

definition root_request :: "ext \<Rightarrow> 'b serde \<Rightarrow> auth_context \<Rightarrow> bytes \<Rightarrow> admin_request \<Rightarrow> verified_admin \<Rightarrow> bool" where
  "root_request X Z c payload q va \<longleftrightarrow> requested X Z payload q \<and>
     (\<exists>now a. admin_v2_verify X (ac_admin_keys c) q now = (Inr va, a)) \<and> va_role va = Root \<and> classify_admin_op (rq_op q) = WriteOp"

definition invited :: "ext \<Rightarrow> 'b serde \<Rightarrow> auth_context \<Rightarrow> bytes \<Rightarrow> raft_runtime \<Rightarrow> raft_join_request \<Rightarrow> bool" where
  "invited X Z c payload rt q \<longleftrightarrow> ac_raft c = Some rt \<and> js_allow (ac_join c) \<and>
     (\<exists>v now. z_value Z payload = Some v \<and> z_raft_join Z v = Some q \<and>
        raft_join_verify X q (ac_admin_keys c) (rt_cluster_id rt) (ac_network c) now [rt_peer_id rt] = Inr ())"

text \<open>What a payload may cause, by the kind of event.\<close>

fun authorised :: "ext \<Rightarrow> 'b serde \<Rightarrow> auth_context \<Rightarrow> bytes \<Rightarrow> event \<Rightarrow> bool" where
  "authorised X Z c payload (Ev_Propose cmd) \<longleftrightarrow>
     (\<exists>q va. root_request X Z c payload q va \<and>
        ((\<exists>d. policy_command_for q = Inr d \<and> cmd = admin_command q va d) \<or> (\<exists>n. cmd = RenewIndex n))) \<or>
     (\<exists>rt q used. invited X Z c payload rt q \<and> cmd = ConsumeJoinToken (jt_jti (rj_token q)) (rj_node_id q) (rj_peer_id q) used)"
| "authorised X Z c payload (Ev_AddLearner i n blocking) \<longleftrightarrow>
     (\<exists>rt q. invited X Z c payload rt q \<and> i = rj_node_id q \<and>
        n = \<lparr>rn_peer_id = rj_peer_id q, rn_identity_key = rj_identity_key q, rn_x25519_key = rj_x25519_key q\<rparr>)"
| "authorised X Z c payload (Ev_ChangeMembership _) \<longleftrightarrow> False"
| "authorised X Z c payload (Ev_AddKey _ _ _ _) \<longleftrightarrow> (\<exists>q va. root_request X Z c payload q va)"
| "authorised X Z c payload (Ev_Send _ _ p) \<longleftrightarrow>
     (\<exists>q va f. root_request X Z c payload q va \<and> fe_request_b64 f = x_b64 X payload \<and> x_json X (forwarded_sval f) = Some p) \<or>
     (\<exists>rt q. invited X Z c payload rt q \<and> x_json X (raft_join_request_sval (q\<lparr>rj_edge_peer := rt_peer_id rt\<rparr>)) = Some p)"
| "authorised X Z c payload (Ev_Broadcast _ _ _ _ _) \<longleftrightarrow> False"

text \<open>Frames for handlers that start in a given context, until the context changes.\<close>

definition keeps_at :: "auth_context \<Rightarrow> ('e node \<Rightarrow> 'e node \<Rightarrow> bool) \<Rightarrow> ('e node, 'a) act \<Rightarrow> bool" where
  "keeps_at c R m \<longleftrightarrow> (\<forall>s. nd_ctx s = c \<longrightarrow> R s (snd (m s)))"

definition reads :: "('e node, 'a) act \<Rightarrow> bool" where
  "reads m \<longleftrightarrow> (\<forall>s. nd_ctx (snd (m s)) = nd_ctx s)"

lemma reads_actions: "reads (call f)" "reads (is_leader Y)" "reads (leader_peer Y)" "reads admin_raft" "reads raft_runtime_of"
  by (auto simp: reads_def call_def is_leader_def leader_peer_def admin_raft_def raft_runtime_of_def act_defs split: prod.split option.split)

lemma keeps_at_keeps: "keeps R m \<Longrightarrow> keeps_at c R m"
  by (simp add: keeps_at_def keeps_def)

lemma keeps_at_gets: "keeps_at c R (k c) \<Longrightarrow> keeps_at c R (seq (gets nd_ctx) k)"
  by (simp add: keeps_at_def seq_def gets_def)

lemma keeps_at_if: "(b \<Longrightarrow> keeps_at c R m) \<Longrightarrow> (\<not> b \<Longrightarrow> keeps_at c R m') \<Longrightarrow> keeps_at c R (if b then m else m')"
  by simp

context env_relation
begin

lemma at_of_opt: "(\<And>a. v = Some a \<Longrightarrow> keeps_at c (mode_frame M P Q) (k a)) \<Longrightarrow> keeps_at c (mode_frame M P Q) (seqE (of_opt x v) k)"
  by (cases v) (simp_all add: keeps_at_def of_opt_def act_defs fr.frame_refl)

lemma at_of_res: "(\<And>a. r = Inr a \<Longrightarrow> keeps_at c (mode_frame M P Q) (k a)) \<Longrightarrow> keeps_at c (mode_frame M P Q) (seqE (of_res f r) k)"
  by (cases r) (simp_all add: keeps_at_def of_res_def act_defs fr.frame_refl)

lemma at_seq:
  assumes "keeps (mode_frame M P Q) m" "reads m" "\<And>a. keeps_at c (mode_frame M P Q) (k a)"
  shows "keeps_at c (mode_frame M P Q) (seq m k)"
  unfolding keeps_at_def
proof (intro allI impI)
  fix s :: "'e node" assume c: "nd_ctx s = c"
  obtain a t where ms: "m s = (a, t)"
    by fastforce
  have "mode_frame M P Q s t" "nd_ctx t = c"
    using assms(1,2) ms c by (metis keepsD, metis reads_def snd_conv)
  then show "mode_frame M P Q s (snd (seq m k s))"
    using assms(3) [of a] fr.frame_trans by (simp add: seq_def ms keeps_at_def)
qed

lemma at_seqE:
  assumes "keeps (mode_frame M P Q) m" "reads m" "\<And>a. keeps_at c (mode_frame M P Q) (k a)"
  shows "keeps_at c (mode_frame M P Q) (seqE m k)"
  unfolding seqE_def by (intro at_seq assms) (simp split: sum.split add: assms keeps_at_keeps fr.keeps_pure)

lemma at_runtime: "(\<And>rt. ac_raft c = Some rt \<Longrightarrow> keeps_at c (mode_frame M P Q) (k rt)) \<Longrightarrow> keeps_at c (mode_frame M P Q) (seqE raft_runtime_of k)"
  by (cases "ac_raft c") (simp_all add: keeps_at_def raft_runtime_of_def act_defs fr.frame_refl)

text \<open>The part of the context that checks a request decides; only its table of nonces changes.\<close>

lemma at_check:
  assumes "keeps (mode_frame M P Q) m" "\<And>s b t. nd_ctx s = c \<Longrightarrow> m s = (Inr b, t) \<Longrightarrow> keeps (mode_frame M P Q) (k b)"
  shows "keeps_at c (mode_frame M P Q) (seqE (map_err f m) k)"
  unfolding keeps_at_def
proof (intro allI impI)
  fix s :: "'e node" assume c: "nd_ctx s = c"
  obtain r t where m: "m s = (r, t)"
    by fastforce
  have step: "mode_frame M P Q s t"
    by (rule keepsD [OF assms(1) m])
  have "mode_frame M P Q s (snd (k b t))" if "r = Inr b" for b
    using fr.frame_trans [OF step] assms(2) [OF c, of b t] m that by (simp add: keeps_def)
  then show "mode_frame M P Q s (snd (seqE (map_err f m) k s))"
    using step by (cases r) (simp_all add: act_defs m)
qed

lemma at_verify:
  assumes "\<And>va a. admin_v2_verify X (ac_admin_keys c) q now = (Inr va, a) \<Longrightarrow> keeps (mode_frame M P Q) (k va)"
  shows "keeps_at c (mode_frame M P Q) (seqE (map_err v2_err (on_keys (\<lambda>a. admin_v2_verify X a q now))) k)"
  by (rule at_check) (auto simp: on_keys_def keeps_states split: prod.splits intro: assms)

end

text \<open>Any environment will do when nothing is asked of its state.\<close>

interpretation any_env: env_relation Y "\<lambda>_ _. True" P M for Y P M
  by unfold_locales simp_all

text \<open>
  The replicated policy as the environment holds it, read by \<open>pol\<close>. A proposed command is applied when Raft commits it,
  and at any call the commands that other nodes had committed may be applied; they are in \<open>R\<close>.
\<close>

definition moves :: "ext \<Rightarrow> policy_command set \<Rightarrow> policy_state \<Rightarrow> policy_state \<Rightarrow> bool" where
  "moves X A p p' \<longleftrightarrow> (\<exists>log. p' = policy_run X log p \<and> (\<forall>(c, i) \<in> set log. c \<in> A))"

definition policy_law :: "ext \<Rightarrow> ('e, 'b) env \<Rightarrow> ('e \<Rightarrow> policy_state) \<Rightarrow> policy_command set \<Rightarrow> bool" where
  "policy_law X Y pol R \<longleftrightarrow> (\<forall>e.
     (\<forall>e' \<in> {snd (y_now Y e), snd (y_uptime Y e), snd (y_io Y e), snd (y_remove_io Y e), snd (y_metrics Y e), snd (y_policy Y e),
        snd (y_applied Y e), snd (y_whoami Y e), snd (y_random Y e)}. moves X R (pol e) (pol e')) \<and>
     (\<forall>body. moves X R (pol e) (pol (snd (y_rpc Y body e)))) \<and>
     (\<forall>c. moves X (insert c R) (pol e) (pol (snd (y_client_write Y c e)))) \<and>
     (\<forall>i n blocking. moves X R (pol e) (pol (snd (y_add_learner Y i n blocking e)))) \<and>
     (\<forall>conn k v. moves X R (pol e) (pol (snd (y_add_key Y conn k v e)))) \<and>
     (\<forall>service peer payload. moves X R (pol e) (pol (snd (y_send Y service peer payload e)))))"

text \<open>The policy moves by commands of other nodes and by those whose proposals are events of \<open>P\<close>.\<close>

definition driven :: "ext \<Rightarrow> ('e, 'b) env \<Rightarrow> ('e \<Rightarrow> policy_state) \<Rightarrow> policy_command set \<Rightarrow> (event \<Rightarrow> bool) \<Rightarrow> 'e \<Rightarrow> 'e \<Rightarrow> bool" where
  "driven X Y pol R P e f \<longleftrightarrow> (policy_law X Y pol R \<longrightarrow> moves X (R \<union> {c. P (Ev_Propose c)}) (pol e) (pol f))"

lemma moves_refl: "moves X A p p"
  unfolding moves_def by (rule exI [of _ "[]"]) simp

lemma moves_trans: "moves X A p p' \<Longrightarrow> moves X A p' p'' \<Longrightarrow> moves X A p p''"
  unfolding moves_def by (elim exE conjE, rule_tac x = "log @ loga" in exI) (auto simp: policy_run_append)

lemma moves_mono: "moves X A p p' \<Longrightarrow> A \<subseteq> B \<Longrightarrow> moves X B p p'"
  unfolding moves_def by blast

lemma policy_law_reads:
  assumes "policy_law X Y pol R" "R \<subseteq> A"
    and "e' \<in> {snd (y_now Y e), snd (y_uptime Y e), snd (y_io Y e), snd (y_remove_io Y e), snd (y_metrics Y e), snd (y_policy Y e),
      snd (y_applied Y e), snd (y_whoami Y e), snd (y_random Y e)}"
  shows "moves X A (pol e) (pol e')"
  using assms unfolding policy_law_def by (blast intro: moves_mono)

interpretation policy_env: env_relation Y "driven X Y pol R P" P M for X Y pol R P M
proof
  fix e f g
  show "driven X Y pol R P e e"
    by (simp add: driven_def moves_refl)
  show "driven X Y pol R P e f \<Longrightarrow> driven X Y pol R P f g \<Longrightarrow> driven X Y pol R P e g"
    unfolding driven_def by (blast intro: moves_trans)
  show "driven X Y pol R P e (snd (y_now Y e))" "driven X Y pol R P e (snd (y_uptime Y e))" "driven X Y pol R P e (snd (y_io Y e))"
    "driven X Y pol R P e (snd (y_remove_io Y e))" "driven X Y pol R P e (snd (y_metrics Y e))" "driven X Y pol R P e (snd (y_policy Y e))"
    "driven X Y pol R P e (snd (y_applied Y e))" "driven X Y pol R P e (snd (y_whoami Y e))" "driven X Y pol R P e (snd (y_random Y e))"
    unfolding driven_def by (auto intro: policy_law_reads)
  show "driven X Y pol R P e (snd (y_rpc Y body e))" for body
    unfolding driven_def policy_law_def by (blast intro: moves_mono)
  show "P (Ev_Propose c) \<Longrightarrow> driven X Y pol R P e (snd (y_client_write Y c e))" for c
    unfolding driven_def policy_law_def by (blast intro: moves_mono)
  show "driven X Y pol R P e (snd (y_add_learner Y i n blocking e))" if "P (Ev_AddLearner i n blocking)" for i n blocking
    unfolding driven_def policy_law_def by (blast intro: moves_mono)
  show "driven X Y pol R P e (snd (y_add_key Y conn k v e))" for conn k v
    unfolding driven_def policy_law_def by (blast intro: moves_mono)
  show "driven X Y pol R P e (snd (y_send Y service peer payload e))" for service peer payload
    unfolding driven_def policy_law_def by (blast intro: moves_mono)
qed

lemma root_requestI:
  "requested X Z payload q \<Longrightarrow> admin_v2_verify X (ac_admin_keys c) q now = (Inr va, a) \<Longrightarrow> va_role va = Root \<Longrightarrow>
   classify_admin_op (rq_op q) = WriteOp \<Longrightarrow> root_request X Z c payload q va"
  unfolding root_request_def by blast

lemma root_write_authorised:
  assumes "root_request X Z c payload q va"
  shows "keeps (mode_frame True (authorised X Z c payload) (driven X Y pol R (authorised X Z c payload))) (execute_root_write E Z Y q va)"
proof (rule policy_env.keeps_root_write)
  show "classify_admin_op (rq_op q) = WriteOp"
    using assms by (simp add: root_request_def)
qed (use assms in \<open>auto simp del: split_paired_Ex\<close>)

lemma root_request_authorised:
  assumes "root_request X Z c payload q va" "X = en_ext E"
  shows "keeps (mode_frame True (authorised X Z c payload) (driven X Y pol R (authorised X Z c payload))) (handle_root_write E Z Y forwarder payload q va)"
proof -
  have send: "authorised X Z c payload (Ev_Send service peer p)"
    if "x_json X (forwarded_sval \<lparr>fe_op = FORWARDED_ADMIN_OP, fe_v = FORWARDED_ADMIN_VERSION, fe_request_b64 = x_b64 X payload,
      fe_edge_peer = edge, fe_edge_sig = []\<rparr>) = Some p" for service peer p edge
    unfolding authorised.simps
    by (intro disjI1 exI conjI) (rule assms, rule forwarded_admin_envelope.select_convs, rule that)
  show ?thesis
    unfolding handle_root_write_def Let_def assms(2) [symmetric]
    by (intro policy_env.fr.keeps_seqE policy_env.fr.keeps_seq policy_env.fr.keeps_if policy_env.fr.keeps_of_opt policy_env.fr.keeps_map_err
        policy_env.mode_asks policy_env.mode_queries policy_env.keeps_reads policy_env.fr.keeps_pure root_write_authorised assms send)
qed

lemma forwarded_authorised:
  assumes "X = en_ext E"
  shows "keeps_at c (mode_frame True (authorised X Z c payload) (driven X Y pol R (authorised X Z c payload))) (handle_forwarded_admin E Z Y payload)"
proof -
  have change: "keeps (mode_frame True (authorised X Z c payload) (driven X Y pol R (authorised X Z c payload)))
      (if va_role va \<noteq> Root then fail (err ''forbidden_role'' Plain)
       else if classify_admin_op (rq_op q) \<noteq> WriteOp then fail (err ''bad_request'' Plain)
       else execute_root_write E Z Y q va)"
    if "z_forwarded Z payload = Some f" "x_unb64 X (fe_request_b64 f) = Some b" "z_value Z b = Some v" "z_v2 Z v = Some q"
      "admin_v2_verify X (ac_admin_keys c) q now = (Inr va, a)" for f b v q va now a
    using that(1-4)
    by (intro policy_env.fr.keeps_if policy_env.fr.keeps_pure root_write_authorised root_requestI [OF _ that(5)])
      (auto simp: requested_def)
  show ?thesis
    unfolding handle_forwarded_admin_def Let_def assms [symmetric]
    by (intro policy_env.at_of_opt keeps_at_if policy_env.at_seqE policy_env.at_seq policy_env.at_verify reads_actions policy_env.mode_queries policy_env.keeps_reads
        keeps_at_keeps [OF policy_env.fr.keeps_pure(2)] change)
qed

lemma admin_v2_authorised:
  assumes "X = en_ext E" "z_value Z payload = Some v"
  shows "keeps_at c (mode_frame True (authorised X Z c payload) (driven X Y pol R (authorised X Z c payload))) (handle_admin_v2 E Z Y forwarder payload v)"
proof -
  have handle: "keeps (mode_frame True (authorised X Z c payload) (driven X Y pol R (authorised X Z c payload)))
      (case classify_admin_op (rq_op q) of
         ReadOp \<Rightarrow> handle_admin_read X Z Y q
       | WriteOp \<Rightarrow> if va_role va \<noteq> Root then fail (err ''forbidden_role'' Plain) else handle_root_write E Z Y forwarder payload q va
       | UnknownOp \<Rightarrow> fail (err ''unknown_op'' (D_Text (rq_op q))))"
    if "z_v2 Z v = Some q" "admin_v2_verify X (ac_admin_keys c) q now = (Inr va, a)" for q va now a
    using that(1) assms(2) by (cases "classify_admin_op (rq_op q)")
      (auto simp: requested_def intro!: policy_env.keeps_admin_read policy_env.fr.keeps_pure root_request_authorised [OF _ assms(1)] root_requestI [OF _ that(2)])
  show ?thesis
    unfolding handle_admin_v2_def assms(1) [symmetric]
    by (intro keeps_at_if forwarded_authorised policy_env.at_of_opt policy_env.at_seq policy_env.at_verify reads_actions policy_env.keeps_reads handle assms)
qed

lemma raft_join_authorised:
  assumes "z_value Z payload = Some v"
  shows "keeps_at c (mode_frame True (authorised X Z c payload) (driven X Y pol R (authorised X Z c payload))) (handle_raft_join X Z Y client v)"
proof -
  have joins: "keeps (mode_frame True (authorised X Z c payload) (driven X Y pol R (authorised X Z c payload))) (handle_leader_join X Y rt q)"
    "\<And>service peer p. x_json X (raft_join_request_sval (q\<lparr>rj_edge_peer := rt_peer_id rt\<rparr>)) = Some p \<Longrightarrow>
       authorised X Z c payload (Ev_Send service peer p)"
    if "invited X Z c payload rt q" for rt q
    by (intro policy_env.keeps_join; use that in \<open>unfold authorised.simps, blast\<close>) (use that in \<open>unfold authorised.simps, blast\<close>)
  have "invited X Z c payload rt q"
    if "ac_raft c = Some rt" "\<not> \<not> js_allow (ac_join c)" "z_raft_join Z v = Some q"
      "raft_join_verify X q (ac_admin_keys c) (rt_cluster_id rt) (ac_network c) now [rt_peer_id rt] = Inr u" for rt q now u
    using that assms by (auto simp: invited_def)
  note rules = keeps_at_keeps policy_env.fr.keeps_seq policy_env.fr.keeps_if policy_env.fr.keeps_of_opt policy_env.fr.keeps_map_err
    policy_env.mode_asks policy_env.mode_queries policy_env.fr.keeps_pure joins this
  show ?thesis
    unfolding handle_raft_join_def
    by (intro policy_env.at_runtime keeps_at_gets keeps_at_if policy_env.at_of_opt policy_env.at_of_res
        policy_env.at_seq [OF policy_env.keeps_reads(1)] reads_actions rules; assumption)
qed

lemma service_request_authorised:
  assumes "ac_raft_required c"
  shows "keeps_at c (mode_frame True (authorised (en_ext E) Z c payload) (driven (en_ext E) Y pol R (authorised (en_ext E) Z c payload))) (handle_service_request E Z Y client forwarder payload)"
  unfolding handle_service_request_def Let_def
  using assms
  by (intro policy_env.at_of_opt keeps_at_gets keeps_at_if raft_join_authorised admin_v2_authorised refl
      keeps_at_keeps policy_env.fr.keeps_seqE policy_env.fr.keeps_pure policy_env.keeps_handle_rpc policy_env.keeps_seed_handlers; simp)

text \<open>
  C2: In Raft mode nothing happens without authority. Whatever bytes arrive, the local store does not change and the mode
  stays. A command is proposed only for a request, sent directly or by an edge node, that this node has verified itself as a
  fresh write of a root administrator - and then it is the command of that request, or a renewal of the index - or to use
  up the token of a node whose join request was accepted. Only such a node is added as a learner, with the keys of its
  request; voters are never changed. Records are published, and messages sent to other nodes, for those requests only, and an
  edge node forwards the bytes it received.
\<close>

theorem raft_mode_authorised:
  assumes "ac_raft_required (nd_ctx s)" "handle_service_request E Z Y client forwarder payload s = (r, t)"
  shows "new_events (authorised (en_ext E) Z (nd_ctx s) payload) s t \<and> ac_store (nd_ctx t) = ac_store (nd_ctx s) \<and>
    ac_raft_required (nd_ctx t)"
  using service_request_authorised [OF assms(1), of E Z payload Y "\<lambda>_. policy_new []" "{}" client forwarder] assms
  by (auto simp: keeps_at_def mode_frame_def dest!: spec [of _ s])

text \<open>A node that serves requests one after another.\<close>

fun serve :: "store_env \<Rightarrow> 'b serde \<Rightarrow> ('e, 'b) env \<Rightarrow> (bool \<times> bool \<times> bytes) list \<Rightarrow> 'e node \<Rightarrow> 'e node" where
  "serve E Z Y [] s = s"
| "serve E Z Y ((client, forwarder, payload) # reqs) s = serve E Z Y reqs (snd (handle_service_request E Z Y client forwarder payload s))"

text \<open>A request at some position of the sequence authorises the event, in the context the node has then.\<close>

definition authorised_in :: "store_env \<Rightarrow> 'b serde \<Rightarrow> ('e, 'b) env \<Rightarrow> (bool \<times> bool \<times> bytes) list \<Rightarrow> 'e node \<Rightarrow> event \<Rightarrow> bool" where
  "authorised_in E Z Y reqs s ev \<longleftrightarrow> (\<exists>before client forwarder payload after. reqs = before @ (client, forwarder, payload) # after \<and>
     authorised (en_ext E) Z (nd_ctx (serve E Z Y before s)) payload ev)"

lemma authorised_in_Cons:
  "authorised (en_ext E) Z (nd_ctx s) payload ev \<or> authorised_in E Z Y reqs (snd (handle_service_request E Z Y client forwarder payload s)) ev \<Longrightarrow>
   authorised_in E Z Y ((client, forwarder, payload) # reqs) s ev"
proof (elim disjE)
  assume "authorised (en_ext E) Z (nd_ctx s) payload ev"
  then show ?thesis
    unfolding authorised_in_def by (intro exI [of _ "[]"] exI [of _ client] exI [of _ forwarder] exI [of _ payload] exI [of _ reqs]) simp
next
  assume "authorised_in E Z Y reqs (snd (handle_service_request E Z Y client forwarder payload s)) ev"
  then obtain before cl fo pa after where "reqs = before @ (cl, fo, pa) # after"
    "authorised (en_ext E) Z (nd_ctx (serve E Z Y before (snd (handle_service_request E Z Y client forwarder payload s)))) pa ev"
    unfolding authorised_in_def by blast
  then show ?thesis
    unfolding authorised_in_def
    by (intro exI [of _ "(client, forwarder, payload) # before"] exI [of _ cl] exI [of _ fo] exI [of _ pa] exI [of _ after]) simp
qed

lemma serve_moves:
  assumes "policy_law (en_ext E) Y pol R" "ac_raft_required (nd_ctx s)"
  shows "moves (en_ext E) (R \<union> {c. authorised_in E Z Y reqs s (Ev_Propose c)}) (pol (nd_env s)) (pol (nd_env (serve E Z Y reqs s)))"
  using assms(2)
proof (induction reqs arbitrary: s)
  case (Cons q reqs)
  obtain client forwarder payload where q: "q = (client, forwarder, payload)"
    by (cases q)
  define t where "t = snd (handle_service_request E Z Y client forwarder payload s)"
  have "driven (en_ext E) Y pol R (authorised (en_ext E) Z (nd_ctx s) payload) (nd_env s) (nd_env t)" "ac_raft_required (nd_ctx t)"
    using service_request_authorised [OF Cons.prems, of E Z payload Y pol R client forwarder] Cons.prems
    by (simp_all add: keeps_at_def mode_frame_def t_def)
  moreover have "R \<union> {c. authorised (en_ext E) Z (nd_ctx s) payload (Ev_Propose c)} \<subseteq> R \<union> {c. authorised_in E Z Y (q # reqs) s (Ev_Propose c)}"
    "R \<union> {c. authorised_in E Z Y reqs t (Ev_Propose c)} \<subseteq> R \<union> {c. authorised_in E Z Y (q # reqs) s (Ev_Propose c)}"
    unfolding q t_def by (blast intro: authorised_in_Cons)+
  ultimately have "moves (en_ext E) (R \<union> {c. authorised_in E Z Y (q # reqs) s (Ev_Propose c)}) (pol (nd_env s)) (pol (nd_env t))"
    "moves (en_ext E) (R \<union> {c. authorised_in E Z Y (q # reqs) s (Ev_Propose c)}) (pol (nd_env t)) (pol (nd_env (serve E Z Y reqs t)))"
    using assms(1) Cons.IH [of t] moves_mono unfolding driven_def by blast+
  then show ?case
    using moves_trans by (simp add: q t_def)
qed (simp add: moves_refl)

text \<open>
  C1: The history of the policy is authorised. However many requests a node of a Raft cluster serves, whatever bytes they are,
  and whatever other nodes commit meanwhile: the policy the node holds in the end is the one it had at the start after a sequence of
  commands, each of which another node had committed or one of the served requests authorised, in the context the node had when it
  came. The policy stays well-formed.
\<close>

theorem policy_history_authorised:
  assumes "policy_law (en_ext E) Y pol R" "ac_raft_required (nd_ctx s)" "policy_inv (en_ext E) (pol (nd_env s))" "t = serve E Z Y reqs s"
  shows "policy_inv (en_ext E) (pol (nd_env t)) \<and> (\<exists>log. pol (nd_env t) = policy_run (en_ext E) log (pol (nd_env s)) \<and>
    (\<forall>(c, i) \<in> set log. c \<in> R \<or> authorised_in E Z Y reqs s (Ev_Propose c)))"
proof -
  obtain log where "pol (nd_env t) = policy_run (en_ext E) log (pol (nd_env s))"
    "\<forall>(c, i) \<in> set log. c \<in> R \<union> {c. authorised_in E Z Y reqs s (Ev_Propose c)}"
    using serve_moves [OF assms(1,2), of Z reqs] unfolding moves_def assms(4) by blast
  then show ?thesis
    using policy_run_inv [OF assms(3)] by (intro conjI exI [of _ log]) auto
qed

section \<open>Requests that are always refused\<close>

text \<open>An action that fails without any event.\<close>

definition refuses :: "('e node, 'x + 'a) act \<Rightarrow> bool" where
  "refuses m \<longleftrightarrow> (\<forall>s. (\<exists>x. fst (m s) = Inl x) \<and> new_events (\<lambda>_. False) s (snd (m s)))"

lemma refusesD:
  assumes "refuses m"
  shows "\<exists>x t. m s = (Inl x, t) \<and> nd_trace t = nd_trace s"
proof -
  obtain r t where m: "m s = (r, t)"
    by fastforce
  have "(\<exists>x. r = Inl x) \<and> nd_trace t = nd_trace s"
    using assms [unfolded refuses_def, THEN spec [of _ s]] m by (auto simp: new_events_def)
  with m show ?thesis
    by auto
qed

lemma refuses_fail: "refuses (fail x)"
  by (auto simp: refuses_def fail_def ret_def new_events_def)

lemma refuses_seq:
  assumes "keeps (new_events (\<lambda>_. False)) m" "\<And>a. refuses (k a)"
  shows "refuses (seq m k)"
  unfolding refuses_def
proof
  fix s
  obtain a t where m: "m s = (a, t)"
    by fastforce
  have "(\<exists>x. fst (k a t) = Inl x) \<and> new_events (\<lambda>_. False) t (snd (k a t))"
    using assms(2) by (simp add: refuses_def)
  with keepsD [OF assms(1) m] show "(\<exists>x. fst (seq m k s) = Inl x) \<and> new_events (\<lambda>_. False) s (snd (seq m k s))"
    by (auto simp: seq_def m intro: ev_frame.frame_trans)
qed

lemma refuses_seqE: "keeps (new_events (\<lambda>_. False)) m \<Longrightarrow> (\<And>a. refuses (k a)) \<Longrightarrow> refuses (seqE m k)"
  unfolding seqE_def by (rule refuses_seq) (auto split: sum.split simp: refuses_def ret_def new_events_def)

lemma refuses_of_opt: "(\<And>a. v = Some a \<Longrightarrow> refuses (k a)) \<Longrightarrow> refuses (seqE (of_opt x v) k)"
  by (cases v) (auto simp: refuses_def of_opt_def act_defs new_events_def)

lemma refuses_if: "(b \<Longrightarrow> refuses m) \<Longrightarrow> (\<not> b \<Longrightarrow> refuses m') \<Longrightarrow> refuses (if b then m else m')"
  by simp

lemma keeps_on_keys: "keeps (new_events P) (on_keys f)"
  by (auto simp: keeps_def on_keys_def new_events_def split: prod.split)

lemma keeps_admin_raft: "keeps (new_events P) admin_raft"
  unfolding admin_raft_def by (intro ev_frame.keeps_rules)

lemma member_op_unknown: "is_member_management_op op \<Longrightarrow> classify_admin_op op = UnknownOp"
  unfolding is_member_management_op_def insert_iff
  by (elim disjE emptyE; hypsubst; simp add: classify_admin_op_def is_mutating_op_def)

lemma member_request_refused:
  assumes "z_value Z payload = Some v" "\<And>q. requested (en_ext E) Z payload q \<Longrightarrow> is_member_management_op (rq_op q)"
  shows "refuses (handle_admin_v2 E Z Y forwarder payload v)"
proof -
  have op: "classify_admin_op (rq_op q) = UnknownOp" if "requested (en_ext E) Z payload q" for q
    using assms(2) [OF that] by (rule member_op_unknown)
  have inner: "\<not> classify_admin_op (rq_op q) = WriteOp"
    if "z_forwarded Z payload = Some f" "x_unb64 (en_ext E) (fe_request_b64 f) = Some b" "z_value Z b = Some w" "z_v2 Z w = Some q" for f b w q
    using op [of q] that by (auto simp: requested_def)
  have forwarded: "refuses (handle_forwarded_admin E Z Y payload)"
    unfolding handle_forwarded_admin_def Let_def
    by (intro refuses_of_opt refuses_if refuses_fail refuses_seqE refuses_seq keeps_admin_raft ev_keeps keeps_on_keys) (use inner in blast)
  have direct: "refuses (case classify_admin_op (rq_op q) of
         ReadOp \<Rightarrow> handle_admin_read (en_ext E) Z Y q
       | WriteOp \<Rightarrow> if va_role va \<noteq> Root then fail (err ''forbidden_role'' Plain) else handle_root_write E Z Y forwarder payload q va
       | UnknownOp \<Rightarrow> fail (err ''unknown_op'' (D_Text (rq_op q))))" if "z_v2 Z v = Some q" for q va
    using op [of q] that assms(1) by (simp add: requested_def refuses_fail)
  show ?thesis
    unfolding handle_admin_v2_def
    by (intro refuses_if forwarded refuses_of_opt refuses_seq refuses_seqE ev_keeps keeps_on_keys direct)
qed

lemmas op_names = RAFT_RPC_OP_def RAFT_JOIN_OP_def SEED_DELIVERY_OP_def SEED_DROP_OP_def OP_REQUEST_def OP_REPLICATE_def
  OP_SYNC_REQUEST_def FORWARDED_ADMIN_OP_def

lemma dispatch_admin:
  assumes "ac_raft_required (nd_ctx s)" "z_value Z payload = Some v" "get_op v = Some op"
    and "is_member_management_op op \<or> op = FORWARDED_ADMIN_OP"
  shows "handle_service_request E Z Y client forwarder payload s = handle_admin_v2 E Z Y forwarder payload v s"
proof -
  have "op \<notin> {RAFT_RPC_OP, RAFT_JOIN_OP, SEED_DELIVERY_OP, SEED_DROP_OP, OP_REQUEST, OP_REPLICATE, OP_SYNC_REQUEST}"
    using assms(4) unfolding is_member_management_op_def insert_iff by (elim disjE emptyE; hypsubst; simp add: op_names)
  then show ?thesis
    using assms(1-3) by (simp add: handle_service_request_def Let_def act_defs)
qed

lemma join_op_not_rpc: "RAFT_JOIN_OP \<noteq> RAFT_RPC_OP"
  by (simp add: op_names)

text \<open>
  C38: The commands that manage the cluster are never carried out. In Raft mode \<open>add_learner\<close>, \<open>promote_voter\<close>,
  \<open>demote_voter\<close>, \<open>remove_member\<close> and \<open>issue_join_token\<close>, whoever signs them and whether they arrive directly or
  forwarded, end in an error without any effect outside the process, because \<open>classify_admin_op\<close> does not know them; so
  \<open>execute_member_write\<close> is not reached.
\<close>

theorem member_management_refused:
  assumes "ac_raft_required (nd_ctx s)" "z_value Z payload = Some v" "get_op v = Some op"
    and "is_member_management_op op \<or> op = FORWARDED_ADMIN_OP"
    and "\<And>q. requested (en_ext E) Z payload q \<Longrightarrow> is_member_management_op (rq_op q)"
  shows "\<exists>x t. handle_service_request E Z Y client forwarder payload s = (Inl x, t) \<and> nd_trace t = nd_trace s"
  unfolding dispatch_admin [OF assms(1-4)] by (rule refusesD [OF member_request_refused [OF assms(2,5)]])

lemma raft_join_verify_audience:
  "raft_join_verify X q a cl net now allowed = Inr u \<Longrightarrow> jt_audience (rj_token q) = ''auth'' \<or> jt_audience (rj_token q) \<in> set allowed"
  unfolding raft_join_verify_def verify_join_token_def by (auto split: if_splits sum.splits option.splits)

text \<open>
  C39: Only the node a token names as its audience lets its bearer in. A join request whose token is meant for another node
  than the one that handles it, and not for the wildcard \<open>auth\<close>, is refused without effect, also by the leader and whatever
  edge node it claims to come from: the leader checks the request against its own name before \<open>handle_leader_join\<close> would
  accept the edge's. So a request that an edge node accepted for itself and forwarded is always refused, and so is one
  whose audience is the joining node.
\<close>

theorem foreign_audience_refused:
  assumes "z_value Z payload = Some v" "get_op v = Some RAFT_JOIN_OP" "z_raft_join Z v = Some q"
    and "ac_raft (nd_ctx s) = Some rt" "jt_audience (rj_token q) \<notin> {''auth'', rt_peer_id rt}"
  shows "\<exists>x t. handle_service_request E Z Y client forwarder payload s = (Inl x, t) \<and> nd_trace t = nd_trace s"
proof -
  obtain now e where now: "y_now Y (nd_env s) = (now, e)"
    by fastforce
  obtain x where "raft_join_verify (en_ext E) q (ac_admin_keys (nd_ctx s)) (rt_cluster_id rt) (ac_network (nd_ctx s)) now [rt_peer_id rt] = Inl x"
    using raft_join_verify_audience assms(5) by (metis insert_iff list.simps(15) old.sum.exhaust empty_iff set_empty)
  then show ?thesis
    using assms(1-4) now
    by (simp add: handle_service_request_def handle_raft_join_def raft_runtime_of_def Let_def act_defs call_def join_op_not_rpc)
qed

section \<open>The old mode\<close>

text \<open>A payload that may change the local store: a verified change request, or a verified message of another replica.\<close>

definition authentic_change :: "ext \<Rightarrow> 'b serde \<Rightarrow> auth_context \<Rightarrow> bytes \<Rightarrow> bool" where
  "authentic_change X Z c payload \<longleftrightarrow> (\<exists>v now. z_value Z payload = Some v \<and>
     ((\<exists>q a. z_mgmt Z v = Some q \<and> admin_verify X (ac_admin c) q now = (Inr (), a) \<and> is_mutating_op (mr_op q)) \<or>
      (\<exists>m a. z_replicate Z v = Some m \<and> verify_replicate X (ac_replicate c) m now = (Inr (), a))))"

context env_relation
begin

lemma keeps_auth_state:
  "keeps (mode_frame M P Q) (on_admin f)" "keeps (mode_frame M P Q) (on_replicate g)" "keeps (mode_frame M P Q) (on_join h)"
  by (auto simp: keeps_def on_admin_def on_replicate_def on_join_def mode_frame_def new_events_def Q_refl split: prod.split)

lemma keeps_sync_join: "keeps (mode_frame M P Q) (handle_sync_request E Z Y v)" "keeps (mode_frame M P Q) (handle_join E Z Y v)"
  unfolding handle_sync_request_def handle_join_def Let_def by (intro rm_keeps keeps_auth_state)+

lemma at_admin:
  assumes "\<And>a. admin_verify X (ac_admin c) q now = (Inr (), a) \<Longrightarrow> keeps (mode_frame M P Q) (k ())"
  shows "keeps_at c (mode_frame M P Q) (seqE (map_err admin_err (on_admin (\<lambda>a. admin_verify X a q now))) k)"
  by (rule at_check) (auto simp: on_admin_def keeps_auth_state split: prod.splits intro: assms)

lemma at_replicate:
  assumes "\<And>a. verify_replicate X (ac_replicate c) m now \<noteq> (Inr (), a)"
  shows "keeps_at c (mode_frame M P Q) (seqE (map_err rep_err (on_replicate (\<lambda>a. verify_replicate X a m now))) k)"
  by (rule at_check) (auto simp: on_replicate_def keeps_auth_state assms split: prod.splits)

end

lemma legacy_store_kept:
  assumes "X = en_ext E" "z_value Z payload = Some v" "\<not> authentic_change X Z c payload"
  shows "keeps_at c (mode_frame M (\<lambda>_. True) (\<lambda>_ _. True)) (handle_legacy E Z Y client v)"
proof -
  have read: "\<not> is_mutating_op (mr_op q)" if "z_mgmt Z v = Some q" "admin_verify X (ac_admin c) q now = (Inr (), a)" for q now a
    using assms(2,3) that unfolding authentic_change_def by blast
  have off: "mr_op q \<noteq> ''add_members''" "mr_op q \<noteq> ''remove_members''" "mr_op q \<noteq> ''set_members''" "mr_op q \<noteq> ''create_service''"
    "mr_op q \<noteq> ''delete_service''" if "z_mgmt Z v = Some q" "admin_verify X (ac_admin c) q now = (Inr (), a)" for q now a
    using read [OF that] by (simp_all add: is_mutating_op_def)
  show ?thesis
    unfolding handle_legacy_def require_service_def Let_def assms(1) [symmetric]
    by (intro any_env.at_of_opt any_env.at_seq any_env.keeps_reads reads_actions any_env.at_admin)
      (simp only: off if_False, intro any_env.fr.keeps_rules any_env.keeps_reads any_env.keeps_states)
qed

lemma replicate_store_kept:
  assumes "X = en_ext E" "z_value Z payload = Some v" "\<not> authentic_change X Z c payload"
  shows "keeps_at c (mode_frame M (\<lambda>_. True) (\<lambda>_ _. True)) (handle_replicate E Z Y v)"
proof -
  have "verify_replicate X (ac_replicate c) m now \<noteq> (Inr (), a)" if "z_replicate Z v = Some m" for m now a
    using assms(2,3) that unfolding authentic_change_def by blast
  then show ?thesis
    unfolding handle_replicate_def Let_def assms(1) [symmetric]
    by (intro any_env.at_of_opt any_env.at_seq any_env.keeps_reads reads_actions any_env.at_replicate)
qed

lemma raft_join_store_kept: "keeps (mode_frame M (\<lambda>_. True) (\<lambda>_ _. True)) (handle_raft_join X Z Y client v)"
  unfolding handle_raft_join_def
  by (intro any_env.fr.keeps_rules any_env.mode_queries any_env.keeps_reads any_env.keeps_join any_env.mode_asks TrueI)

text \<open>
  C13: In the old mode the local store changes only on authority. When handling a payload changes the store, the payload is
  a management request with one of the five changing commands and a fresh, correct MAC of the management password, or a
  change message of another replica with a fresh, correct MAC; reads, joins, anti-entropy, Raft messages and all malformed or
  forged requests leave it as it is.
\<close>

theorem old_mode_authenticated:
  assumes "\<not> ac_raft_required (nd_ctx s)" "handle_service_request E Z Y client forwarder payload s = (r, t)"
    and "ac_store (nd_ctx t) \<noteq> ac_store (nd_ctx s)"
  shows "authentic_change (en_ext E) Z (nd_ctx s) payload"
proof (rule ccontr)
  assume no: "\<not> authentic_change (en_ext E) Z (nd_ctx s) payload"
  have "keeps_at (nd_ctx s) (mode_frame False (\<lambda>_. True) (\<lambda>_ _. True)) (handle_service_request E Z Y client forwarder payload)"
    unfolding handle_service_request_def Let_def if_not_P [OF assms(1)]
    by (intro any_env.at_of_opt keeps_at_gets keeps_at_if legacy_store_kept [OF refl _ no] replicate_store_kept [OF refl _ no]
        keeps_at_keeps [OF raft_join_store_kept] keeps_at_keeps [OF any_env.keeps_seed_handlers(1)] keeps_at_keeps [OF any_env.keeps_seed_handlers(2)]
        keeps_at_keeps [OF any_env.keeps_sync_join(1)] keeps_at_keeps [OF any_env.keeps_sync_join(2)]
        keeps_at_keeps [OF any_env.keeps_handle_rpc]; use assms(1) in simp)
  then show False
    using assms by (auto simp: keeps_at_def mode_frame_def dest!: spec [of _ s])
qed

section \<open>Writes are carried out\<close>

text \<open>What openraft promises of a committed write: its result is the one of the state machine.\<close>

definition write_law :: "ext \<Rightarrow> ('e, 'b) env \<Rightarrow> bool" where
  "write_law X Y \<longleftrightarrow> (\<forall>c e x i e'. y_client_write Y c e = (Inr (x, i), e') \<longrightarrow> (\<exists>p. x = fst (apply_command_at X c i p)))"

fun publication :: "event \<Rightarrow> bool" where
  "publication (Ev_AddKey _ _ _ _) \<longleftrightarrow> True"
| "publication (Ev_Propose (RenewIndex _)) \<longleftrightarrow> True"
| "publication _ \<longleftrightarrow> False"

text \<open>
  The reply to a committed change, from the publication that followed it in state \<open>s\<close>: it is acknowledged when the index was accepted by every
  connection, of a state of the policy that was read, or when there is no connection; every other result of the publication is reported.
\<close>

definition publish_outcome_ok :: "store_env \<Rightarrow> ('e, 'b) env \<Rightarrow> bytes \<Rightarrow> u64 \<Rightarrow> 'e node \<Rightarrow> service_error + bytes \<Rightarrow> 'e node \<Rightarrow> bool" where
  "publish_outcome_ok E Y ack epoch s r t \<longleftrightarrow> (\<exists>res. publish_now E Y False s = (res, t) \<and>
     (case res of
        Inr (Published n) \<Rightarrow> r = Inr ack \<and> (\<exists>p. policy_read Y p \<and> round_ok (en_ext E) s p res t)
      | Inr NoConnections \<Rightarrow> r = Inr ack \<and> clients_of s = [] \<and> t = s
      | Inr NotLeader \<Rightarrow> r = Inl ((err ''committed_but_publish_failed'' Plain)\<lparr>er_publish := Some PN_NotLeader\<rparr>)
      | Inl x \<Rightarrow> r = Inl (publish_err ''committed_but_publish_failed'' x epoch)))"

definition change_ack :: "ext \<Rightarrow> string \<Rightarrow> u64 \<Rightarrow> u64 \<Rightarrow> bool \<Rightarrow> string option \<Rightarrow> u64 option \<Rightarrow> bool \<Rightarrow> bytes" where
  "change_ack X rid epoch index duplicate service ver changed =
     encode X (jobj [(''request_id'', SStr rid), (''service'', opt_str service), (''version'', opt_int ver), (''changed'', SBool changed),
       (''policy_epoch'', SInt epoch), (''raft_index'', SInt index), (''duplicate'', SBool duplicate)])"

text \<open>How the reply and the state after the proposal depend on what became of the proposal; \<open>s\<close> is the state right after it.\<close>

fun write_outcome ::
  "store_env \<Rightarrow> ('e, 'b) env \<Rightarrow> string + policy_result \<times> u64 \<Rightarrow> 'e node \<Rightarrow> service_error + bytes \<Rightarrow> 'e node \<Rightarrow> bool" where
  "write_outcome E Y (Inl x) s r t \<longleftrightarrow> r = Inl (map_admin_apply_error x) \<and> t = s"
| "write_outcome E Y (Inr (ResAdmin _ _ _ _ (OutRejected code msg), _)) s r t \<longleftrightarrow> r = Inl (err code (D_Reject msg)) \<and> t = s"
| "write_outcome E Y (Inr (ResAdmin rid ep ri dup (OutApplied sv ver changed), i)) s r t \<longleftrightarrow>
     (let ack = change_ack (en_ext E) rid ep (if dup then ri else i) dup sv ver changed in
      if changed then publish_outcome_ok E Y ack ep s r t else r = Inr ack \<and> t = s)"
| "write_outcome E Y (Inr _) s r t \<longleftrightarrow> False"

lemma publish_now_events:
  assumes "ac_raft_required (nd_ctx s)" "publish_now E Y renew s = (r, t)"
  obtains evs where "nd_trace t = nd_trace s @ evs" "\<forall>ev \<in> set evs. publication ev"
proof -
  have "keeps (mode_frame True publication (\<lambda>_ _. True)) (publish_now E Y renew)"
    by (rule any_env.keeps_publish_now) simp_all
  from keepsD [OF this assms(2)] show ?thesis
    using that assms(1) by (auto simp: mode_frame_def new_events_def)
qed

lemma finish_published:
  assumes "ac_raft_required (nd_ctx s)" "finish_write E Y i (ResAdmin rid ep ri dup (OutApplied sv ver True)) s = (r, t)"
  shows "publish_outcome_ok E Y (change_ack (en_ext E) rid ep (if dup then ri else i) dup sv ver True) ep s r t"
proof -
  obtain res u where pub: "publish_now E Y False s = (res, u)"
    by fastforce
  have run: "(case res of
       Inr NotLeader \<Rightarrow> (Inl ((err ''committed_but_publish_failed'' Plain)\<lparr>er_publish := Some PN_NotLeader\<rparr>), u)
     | Inr _ \<Rightarrow> (Inr (change_ack (en_ext E) rid ep (if dup then ri else i) dup sv ver True), u)
     | Inl x \<Rightarrow> (Inl (publish_err ''committed_but_publish_failed'' x ep), u)) = (r, t)"
    using assms(2) pub by (cases dup; simp add: finish_write_def change_ack_def act_defs Let_def split: sum.splits publish_outcome.splits)
  have none: "clients_of s = [] \<and> u = s" if "res = Inr NoConnections"
    using pub that assms(1) publish_once_raft_connected [of "en_ext E" Y False s u]
    by (auto simp: publish_now_def publish_once_def clients_of_def seq_def gets_def ok_def ret_def split: if_splits)
  have some: "publish_once_raft (en_ext E) Y False s = (res, u)" if "res = Inr (Published n)" for n
    using pub that assms(1) by (auto simp: publish_now_def publish_once_def seq_def gets_def ok_def ret_def split: if_splits)
  show ?thesis
    unfolding publish_outcome_ok_def
    using pub run none some publish_round_spec [of "en_ext E" Y False s res u] by (intro exI [of _ res]) (cases res; fastforce split: publish_outcome.splits)
qed

lemma finish_write_outcome:
  assumes "ac_raft_required (nd_ctx s)" "finish_write E Y i (ResAdmin rid ep ri dup out) s = (r, t)"
  shows "write_outcome E Y (Inr (ResAdmin rid ep ri dup out, i)) s r t"
proof (cases "\<exists>sv ver. out = OutApplied sv ver True")
  case True
  then obtain sv ver where out: "out = OutApplied sv ver True"
    by blast
  show ?thesis
    using finish_published [OF assms(1) assms(2) [unfolded out]] by (simp only: out write_outcome.simps Let_def if_True)
next
  case False
  then show ?thesis
    using assms(2) by (cases out) (auto simp: finish_write_def change_ack_def act_defs Let_def)
qed

lemma write_outcome_events:
  assumes "ac_raft_required (nd_ctx s)" "write_outcome E Y w s r t"
  shows "\<exists>evs. nd_trace t = nd_trace s @ evs \<and> (\<forall>ev \<in> set evs. publication ev)"
proof (cases "t = s")
  case False
  then obtain res where "publish_now E Y False s = (res, t)"
    using assms(2) by (cases "(E, Y, w, s, r, t)" rule: write_outcome.cases) (auto simp: publish_outcome_ok_def Let_def split: if_splits)
  from publish_now_events [OF assms(1) this] show ?thesis
    by blast
qed simp

lemma admin_result: "\<exists>rid ep ri dup out. fst (apply_command_at X (admin_command q va c) i p) = ResAdmin rid ep ri dup out"
  by (auto simp: admin_command_def apply_admin_def Let_def split: option.split prod.split if_split)

lemma execute_root_write_outcome:
  assumes "write_law X Y" "ac_raft_required (nd_ctx s)" "policy_command_for q = Inr c" "is_mutating_op (rq_op q)"
    and "y_client_write Y (admin_command q va c) (snd (y_metrics Y (nd_env s))) = (w, e)"
    and "execute_root_write E Z Y q va s = (r, t)"
  shows "write_outcome E Y w (s\<lparr>nd_trace := nd_trace s @ [Ev_Propose (admin_command q va c)], nd_env := e\<rparr>) r t"
proof -
  have ops: "\<not> is_member_management_op (rq_op q)" "rq_op q \<noteq> ''publish_now''"
    using assms(4) member_op_unknown [of "rq_op q"] by (auto simp: is_mutating_op_def classify_admin_op_def)
  define s' where "s' = s\<lparr>nd_trace := nd_trace s @ [Ev_Propose (admin_command q va c)], nd_env := e\<rparr>"
  have run: "(r, t) = (case w of Inl x \<Rightarrow> (Inl (map_admin_apply_error x), s') | Inr (x, i) \<Rightarrow> finish_write E Y i x s')"
    using assms(3,5,6) ops
    by (cases w) (auto simp: execute_root_write_def leader_peer_def propose_def client_write_def ask_def record_event_def call_def act_defs s'_def
        split: prod.splits)
  have "write_outcome E Y w s' r t"
  proof (cases w)
    case (Inl x)
    with run show ?thesis
      by simp
  next
    case (Inr xi)
    then obtain x i where xi: "w = Inr (x, i)"
      by (cases xi) auto
    then obtain p where p: "x = fst (apply_command_at X (admin_command q va c) i p)"
      using assms(1,5) unfolding write_law_def by blast
    then obtain rid ep ri dup out where x: "x = ResAdmin rid ep ri dup out"
      using admin_result by blast
    have "finish_write E Y i (ResAdmin rid ep ri dup out) s' = (r, t)" "ac_raft_required (nd_ctx s')"
      using run xi x assms(2) by (simp_all add: s'_def)
    from finish_write_outcome [OF this(2,1)] show ?thesis
      by (simp only: xi x)
  qed
  then show ?thesis
    unfolding s'_def .
qed

lemma mutating_op:
  assumes "is_mutating_op op"
  shows "classify_admin_op op = WriteOp" "op \<noteq> FORWARDED_ADMIN_OP"
    "op \<notin> {RAFT_RPC_OP, RAFT_JOIN_OP, SEED_DELIVERY_OP, SEED_DROP_OP, OP_REQUEST, OP_REPLICATE, OP_SYNC_REQUEST}"
  using assms unfolding is_mutating_op_def insert_iff
  by (elim disjE emptyE; hypsubst; simp add: op_names classify_admin_op_def is_mutating_op_def)+

lemma mutating_command: "is_mutating_op (rq_op q) \<Longrightarrow> rq_service q \<noteq> [] \<Longrightarrow> \<exists>c. policy_command_for q = Inr c"
  by (auto simp: policy_command_for_def require_service_v2_def is_mutating_op_def Let_def)

text \<open>
  C11: A verified change is carried out. When a leader in Raft mode gets a change of a service whose signature it
  verifies for a root key, it proposes exactly the command of that request, once, and answers according to what became of the
  proposal: a failed write and a rejection by the state machine are reported as such and do nothing more, an applied
  change that changed nothing is acknowledged at once, and one that changed something is published first. Then the change is acknowledged exactly when
  the publication succeeded, which means that the index of a state of the policy and all its whitelists were accepted on every connection, or
  when there is no connection; a failed publication and one refused for a lost leadership are reported as that and not as a failure of the change.
  The acknowledgement has the fields of the result of the state machine. After the proposal there are no other calls than those of the publication.
\<close>

theorem root_write_executed:
  assumes "write_law (en_ext E) Y" "ac_raft_required (nd_ctx s)" "ac_admin_raft (nd_ctx s) = Some rt"
    and "z_value Z payload = Some v" "get_op v = Some (rq_op q)" "z_v2 Z v = Some q" "is_mutating_op (rq_op q)" "rq_service q \<noteq> []"
    and "y_now Y (nd_env s) = (now, e)" "admin_v2_verify (en_ext E) (ac_admin_keys (nd_ctx s)) q now = (Inr va, a)" "va_role va = Root"
    and "y_metrics Y e = (m, e')" "mt_state m = Leader"
    and "handle_service_request E Z Y client forwarder payload s = (r, t)"
  shows "\<exists>c w f s' evs. policy_command_for q = Inr c \<and>
    y_client_write Y (admin_command q va c) (snd (y_metrics Y e')) = (w, f) \<and>
    s' = s\<lparr>nd_ctx := (nd_ctx s)\<lparr>ac_admin_keys := a\<rparr>, nd_trace := nd_trace s @ [Ev_Propose (admin_command q va c)], nd_env := f\<rparr> \<and>
    write_outcome E Y w s' r t \<and> nd_trace t = nd_trace s' @ evs \<and> (\<forall>ev \<in> set evs. publication ev)"
proof -
  define u where "u = s\<lparr>nd_ctx := (nd_ctx s)\<lparr>ac_admin_keys := a\<rparr>, nd_env := e'\<rparr>"
  obtain c where c: "policy_command_for q = Inr c"
    using mutating_command assms(7,8) by blast
  obtain w f where w: "y_client_write Y (admin_command q va c) (snd (y_metrics Y e')) = (w, f)"
    by fastforce
  define s' where "s' = s\<lparr>nd_ctx := (nd_ctx s)\<lparr>ac_admin_keys := a\<rparr>, nd_trace := nd_trace s @ [Ev_Propose (admin_command q va c)], nd_env := f\<rparr>"
  have dispatch: "handle_service_request E Z Y client forwarder payload s = handle_admin_v2 E Z Y forwarder payload v s"
    using mutating_op(3) [OF assms(7)] assms(2,4,5) by (simp add: handle_service_request_def Let_def act_defs)
  have "handle_admin_v2 E Z Y forwarder payload v s = execute_root_write E Z Y q va u"
    using assms(3,5,6,9-13) mutating_op(1,2) [OF assms(7)]
    by (simp add: handle_admin_v2_def handle_root_write_def admin_raft_def is_leader_def on_keys_def call_def act_defs u_def)
  with dispatch assms(14) have run: "execute_root_write E Z Y q va u = (r, t)"
    by simp
  have "ac_raft_required (nd_ctx u)" "nd_env u = e'"
    using assms(2) by (simp_all add: u_def)
  from execute_root_write_outcome [OF assms(1) this(1) c assms(7) _ run, unfolded this(2), OF w] have out: "write_outcome E Y w s' r t"
    by (simp add: u_def s'_def)
  have "ac_raft_required (nd_ctx s')"
    using assms(2) by (simp add: s'_def)
  from write_outcome_events [OF this out] obtain evs where "nd_trace t = nd_trace s' @ evs" "\<forall>ev \<in> set evs. publication ev"
    by blast
  with c w out s'_def show ?thesis
    by blast
qed

section \<open>Examples\<close>

definition demo_change :: admin_request where
  "demo_change = demo_request\<lparr>rq_op := ''create_service'', rq_service := ''cmd'', rq_peers := []\<rparr>"

text \<open>A parser that finds one request in every payload.\<close>

definition demo_reads :: "admin_request \<Rightarrow> unit serde" where
  "demo_reads q = demo_serde\<lparr>z_value := (\<lambda>_. Some (SMap [(''op'', SStr (rq_op q))])), z_v2 := (\<lambda>_. Some q)\<rparr>"

lemma demo_reads_simps [simp]:
  "z_value (demo_reads q) b = Some (SMap [(''op'', SStr (rq_op q))])" "z_v2 (demo_reads q) v = Some q" "z_forwarded (demo_reads q) b = None"
  by (simp_all add: demo_reads_def demo_serde_def)

lemma demo_node_simps [simp]:
  "nd_ctx demo_node = demo_context" "ac_raft_required demo_context" "ac_admin_raft demo_context = Some demo_runtime"
  "ac_raft demo_context = Some demo_runtime" "ac_admin_keys demo_context = demo_verifier" "nd_env demo_node = demo_metrics"
  "rt_peer_id demo_runtime = ''p1''" "y_now demo_system e = (1000, e)" "y_metrics demo_system e = (e, e)" "mt_state demo_metrics = Leader"
  by (simp_all add: demo_node_def demo_context_def demo_runtime_def demo_system_def demo_metrics_def)

lemma demo_change_signed:
  obtains q va a where "sign_request demo_ext demo_sk demo_change = Inr q" "admin_v2_verify demo_ext demo_verifier q 1000 = (Inr va, a)"
    "va_role va = Root" "rq_op q = ''create_service''" "rq_service q = ''cmd''" "rq_peers q = []"
proof -
  obtain b where "signing_bytes demo_ext demo_change = Inr b"
    by (rule signing_bytes_total [OF demo_laws(5)])
  then obtain q where q: "sign_request demo_ext demo_sk demo_change = Inr q" "rq_op q = ''create_service''" "rq_service q = ''cmd''" "rq_peers q = []"
    by (auto simp: sign_request_def demo_change_def)
  have "well_formed_request demo_change"
    by (simp add: well_formed_request_def demo_change_def demo_request_def demo_nonblank)
  from signed_accepted [OF _ _ _ this q(1), of demo_verifier Root 1000] show ?thesis
    using that [OF q(1) _ _ q(2-4)] demo_known by (auto simp: demo_change_def)
qed

theorem raft_mode_authorised_witness:
  "\<exists>q r t. sign_request demo_ext demo_sk demo_change = Inr q \<and>
     handle_service_request (demo_env (store_snapshot demo_store)) (demo_reads q) demo_system True True ''request'' demo_node = (r, t) \<and>
     new_events (authorised demo_ext (demo_reads q) demo_context ''request'') demo_node t \<and> ac_store (nd_ctx t) = demo_store"
proof -
  obtain q where q: "sign_request demo_ext demo_sk demo_change = Inr q"
    by (rule demo_change_signed)
  obtain r t where h: "handle_service_request (demo_env (store_snapshot demo_store)) (demo_reads q) demo_system True True ''request'' demo_node = (r, t)"
    by fastforce
  have "ac_store demo_context = demo_store"
    by (simp add: demo_context_def)
  then show ?thesis
    using raft_mode_authorised [OF _ h] q h by auto
qed

text \<open>A cluster of one node, whose environment is the policy: a proposed command is applied at once.\<close>

definition demo_cluster :: "(policy_state, unit) env" where
  "demo_cluster = \<lparr>y_now = (\<lambda>e. (1000, e)), y_uptime = (\<lambda>e. (0, e)), y_random = (\<lambda>e. (replicate 32 (CHR ''r''), e)), y_io = (\<lambda>e. (io_fine, e)),
     y_remove_io = (\<lambda>e. (None, e)), y_polls = (\<lambda>e. (3, e)), y_metrics = (\<lambda>e. (demo_metrics, e)), y_policy = (\<lambda>e. (e, e)),
     y_applied = (\<lambda>e. (Some 1, e)), y_open_storage = (\<lambda>_ _ e. (Inr [], e)), y_config_ok = (\<lambda>_. None), y_raft_new = (\<lambda>_ _ e. (Inr (), e)),
     y_initialize = (\<lambda>_ e. (Inr (), e)), y_initialized = (\<lambda>e. (Inr True, e)),
     y_client_write = (\<lambda>c e. case apply_command_at demo_ext c 2 e of (r, e') \<Rightarrow> (Inr (r, 2), e')),
     y_add_learner = (\<lambda>_ _ _ e. (Inr (), e)), y_change_membership = (\<lambda>_ e. (Inr (), e)),
     y_rpc = (\<lambda>_ e. (Inr [], e)), y_add_key = (\<lambda>_ _ _ e. (Inr (), e)), y_send = (\<lambda>_ _ _ e. (Inr [], e)),
     y_whoami = (\<lambda>e. (Inr ''me'', e)), y_discover = (\<lambda>_ e. (Inr [], e))\<rparr>"

definition demo_member :: "policy_state node" where
  "demo_member = \<lparr>nd_ctx = demo_context, nd_verifier = rpc_verifier_new ''c'' 1, nd_fs = demo_fs, nd_trace = [], nd_env = policy_new ''net''\<rparr>"

lemma demo_cluster_law: "policy_law demo_ext demo_cluster (\<lambda>p. p) {}"
proof -
  have "moves demo_ext {c} p (snd (apply_command_at demo_ext c 2 p))" for c p
    unfolding moves_def by (intro exI [of _ "[(c, 2)]"]) simp
  then show ?thesis
    by (simp add: policy_law_def demo_cluster_def moves_refl case_prod_beta)
qed

theorem policy_history_authorised_witness:
  "\<exists>q t. sign_request demo_ext demo_sk demo_change = Inr q \<and>
     t = serve (demo_env (store_snapshot demo_store)) (demo_reads q) demo_cluster [(True, True, ''a''), (True, True, ''b'')] demo_member \<and>
     policy_inv demo_ext (nd_env t) \<and> (\<exists>log. nd_env t = policy_run demo_ext log (policy_new ''net'') \<and>
       (\<forall>(c, i) \<in> set log. authorised_in (demo_env (store_snapshot demo_store)) (demo_reads q) demo_cluster [(True, True, ''a''), (True, True, ''b'')]
          demo_member (Ev_Propose c)))"
proof -
  obtain q where q: "sign_request demo_ext demo_sk demo_change = Inr q"
    by (rule demo_change_signed)
  have m: "ac_raft_required (nd_ctx demo_member)" "nd_env demo_member = policy_new ''net''"
    by (simp_all add: demo_member_def)
  note h = policy_history_authorised [of "demo_env (store_snapshot demo_store)" demo_cluster "\<lambda>p. p" "{}" demo_member _ "demo_reads q"
      "[(True, True, ''a''), (True, True, ''b'')]", unfolded demo_env_ext m(2) empty_iff simp_thms, OF demo_cluster_law m(1) policy_inv_new refl]
  show ?thesis
    by (rule exI [of _ q], rule exI, rule conjI [OF q], rule conjI [OF refl], rule h)
qed

theorem member_management_refused_witness:
  "\<exists>x t. handle_service_request (demo_env (store_snapshot demo_store)) (demo_reads (demo_request\<lparr>rq_op := ''promote_voter''\<rparr>)) demo_system
     True True ''request'' demo_node = (Inl x, t) \<and> nd_trace t = []"
proof -
  have "nd_trace demo_node = []"
    by (simp add: demo_node_def)
  moreover have "is_member_management_op (rq_op q)"
    if "requested demo_ext (demo_reads (demo_request\<lparr>rq_op := ''promote_voter''\<rparr>)) ''request'' q" for q
    using that by (auto simp: requested_def is_member_management_op_def)
  ultimately show ?thesis
    using member_management_refused [of demo_node "demo_reads (demo_request\<lparr>rq_op := ''promote_voter''\<rparr>)" "''request''" _ "''promote_voter''"
        "demo_env (store_snapshot demo_store)" demo_system True True]
    by (simp add: get_op_def is_member_management_op_def)
qed

theorem foreign_audience_refused_witness:
  "\<exists>x t. handle_service_request (demo_env (store_snapshot demo_store)) (demo_serde\<lparr>z_value := (\<lambda>_. Some (SMap [(''op'', SStr RAFT_JOIN_OP)])),
       z_raft_join := (\<lambda>_. Some ((demo_join (demo_invite\<lparr>jt_audience := ''edge''\<rparr>))\<lparr>rj_edge_peer := ''edge''\<rparr>))\<rparr>) demo_system
     True True ''request'' demo_node = (Inl x, t) \<and> nd_trace t = []"
proof -
  have "nd_trace demo_node = []"
    by (simp add: demo_node_def)
  then show ?thesis
    using foreign_audience_refused [of "demo_serde\<lparr>z_value := (\<lambda>_. Some (SMap [(''op'', SStr RAFT_JOIN_OP)])),
       z_raft_join := (\<lambda>_. Some ((demo_join (demo_invite\<lparr>jt_audience := ''edge''\<rparr>))\<lparr>rj_edge_peer := ''edge''\<rparr>))\<rparr>" "''request''" _
       "(demo_join (demo_invite\<lparr>jt_audience := ''edge''\<rparr>))\<lparr>rj_edge_peer := ''edge''\<rparr>" demo_node demo_runtime
       "demo_env (store_snapshot demo_store)" demo_system True True]
    by (simp add: get_op_def demo_join_def)
qed

theorem root_write_executed_witness:
  "\<exists>q va ep r t s' evs. sign_request demo_ext demo_sk demo_change = Inr q \<and>
     handle_service_request (demo_env (store_snapshot demo_store)) (demo_reads q) demo_cluster True True ''request'' demo_member = (r, t) \<and>
     publish_outcome_ok (demo_env (store_snapshot demo_store)) demo_cluster
       (change_ack demo_ext (rq_request_id q) ep 2 False (Some ''cmd'') (Some 1) True) ep s' r t \<and>
     nd_trace t = Ev_Propose (admin_command q va (CreateService ''cmd'' [])) # evs"
proof -
  obtain q va a where q: "sign_request demo_ext demo_sk demo_change = Inr q" "admin_v2_verify demo_ext demo_verifier q 1000 = (Inr va, a)"
    "va_role va = Root" "rq_op q = ''create_service''" "rq_service q = ''cmd''" "rq_peers q = []"
    by (rule demo_change_signed)
  obtain r t where h: "handle_service_request (demo_env (store_snapshot demo_store)) (demo_reads q) demo_cluster True True ''request'' demo_member = (r, t)"
    by fastforce
  have law: "write_law (en_ext (demo_env (store_snapshot demo_store))) demo_cluster"
    unfolding write_law_def demo_cluster_def by (simp split: prod.splits) (metis fst_conv)
  have m: "nd_trace demo_member = []" "nd_ctx demo_member = demo_context" "nd_env demo_member = policy_new ''net''"
    "y_now demo_cluster e = (1000, e)" "y_metrics demo_cluster e = (demo_metrics, e)" for e
    by (simp_all add: demo_member_def demo_cluster_def)
  have c: "policy_command_for q = Inr (CreateService ''cmd'' [])"
    by (simp add: policy_command_for_def require_service_v2_def q(4-6) canonical_peers_def sorted_list_of_fset.rep_eq)
  obtain ep f where w: "y_client_write demo_cluster (admin_command q va (CreateService ''cmd'' [])) (policy_new ''net'') =
      (Inr (ResAdmin (rq_request_id q) ep 2 False (OutApplied (Some ''cmd'') (Some 1) True), 2), f)"
    by (simp add: demo_cluster_def admin_command_def apply_admin_def policy_new_def policy_create_service_def demo_name_ok
        bt_contains_def Let_def)
  define s' where "s' = demo_member\<lparr>nd_ctx := demo_context\<lparr>ac_admin_keys := a\<rparr>,
    nd_trace := [Ev_Propose (admin_command q va (CreateService ''cmd'' []))], nd_env := f\<rparr>"
  have "publish_outcome_ok (demo_env (store_snapshot demo_store)) demo_cluster
      (change_ack demo_ext (rq_request_id q) ep 2 False (Some ''cmd'') (Some 1) True) ep s' r t \<and>
    (\<exists>evs. nd_trace t = Ev_Propose (admin_command q va (CreateService ''cmd'' [])) # evs)"
    using root_write_executed [OF law _ _ _ _ _ _ _ _ _ q(3) _ _ h, of demo_runtime "SMap [(''op'', SStr (rq_op q))]" q 1000 "policy_new ''net''" a demo_metrics "policy_new ''net''"]
      q m c w by (auto simp: get_op_def is_mutating_op_def s'_def)
  with q(1) h show ?thesis
    by blast
qed

definition demo_removal :: replicate_msg where
  "demo_removal = broadcast_msg demo_ext (ac_replicate demo_context) ''cmd'' 3 [] 1 True ''n1'' 1000"

definition demo_old_node :: "metrics node" where
  "demo_old_node = demo_node\<lparr>nd_ctx := demo_context\<lparr>ac_raft_required := False\<rparr>\<rparr>"

definition demo_old_serde :: "unit serde" where
  "demo_old_serde = demo_serde\<lparr>z_value := (\<lambda>_. Some (SMap [(''op'', SStr OP_REPLICATE)])), z_replicate := (\<lambda>_. Some demo_removal)\<rparr>"

lemma demo_removal_fields: "rm_service demo_removal = ''cmd''" "rm_version demo_removal = 3" "rm_members demo_removal = []"
  "rm_index_version demo_removal = 1" "rm_deleted demo_removal"
  by (simp_all add: demo_removal_def broadcast_msg_def)

lemma demo_removal_merged: "\<exists>s'. merge_entry demo_ext ''cmd'' 3 [] 1 True demo_store = (Inr True, s') \<and> s' \<noteq> demo_store"
proof -
  have "bt_get (bt_insert ''cmd'' (3 :: u64) bt_empty) ''cmd'' \<noteq> bt_get bt_empty ''cmd''"
    by simp
  then have "bt_insert ''cmd'' (3 :: u64) bt_empty \<noteq> bt_empty"
    by metis
  then show ?thesis
    by (auto simp: merge_entry_def merge_service_def demo_store_def demo_name_ok)
qed

lemma demo_removal_applied:
  assumes "en_ext E = demo_ext"
  shows "fst (snd (apply_replicated E ''cmd'' 3 [] 1 True demo_store f)) \<noteq> demo_store"
  using demo_removal_merged assms by (auto simp: apply_replicated_def split: prod.split sum.split)

lemma demo_removal_accepted: "\<exists>a. verify_replicate demo_ext (ac_replicate demo_context) demo_removal 1000 = (Inr (), a)"
  unfolding demo_removal_def by (subst broadcast_msg_accepted) (simp_all add: demo_context_def guard_default_def abs_diff_def)

lemma replicate_op: "OP_REPLICATE \<noteq> RAFT_RPC_OP" "OP_REPLICATE \<noteq> RAFT_JOIN_OP" "OP_REPLICATE \<noteq> SEED_DELIVERY_OP"
  "OP_REPLICATE \<noteq> SEED_DROP_OP" "OP_REPLICATE \<noteq> OP_REQUEST"
  by (simp_all add: op_names)

lemma demo_old_parts: "ac_store demo_context = demo_store" "y_io demo_system e = (io_fine, e)"
  by (simp_all add: demo_context_def demo_system_def)

theorem old_mode_authenticated_witness: "authentic_change demo_ext demo_old_serde (nd_ctx demo_old_node) ''message''"
proof -
  let ?E = "demo_env (store_snapshot demo_store)"
  obtain a where a: "verify_replicate demo_ext (ac_replicate demo_context) demo_removal 1000 = (Inr (), a)"
    using demo_removal_accepted by blast
  obtain x s' f' where run: "apply_replicated (?E\<lparr>en_io := io_fine\<rparr>) ''cmd'' 3 [] 1 True demo_store (nd_fs demo_node) = (x, s', f')"
    by (metis prod_cases3)
  then have new: "s' \<noteq> demo_store"
    using demo_removal_applied [of "?E\<lparr>en_io := io_fine\<rparr>" "nd_fs demo_node"] by simp
  obtain r t where h: "handle_service_request ?E demo_old_serde demo_system True True ''message'' demo_old_node = (r, t)"
    by fastforce
  have "ac_store (nd_ctx t) = s'"
    using h a run
    by (cases x) (auto simp: handle_service_request_def handle_replicate_def demo_old_node_def demo_old_serde_def get_op_def Let_def act_defs
        call_def on_replicate_def store_op_def on_store_def upd_publisher_def upd_ctx_def replicate_op demo_old_parts demo_removal_fields split: if_splits)
  with new show ?thesis
    using old_mode_authenticated [OF _ h] by (simp add: demo_old_node_def demo_context_def)
qed

end
