(* ===== verification/Runtime.thy ===== *)
theory Runtime
  imports Service_Props
begin

text \<open>
  \<open>src/runtime.rs\<close>, the start of \<open>src/main.rs\<close> and the loop of \<open>src/publisher.rs\<close>: how a sidecar becomes ready, with the
  seed on its disk, a new one, one fetched from another sidecar, or in Raft mode none at all, how Raft is started on the
  first connection, and what wakes the publisher. Timers and tasks are arguments: the number of tries before the deadline, the
  list of wake-ups. Log lines are not modelled.
\<close>

section \<open>The context of a sidecar\<close>

text \<open>Ways the process ends instead of starting; \<open>Stop_Panic\<close> is an \<open>expect\<close> that fails.\<close>

datatype stop =
    Stop_Password
  | Stop_Renew
  | Stop_AdminKeys admin_v2_error
  | Stop_Authority authority_error
  | Stop_Write io_error
  | Stop_Store store_error
  | Stop_Panic

datatype background = Publish_Loop | Sync_Loop

definition cluster_enabled :: "service_config \<Rightarrow> bool" where
  "cluster_enabled cfg = cc_enabled (sc_cluster cfg)"

text \<open>\<open>uuid\<close> is the random text that replaces an empty password in Raft mode.\<close>

definition effective_password :: "string \<Rightarrow> service_config \<Rightarrow> string" where
  "effective_password uuid cfg =
     (if sc_management_password cfg = [] \<and> cluster_enabled cfg then ''cluster-only-'' @ uuid else sc_management_password cfg)"

definition build_context ::
  "ext \<Rightarrow> string \<Rightarrow> service_config \<Rightarrow> authority option \<Rightarrow> store \<Rightarrow> publisher \<Rightarrow> stop + auth_context \<times> background list" where
  "build_context X uuid cfg authority st pub =
     (if cluster_enabled cfg \<and> sc_renew_secs cfg \<ge> sc_expires_secs cfg then Inl Stop_Renew
      else
        let password = effective_password uuid cfg in
        case from_config X (sc_admin_keys cfg) (cluster_enabled cfg) of
          Inl e \<Rightarrow> Inl (Stop_AdminKeys e)
        | Inr admin_keys \<Rightarrow>
            (case (admin_auth_new X password (sc_network cfg), rep_auth_new X password (sc_network cfg)) of
               (Inr admin, Inr rep) \<Rightarrow>
                 Inr (\<lparr>ac_authority = authority, ac_authority_key_path = path_of (sc_authority_key_path cfg), ac_store = st,
                   ac_admin = admin, ac_admin_keys = admin_keys, ac_join = join_server_new password (sc_allow_join cfg),
                   ac_replicate = rep, ac_publisher = pub, ac_raft = None, ac_admin_raft = None,
                   ac_raft_required = cluster_enabled cfg, ac_network = sc_network cfg, ac_service_name = sc_service cfg,
                   ac_expires_secs = sc_expires_secs cfg, ac_renew_secs = sc_renew_secs cfg\<rparr>,
                   Publish_Loop # (if cluster_enabled cfg then [] else [Sync_Loop]))
             | _ \<Rightarrow> Inl Stop_Panic))"

section \<open>Ready at the start\<close>

definition open_store :: "store_env \<Rightarrow> service_config \<Rightarrow> fs \<Rightarrow> (stop + store) \<times> fs" where
  "open_store E cfg f =
     (case load_or_create E (path_of (sc_state_path cfg)) (sc_network cfg) (initial_members cfg) f of
        (Inl e, f') \<Rightarrow> (Inl (Stop_Store e), f')
      | (Inr st, f') \<Rightarrow> (Inr st, f'))"

text \<open>The context made of an authority and the store on disk.\<close>

definition start_with ::
  "store_env \<Rightarrow> string \<Rightarrow> service_config \<Rightarrow> publisher \<Rightarrow> authority option \<Rightarrow> fs \<Rightarrow> (stop + (auth_context \<times> background list) option) \<times> fs" where
  "start_with E uuid cfg pub authority f =
     (case open_store E cfg f of
        (Inl e, f') \<Rightarrow> (Inl e, f')
      | (Inr st, f') \<Rightarrow> (case build_context (en_ext E) uuid cfg authority st pub of Inl x \<Rightarrow> Inl x | Inr x \<Rightarrow> Inr (Some x), f'))"

text \<open>\<open>e\<close> and \<open>e'\<close> are the outcomes of reading and of writing the seed file, \<open>fresh\<close> the random bytes of a new seed.\<close>

definition build_initial ::
  "store_env \<Rightarrow> io \<Rightarrow> io \<Rightarrow> bytes \<Rightarrow> string \<Rightarrow> service_config \<Rightarrow> publisher \<Rightarrow> fs \<Rightarrow>
   (stop + (auth_context \<times> background list) option) \<times> fs" where
  "build_initial E e e' fresh uuid cfg pub f =
     (let p = path_of (sc_authority_key_path cfg) in
      if path_exists f p then
        (case auth_load (en_ext E) e p (sc_network cfg) f of
           Inl x \<Rightarrow> (Inl (Stop_Authority x), f)
         | Inr a \<Rightarrow> start_with E uuid cfg pub (Some a) f)
      else if sc_join_mode cfg = ''init'' then
        (case from_seed (en_ext E) fresh (sc_network cfg) of
           Inl x \<Rightarrow> (Inl (Stop_Authority x), f)
         | Inr a \<Rightarrow>
             (case atomic_write e' p (au_key a) (Some 0x180) f of
                (Inl x, f') \<Rightarrow> (Inl (Stop_Write x), f')
              | (Inr _, f') \<Rightarrow> start_with E uuid cfg pub (Some a) f'))
      else if cluster_enabled cfg then start_with E uuid cfg pub None f
      else (Inr None, f))"

definition main_initial ::
  "store_env \<Rightarrow> io \<Rightarrow> io \<Rightarrow> bytes \<Rightarrow> string \<Rightarrow> service_config \<Rightarrow> publisher \<Rightarrow> fs \<Rightarrow>
   (stop + (auth_context \<times> background list) option) \<times> fs" where
  "main_initial E e e' fresh uuid cfg pub f =
     (if sc_network cfg = [] then (Inr None, f)
      else if sc_management_password cfg = [] \<and> \<not> cluster_enabled cfg then (Inl Stop_Password, f)
      else build_initial E e e' fresh uuid cfg pub f)"

section \<open>Ready on a connection\<close>

definition join_config_of :: "service_config \<Rightarrow> join_config" where
  "join_config_of cfg = \<lparr>jc_network = sc_network cfg, jc_password = sc_management_password cfg, jc_service = sc_service cfg,
     jc_key_path = path_of (sc_authority_key_path cfg), jc_state_path = path_of (sc_state_path cfg)\<rparr>"

text \<open>\<open>try i\<close> is the join attempt number \<open>i\<close>; \<open>n\<close> attempts begin after the first before the deadline.\<close>

fun join_loop ::
  "(nat \<Rightarrow> fs \<Rightarrow> (join_error + authority \<times> store) \<times> fs) \<Rightarrow> nat \<Rightarrow> nat \<Rightarrow> fs \<Rightarrow> (authority \<times> store) option \<times> fs" where
  "join_loop tries i n f =
     (case tries i f of
        (Inr x, f') \<Rightarrow> (Some x, f')
      | (Inl _, f') \<Rightarrow> (case n of 0 \<Rightarrow> (None, f') | Suc k \<Rightarrow> join_loop tries (Suc i) k f'))"

record runtime =
  rn_config :: service_config
  rn_publisher :: publisher
  rn_ready :: "auth_context option"

definition activate ::
  "ext \<Rightarrow> string \<Rightarrow> authority option \<Rightarrow> store \<Rightarrow> runtime \<Rightarrow> (stop + auth_context option) \<times> runtime" where
  "activate X uuid authority st r =
     (case build_context X uuid (rn_config r) authority st (rn_publisher r) of
        Inl x \<Rightarrow> (Inl x, r)
      | Inr (c, _) \<Rightarrow> (Inr (Some c), r\<lparr>rn_ready := Some c\<rparr>))"

definition ensure_ready ::
  "store_env \<Rightarrow> io \<Rightarrow> string \<Rightarrow> (join_config \<Rightarrow> nat \<Rightarrow> fs \<Rightarrow> (join_error + authority \<times> store) \<times> fs) \<Rightarrow> nat \<Rightarrow> runtime \<Rightarrow> fs \<Rightarrow>
   (stop + auth_context option) \<times> runtime \<times> fs" where
  "ensure_ready E e uuid tries n r f =
     (let cfg = rn_config r in
      case rn_ready r of
        Some c \<Rightarrow> (Inr (Some c), r, f)
      | None \<Rightarrow>
          if cluster_enabled cfg then
            (case (case auth_load (en_ext E) e (path_of (sc_authority_key_path cfg)) (sc_network cfg) f of
                     Inr a \<Rightarrow> Inr (Some a)
                   | Inl (Auth_Io Io_NotFound) \<Rightarrow> Inr None
                   | Inl x \<Rightarrow> Inl x) of
               Inl _ \<Rightarrow> (Inr None, r, f)
             | Inr authority \<Rightarrow>
                 (case open_store E cfg f of
                    (Inl _, f') \<Rightarrow> (Inr None, r, f')
                  | (Inr st, f') \<Rightarrow> (case activate (en_ext E) uuid authority st r of (x, r') \<Rightarrow> (x, r', f'))))
          else
            (case join_loop (tries (join_config_of cfg)) 0 n f of
               (None, f') \<Rightarrow> (Inr None, r, f')
             | (Some (a, st), f') \<Rightarrow> (case activate (en_ext E) uuid (Some a) st r of (x, r') \<Rightarrow> (x, r', f'))))"

section \<open>Raft and the publisher\<close>

abbreviation set_raft :: "raft_runtime \<Rightarrow> auth_context \<Rightarrow> auth_context" where
  "set_raft rt c \<equiv> c\<lparr>ac_admin_raft := Some rt, ac_raft := Some rt\<rparr>"

text \<open>On a ready sidecar; a failed start or join is only logged, and the next connection tries again.\<close>

definition ensure_raft :: "ext \<Rightarrow> 'b serde \<Rightarrow> ('e, 'b) env \<Rightarrow> service_config \<Rightarrow> ('e node, unit) act" where
  "ensure_raft X Z Y cfg =
     (if \<not> cluster_enabled cfg then ret () else
      seq (gets nd_ctx) (\<lambda>c.
      if ac_raft c \<noteq> None then ret () else
      seq (raft_start X Z Y cfg) (\<lambda>r.
      case r of
        Inl _ \<Rightarrow> ret ()
      | Inr rt \<Rightarrow> seq (try_join X Z Y rt cfg) (\<lambda>_. upd_ctx (set_raft rt)))))"

text \<open>A change of the metrics: the result is whether this node now leads.\<close>

definition metrics_changed :: "ext \<Rightarrow> ('e, 'b) env \<Rightarrow> bool \<Rightarrow> ('e node, bool) act" where
  "metrics_changed X Y was_leader =
     seq (refresh_verifier_from_metrics X Y) (\<lambda>_.
     seq (is_leader Y) (\<lambda>l.
     seq (if l \<and> \<not> was_leader then upd_publisher notify_renew else ret ()) (\<lambda>_. ret l)))"

datatype wake = W_Publish | W_Renew | W_Tick | W_Shutdown

text \<open>A wake-up takes the stored permit.\<close>

fun publisher_run :: "store_env \<Rightarrow> ('e, 'b) env \<Rightarrow> wake list \<Rightarrow> ('e node, unit) act" where
  "publisher_run E Y [] = ret ()"
| "publisher_run E Y (W_Publish # ws) =
     seq (upd_publisher (\<lambda>p. p\<lparr>pu_publish_notify := False\<rparr>)) (\<lambda>_. seq (run_publish_round E Y False) (\<lambda>_. publisher_run E Y ws))"
| "publisher_run E Y (W_Renew # ws) =
     seq (upd_publisher (\<lambda>p. p\<lparr>pu_renew_notify := False\<rparr>)) (\<lambda>_. seq (run_publish_round E Y True) (\<lambda>_. publisher_run E Y ws))"
| "publisher_run E Y (W_Tick # ws) = seq (run_publish_round E Y True) (\<lambda>_. publisher_run E Y ws)"
| "publisher_run E Y (W_Shutdown # ws) = ret ()"

section \<open>A node without Raft\<close>

text \<open>In Raft mode, before Raft is started, a handler fails and nothing leaves the process.\<close>

definition unready :: "auth_context \<Rightarrow> bool" where
  "unready c \<longleftrightarrow> ac_raft_required c \<and> ac_raft c = None \<and> ac_admin_raft c = None"

definition idle :: "'e node \<Rightarrow> 'e node \<Rightarrow> bool" where
  "idle s t \<longleftrightarrow> (unready (nd_ctx s) \<longrightarrow> unready (nd_ctx t) \<and> nd_trace t = nd_trace s \<and> ac_store (nd_ctx t) = ac_store (nd_ctx s))"

interpretation idle_frame: frame idle
  by unfold_locales (auto simp: idle_def)

definition closed :: "('e node, 'x + 'a) act \<Rightarrow> bool" where
  "closed m \<longleftrightarrow> (\<forall>s. unready (nd_ctx s) \<longrightarrow> (\<exists>x. fst (m s) = Inl x) \<and> idle s (snd (m s)))"

lemma closedD:
  assumes "closed m" "unready (nd_ctx s)"
  shows "\<exists>x t. m s = (Inl x, t) \<and> nd_trace t = nd_trace s \<and> ac_store (nd_ctx t) = ac_store (nd_ctx s)"
proof -
  obtain r t where m: "m s = (r, t)"
    by fastforce
  show ?thesis
    using assms(1) [unfolded closed_def, THEN spec [of _ s]] assms(2) m by (auto simp: idle_def)
qed

lemma closed_seq:
  assumes "keeps idle m" "\<And>a. closed (k a)"
  shows "closed (seq m k)"
  unfolding closed_def
proof (intro allI impI)
  fix s :: "'a node" assume u: "unready (nd_ctx s)"
  obtain a t where m: "m s = (a, t)"
    by fastforce
  have t: "idle s t" "unready (nd_ctx t)"
    using keepsD [OF assms(1) m] u by (auto simp: idle_def)
  then have "(\<exists>x. fst (k a t) = Inl x) \<and> idle t (snd (k a t))"
    using assms(2) by (simp add: closed_def)
  with t show "(\<exists>x. fst (seq m k s) = Inl x) \<and> idle s (snd (seq m k s))"
    by (auto simp: seq_def m intro: idle_frame.frame_trans)
qed

lemma closed_fail: "closed (fail x)"
  by (simp add: closed_def fail_def ret_def idle_frame.frame_refl)

lemma closed_seqE: "keeps idle m \<Longrightarrow> (\<And>a. closed (k a)) \<Longrightarrow> closed (seqE m k)"
  unfolding seqE_def by (rule closed_seq) (auto split: sum.split simp: closed_def ret_def idle_frame.frame_refl)

lemma closed_if: "(b \<Longrightarrow> closed m) \<Longrightarrow> (\<not> b \<Longrightarrow> closed m') \<Longrightarrow> closed (if b then m else m')"
  by simp

lemma closed_ctx: "(\<And>c. unready c \<Longrightarrow> closed (k c)) \<Longrightarrow> closed (seq (gets nd_ctx) k)"
  by (auto simp: closed_def seq_def gets_def)

lemma closed_raft: "closed (seqE admin_raft k)" "closed (seqE raft_runtime_of k)"
  by (simp_all add: closed_def admin_raft_def raft_runtime_of_def act_defs unready_def idle_frame.frame_refl)

lemma idle_keeps: "keeps idle (call f)" "keeps idle (of_opt x v)" "keeps idle (map_err h (on_keys g))"
  by (auto simp: keeps_def call_def of_opt_def act_defs on_keys_def idle_def unready_def split: prod.split option.split sum.split)

lemma closed_admin: "closed (handle_admin_v2 E Z Y forwarder payload v)"
proof -
  have forwarded: "closed (handle_forwarded_admin E Z Y payload)"
    unfolding handle_forwarded_admin_def Let_def by (intro closed_seqE idle_keeps closed_if closed_fail closed_raft)
  have direct: "closed (case classify_admin_op (rq_op q) of
         ReadOp \<Rightarrow> handle_admin_read (en_ext E) Z Y q
       | WriteOp \<Rightarrow> if va_role va \<noteq> Root then fail (err ''forbidden_role'' Plain) else handle_root_write E Z Y forwarder payload q va
       | UnknownOp \<Rightarrow> fail (err ''unknown_op'' (D_Text (rq_op q))))" for q va
    by (cases "classify_admin_op (rq_op q)") (simp_all add: handle_admin_read_def handle_root_write_def closed_raft closed_fail)
  show ?thesis
    unfolding handle_admin_v2_def by (intro closed_if forwarded closed_seqE closed_seq idle_keeps direct)
qed

lemma closed_service_request: "closed (handle_service_request E Z Y client forwarder payload)"
proof -
  have handlers: "closed (handle_raft_join (en_ext E) Z Y client v)" "closed (handle_seed_delivery (en_ext E) Z Y v)"
    "closed (handle_seed_drop (en_ext E) Z Y v)" for v
    by (simp_all add: handle_raft_join_def handle_seed_delivery_def handle_seed_drop_def closed_raft)
  have rpc: "closed (seqE (of_opt (err ''raft_disabled'' Plain) (ac_raft c)) k)" if "unready c" for c k
    using that by (simp add: unready_def of_opt_def seqE_def seq_def fail_def ret_def closed_def idle_frame.frame_refl)
  have required: "ac_raft_required c" if "unready c" for c
    using that by (simp add: unready_def)
  show ?thesis
    unfolding handle_service_request_def Let_def
    by (intro closed_seqE [OF idle_keeps(2)] closed_ctx) (auto simp: rpc handlers required closed_fail closed_admin)
qed

lemma build_context_facts:
  assumes "build_context X uuid cfg authority st pub = Inr (c, tasks)"
  shows "ac_raft_required c = cluster_enabled cfg" "ac_authority c = authority" "ac_store c = st" "cluster_enabled cfg \<Longrightarrow> unready c"
    "cluster_enabled cfg \<Longrightarrow> sc_renew_secs cfg < sc_expires_secs cfg"
    "cluster_enabled cfg \<Longrightarrow> from_config X (sc_admin_keys cfg) True = Inr (ac_admin_keys c)"
    "\<not> cluster_enabled cfg \<Longrightarrow> sc_management_password cfg \<noteq> [] \<and>
       admin_auth_new X (sc_management_password cfg) (sc_network cfg) = Inr (ac_admin c)"
    "Sync_Loop \<in> set tasks \<longleftrightarrow> \<not> cluster_enabled cfg"
  using assms
  by (auto simp: build_context_def effective_password_def unready_def admin_auth_new_def Let_def split: if_splits sum.splits)

lemma start_with_context:
  "start_with E uuid cfg pub authority f = (Inr (Some (c, tasks)), f') \<Longrightarrow> \<exists>st. build_context (en_ext E) uuid cfg authority st pub = Inr (c, tasks)"
  by (auto simp: start_with_def split: prod.splits sum.splits)

lemma main_initial_context:
  assumes "main_initial E e e' fresh uuid cfg pub f = (Inr (Some (c, tasks)), f')"
  shows "\<exists>authority st. build_context (en_ext E) uuid cfg authority st pub = Inr (c, tasks) \<and> (authority = None \<longrightarrow> cluster_enabled cfg)"
  using assms
  by (auto simp: main_initial_def build_initial_def Let_def split: if_splits sum.splits prod.splits dest!: start_with_context; blast)

lemma ensure_ready_context:
  assumes "ensure_ready E e uuid tries n r f = (Inr (Some c), r', f')" "rn_ready r = None"
  shows "\<exists>authority st tasks. build_context (en_ext E) uuid (rn_config r) authority st (rn_publisher r) = Inr (c, tasks) \<and>
    (authority = None \<longrightarrow> cluster_enabled (rn_config r))"
proof -
  have "\<exists>tasks. build_context (en_ext E) uuid (rn_config r) authority st (rn_publisher r) = Inr (c, tasks)"
    if "activate (en_ext E) uuid authority st r = (Inr (Some c), r'')" for authority st r''
    using that by (auto simp: activate_def split: sum.splits prod.splits)
  with assms show ?thesis
    by (auto simp: ensure_ready_def Let_def split: if_splits sum.splits option.splits prod.splits; blast)
qed

text \<open>
  C12: A sidecar starts closed. However it becomes ready - with a seed on disk, a new one, a fetched one or none - the mode is the
  configured one. In Raft mode it starts only when the renewal interval is below the lifetime of the index and a root key is
  configured, and until Raft runs it refuses every request, whoever signed it, without any effect. In the old mode it
  starts only with a management password and an authority.
\<close>

theorem startup_fail_closed:
  assumes "main_initial E e e' fresh uuid cfg pub f = (Inr (Some (c, tasks)), f') \<or>
      rn_config r = cfg \<and> rn_ready r = None \<and> ensure_ready E e uuid tries n r f = (Inr (Some c), r', f')"
    and "nd_ctx s = c"
  shows "ac_raft_required c = cluster_enabled cfg \<and>
    (if cluster_enabled cfg
     then sc_renew_secs cfg < sc_expires_secs cfg \<and> (\<exists>kid pk. bt_get (av_keys (ac_admin_keys c)) kid = Some (pk, Root)) \<and>
       (\<exists>x t. handle_service_request E Z Y client forwarder payload s = (Inl x, t) \<and> nd_trace t = nd_trace s)
     else sc_management_password cfg \<noteq> [] \<and> ac_authority c \<noteq> None)"
proof -
  obtain authority st p tk where c: "build_context (en_ext E) uuid cfg authority st p = Inr (c, tk)" "authority = None \<longrightarrow> cluster_enabled cfg"
    using assms(1) main_initial_context [of E e e' fresh uuid cfg pub f c tasks f'] ensure_ready_context [of E e uuid tries n r f c r' f'] by auto
  note facts = build_context_facts [OF c(1)]
  show ?thesis
  proof (cases "cluster_enabled cfg")
    case True
    have "\<exists>x t. handle_service_request E Z Y client forwarder payload s = (Inl x, t) \<and> nd_trace t = nd_trace s"
      using closedD [OF closed_service_request, of s E Z Y client forwarder payload] facts(4) [OF True] assms(2) by blast
    with True show ?thesis
      using facts(1,5) admin_keys_fail_closed [OF facts(6)] by simp
  next
    case False
    with facts(1,2,7) c(2) show ?thesis
      by auto
  qed
qed

definition demo_config :: service_config where
  "demo_config = (service_config_default Map.empty)\<lparr>sc_network := ''net'', sc_state_path := ''data/state.toml'', sc_authority_key_path := ''data/key'',
     sc_cluster := (cluster_config_default Map.empty)\<lparr>cc_enabled := True\<rparr>, sc_admin_keys := demo_keys\<rparr>"

lemma demo_config_simps [simp]: "sc_network demo_config = ''net''" "cluster_enabled demo_config" "sc_join_mode demo_config = ''require''"
  "sc_renew_secs demo_config = 1200" "sc_expires_secs demo_config = 3600" "sc_admin_keys demo_config = demo_keys"
  "initial_members demo_config = bt_empty"
  by (simp_all add: demo_config_def cluster_enabled_def service_config_default_def cluster_config_default_def initial_members_def)

lemma demo_state_path: "path_of (sc_state_path demo_config) = ([''data''], ''state.toml'')"
  by (simp add: demo_config_def path_of_def components_def Let_def)

lemma demo_context_built: "\<exists>c. build_context demo_ext ''u'' demo_config None st pub = Inr (c, [Publish_Loop])"
proof -
  have "\<exists>b. x_hkdf demo_ext salt k i = Some b" for salt k i
    using demo_laws(9) unfolding hkdf_law_def by blast
  then obtain b b' where "x_hkdf demo_ext MGMT_SALT (effective_password ''u'' demo_config) ''net'' = Some b"
    "x_hkdf demo_ext REP_SALT (effective_password ''u'' demo_config) ''net'' = Some b'"
    by blast
  moreover have "effective_password ''u'' demo_config \<noteq> []"
    by (simp add: effective_password_def)
  ultimately show ?thesis
    by (simp add: build_context_def demo_from_config admin_auth_new_def rep_auth_new_def Let_def)
qed

theorem startup_fail_closed_witness:
  "\<exists>c f'. main_initial (demo_env (store_snapshot demo_store)) io_fine io_fine demo_sk ''u'' demo_config publisher_new demo_fs = (Inr (Some (c, [Publish_Loop])), f') \<and>
     (\<exists>x t. handle_service_request (demo_env (store_snapshot demo_store)) demo_serde demo_system True True ''request''
        (demo_node\<lparr>nd_ctx := c\<rparr>) = (Inl x, t) \<and> nd_trace t = [])"
proof -
  let ?E = "demo_env (store_snapshot demo_store)"
  have "read_to_string (en_io ?E) ([''data''], ''state.toml'') demo_fs = Inl Io_NotFound"
    by (simp add: read_to_string_def fs_read_def demo_fs_def demo_env_def io_fine_def)
  then obtain st f' where st: "open_store ?E demo_config demo_fs = (Inr st, f')"
    using demo_save [of "\<lparr>st_path = ([''data''], ''state.toml''), st_network = ''net'', st_index_version = 1,
        st_services = bt_empty, st_tombstones = bt_empty\<rparr>" "store_snapshot demo_store" demo_fs]
    by (auto simp: open_store_def load_or_create_def demo_state_path Let_def)
  obtain c where c: "build_context demo_ext ''u'' demo_config None st publisher_new = Inr (c, [Publish_Loop])"
    using demo_context_built by blast
  have "\<not> path_exists demo_fs p" for p
    by (simp add: path_exists_def demo_fs_def)
  then have run: "main_initial ?E io_fine io_fine demo_sk ''u'' demo_config publisher_new demo_fs = (Inr (Some (c, [Publish_Loop])), f')"
    using st c by (simp add: main_initial_def build_initial_def start_with_def Let_def)
  have "nd_trace (demo_node\<lparr>nd_ctx := c\<rparr>) = []"
    by (simp add: demo_node_def)
  with run show ?thesis
    using startup_fail_closed [OF disjI1 [OF run], of "demo_node\<lparr>nd_ctx := c\<rparr>" demo_serde demo_system True True "''request''"] by auto
qed

section \<open>Only the leader publishes\<close>

text \<open>However the loop of the publisher is woken, a node in Raft mode that does not lead sends nothing and proposes nothing.\<close>

lemma follower_round:
  assumes "\<And>e. mt_state (fst (y_metrics Y e)) \<noteq> Leader"
  shows "keeps (mode_frame True (\<lambda>_. False) (\<lambda>_ _. True)) (publish_once E Y renew)"
proof -
  have follower: "keeps (mode_frame True (\<lambda>_. False) (\<lambda>_ _. True)) (seq (is_leader Y) k)"
    if "keeps (mode_frame True (\<lambda>_. False) (\<lambda>_ _. True)) (k False)" for k :: "bool \<Rightarrow> ('a node, publish_error + publish_outcome) act"
  proof -
    have "fst (is_leader Y s) = False" for s
      using assms [of "nd_env s"] by (auto simp: is_leader_def seq_def call_def ret_def split: prod.splits)
    then have "seq (is_leader Y) k = seq (is_leader Y) (\<lambda>_. k False)"
      by (auto simp: seq_def fun_eq_iff split: prod.split) (metis fst_conv)
    then show ?thesis
      using that by (simp add: any_env.fr.keeps_seq any_env.mode_queries)
  qed
  have "keeps (mode_frame True (\<lambda>_. False) (\<lambda>_ _. True)) (publish_once_raft (en_ext E) Y renew)"
    unfolding publish_once_raft_def
    by (intro any_env.fr.keeps_seq [OF any_env.fr.keeps_pure(4)] any_env.fr.keeps_if any_env.fr.keeps_pure follower) (simp add: any_env.fr.keeps_pure)
  then show ?thesis
    unfolding publish_once_def by (intro any_env.keeps_ctx any_env.fr.keeps_if any_env.fr.keeps_pure) simp_all
qed

lemma follower_attempts:
  assumes "\<And>e. mt_state (fst (y_metrics Y e)) \<noteq> Leader"
  shows "keeps (mode_frame True (\<lambda>_. False) (\<lambda>_ _. True)) (publish_attempts E Y renew n x)"
  by (induction n arbitrary: x) (simp_all, (intro any_env.fr.keeps_rules follower_round assms; assumption?)+)

lemma follower_publishes_nothing:
  assumes "ac_raft_required (nd_ctx s)" "\<And>e. mt_state (fst (y_metrics Y e)) \<noteq> Leader"
  shows "nd_trace (snd (publisher_run E Y ws s)) = nd_trace s"
proof -
  have round: "keeps (mode_frame True (\<lambda>_. False) (\<lambda>_ _. True)) (run_publish_round E Y renew)" for renew
    unfolding run_publish_round_def publish_with_retry_def by (intro any_env.fr.keeps_seq follower_attempts any_env.fr.keeps_pure assms(2))
  have "keeps (mode_frame True (\<lambda>_. False) (\<lambda>_ _. True)) (publisher_run E Y ws)"
  proof (induction ws)
    case (Cons w ws)
    then show ?case
      by (cases w) (simp_all add: any_env.fr.keeps_seq any_env.fr.keeps_pure any_env.keeps_states round)
  qed (simp add: any_env.fr.keeps_pure)
  then show ?thesis
    using assms(1) by (auto simp: keeps_def mode_frame_def new_events_def dest!: spec [of _ s])
qed

end
