(* ===== verification/Network.thy ===== *)
theory Network
  imports Cluster
begin

text \<open>
  The calls of \<open>src/raft/network.rs\<close> that openraft makes, over the signed transport of \<open>Cluster\<close>. openraft's request and answer
  types are type parameters; \<open>dec\<close> decodes an answer. An answer that does not decode and a failed transport are both
  network errors for openraft.
\<close>

section \<open>The client of a target\<close>

record network_connection =
  nc_runtime :: raft_runtime
  nc_target :: node_id
  nc_target_node :: raft_node

definition new_client :: "raft_runtime \<Rightarrow> node_id \<Rightarrow> raft_node \<Rightarrow> network_connection" where
  "new_client rt target node = \<lparr>nc_runtime = rt, nc_target = target, nc_target_node = node\<rparr>"

datatype rpc_error = Rpc_Transport run_error | Rpc_Decode string

text \<open>The common part of the three calls.\<close>

definition rpc_call ::
  "ext \<Rightarrow> 'b serde \<Rightarrow> ('e, 'b) env \<Rightarrow> (bytes \<Rightarrow> 'r option) \<Rightarrow> string \<Rightarrow> network_connection \<Rightarrow> 'b rpc_body \<Rightarrow> ('e node, rpc_error + 'r) act" where
  "rpc_call X Z Y dec what c body =
     seqE (map_err Rpc_Transport (network_send X Z Y (nc_runtime c) (nc_target c) (nc_target_node c) body)) (\<lambda>b.
     of_opt (Rpc_Decode what) (dec b))"

definition append_entries ::
  "ext \<Rightarrow> 'b serde \<Rightarrow> ('e, 'b) env \<Rightarrow> (bytes \<Rightarrow> 'r option) \<Rightarrow> network_connection \<Rightarrow> 'b \<Rightarrow> ('e node, rpc_error + 'r) act" where
  "append_entries X Z Y dec c rpc = rpc_call X Z Y dec ''append_entries'' c (AppendEntries rpc)"

definition install_snapshot_rpc ::
  "ext \<Rightarrow> 'b serde \<Rightarrow> ('e, 'b) env \<Rightarrow> (bytes \<Rightarrow> 'r option) \<Rightarrow> network_connection \<Rightarrow> 'b \<Rightarrow> ('e node, rpc_error + 'r) act" where
  "install_snapshot_rpc X Z Y dec c rpc = rpc_call X Z Y dec ''install_snapshot'' c (InstallSnapshot rpc)"

definition vote ::
  "ext \<Rightarrow> 'b serde \<Rightarrow> ('e, 'b) env \<Rightarrow> (bytes \<Rightarrow> 'r option) \<Rightarrow> network_connection \<Rightarrow> 'b \<Rightarrow> ('e node, rpc_error + 'r) act" where
  "vote X Z Y dec c rpc = rpc_call X Z Y dec ''vote'' c (Vote rpc)"

section \<open>A call and its handler\<close>

text \<open>What serde derives reads back what it writes.\<close>

definition rpc_serde_law :: "ext \<Rightarrow> 'b serde \<Rightarrow> bool" where
  "rpc_serde_law X Z \<longleftrightarrow> (\<forall>e b. x_json X (envelope_sval e) = Some b \<longrightarrow> z_envelope Z b = Some e) \<and>
     (\<forall>r b. x_json X (reply_sval r) = Some b \<longrightarrow> z_reply Z b = Some r) \<and>
     (\<forall>body. \<exists>b. z_body Z body = Some b \<and> z_unbody Z b = Some body)"

text \<open>\<open>v\<close> is the key table of the runtime \<open>rt\<close> and has the key of the runtime \<open>peer\<close>.\<close>

definition knows :: "ext \<Rightarrow> raft_runtime \<Rightarrow> rpc_verifier \<Rightarrow> raft_runtime \<Rightarrow> bool" where
  "knows X rt v peer \<longleftrightarrow> rv_cluster_id v = rt_cluster_id rt \<and> rv_local_id v = rt_node_id rt \<and> rt_cluster_id peer = rt_cluster_id rt \<and>
     bt_get (rv_keys v) (rt_node_id peer) = Some (x_ed_pub X (ik_seed (rt_identity peer)))"

lemma handle_rpc_answers:
  assumes "sig_law X" "b64url_law X" "json_law X" "rpc_serde_law X Z" "knows X rt' (nd_verifier s') rt" "z_body Z body = Some b"
    and "x_json X (envelope_sval (request_envelope X (rt_identity rt) (rt_cluster_id rt) (rt_node_id rt) (rt_node_id rt') b)) = Some payload"
  shows "\<exists>raw t. handle_rpc X Z Y' rt' payload s' = (Inr raw, t) \<and>
    z_reply Z raw = Some (case fst (y_rpc Y' body (nd_env s')) of
      Inr r \<Rightarrow> reply_envelope X (rt_identity rt') (rt_cluster_id rt') (rt_node_id rt') (rt_node_id rt) True r []
    | Inl x \<Rightarrow> reply_envelope X (rt_identity rt') (rt_cluster_id rt') (rt_node_id rt') (rt_node_id rt) False [] x)"
proof -
  let ?e = "request_envelope X (rt_identity rt) (rt_cluster_id rt) (rt_node_id rt) (rt_node_id rt') b"
  have k: "rv_cluster_id (nd_verifier s') = rt_cluster_id rt" "rv_local_id (nd_verifier s') = rt_node_id rt'"
    "bt_get (rv_keys (nd_verifier s')) (rt_node_id rt) = Some (x_ed_pub X (ik_seed (rt_identity rt)))"
    using assms(5) by (simp_all add: knows_def)
  have "z_unbody Z b = Some body"
    using assms(4,6) unfolding rpc_serde_law_def by (metis option.inject)
  from signed_request_verifies [where dec = "z_unbody Z" and body = b, OF assms(1,2) k(3) this] have verified: "rpc_verify_request X (z_unbody Z) (nd_verifier s') ?e = Inr (rt_node_id rt, body)"
    by (simp add: k)
  have e: "z_envelope Z payload = Some ?e" "ev_op ?e = RAFT_RPC_OP"
    using assms(4,7) by (auto simp: rpc_serde_law_def request_envelope_def)
  have reply: "\<exists>raw. encode_reply X k c src dst good res x = Inr raw \<and> z_reply Z raw = Some (reply_envelope X k c src dst good res x)"
    for k c src dst good res x
  proof -
    obtain raw where "x_json X (reply_sval (reply_envelope X k c src dst good res x)) = Some raw"
      using assms(3) unfolding json_law_def by blast
    with assms(4) show ?thesis
      by (simp add: encode_reply_def rpc_serde_law_def)
  qed
  obtain outcome f where outcome: "y_rpc Y' body (nd_env s') = (outcome, f)"
    by fastforce
  note step = handle_rpc_def e verified act_defs call_def of_opt_def of_res_def outcome
  show ?thesis
  proof (cases outcome)
    case (Inl x)
    with reply [of "rt_identity rt'" "rt_cluster_id rt'" "rt_node_id rt'" "rt_node_id rt" False "[]" x] show ?thesis
      by (auto simp: step)
  next
    case (Inr r)
    with reply [of "rt_identity rt'" "rt_cluster_id rt'" "rt_node_id rt'" "rt_node_id rt" True r "[]"] show ?thesis
      by (auto simp: step)
  qed
qed

lemma network_send_answered:
  assumes "sig_law X" "b64url_law X" "json_law X" "rpc_serde_law X Z" "knows X rt (nd_verifier s) rt'" "knows X rt' (nd_verifier s') rt"
    and "\<And>payload raw t. handle_rpc X Z Y' rt' payload s' = (Inr raw, t) \<Longrightarrow>
      fst (y_send Y (rt_service rt) (rn_peer_id node) payload (nd_env s)) = Inr raw"
  shows "fst (network_send X Z Y rt (rt_node_id rt') node body s) =
    map_sum (\<lambda>x. RE_Transport (T_Decode (RemoteError x))) id (fst (y_rpc Y' body (nd_env s')))"
proof -
  obtain b where b: "z_body Z body = Some b"
    using assms(4) unfolding rpc_serde_law_def by metis
  let ?v = "envelope_sval (request_envelope X (rt_identity rt) (rt_cluster_id rt) (rt_node_id rt) (rt_node_id rt') b)"
  obtain payload where payload: "x_json X ?v = Some payload"
    using assms(3) unfolding json_law_def by blast
  obtain raw t where raw: "handle_rpc X Z Y' rt' payload s' = (Inr raw, t)" "z_reply Z raw = Some (case fst (y_rpc Y' body (nd_env s')) of
      Inr r \<Rightarrow> reply_envelope X (rt_identity rt') (rt_cluster_id rt') (rt_node_id rt') (rt_node_id rt) True r []
    | Inl x \<Rightarrow> reply_envelope X (rt_identity rt') (rt_cluster_id rt') (rt_node_id rt') (rt_node_id rt) False [] x)"
    using handle_rpc_answers [OF assms(1-4,6) b payload] by blast
  have k: "rv_cluster_id (nd_verifier s) = rt_cluster_id rt'" "rv_local_id (nd_verifier s) = rt_node_id rt"
    "bt_get (rv_keys (nd_verifier s)) (rt_node_id rt') = Some (x_ed_pub X (ik_seed (rt_identity rt')))"
    using assms(5) by (simp_all add: knows_def)
  have "encode_request X (z_body Z) (rt_identity rt) (rt_cluster_id rt) (rt_node_id rt) (rt_node_id rt') body = Inr payload"
    by (simp add: encode_request_def b payload)
  moreover obtain e where "y_send Y (rt_service rt) (rn_peer_id node) payload (nd_env s) = (Inr raw, e)"
    using assms(7) [OF raw(1)] by (metis prod.collapse)
  ultimately show ?thesis
    using raw(2) signed_reply_verifies [OF assms(1,2) k(3)]
    by (cases "fst (y_rpc Y' body (nd_env s'))")
      (auto simp: network_send_def act_defs of_opt_def of_res_def send_to_def ask_def record_event_def call_def k split: sum.splits)
qed

text \<open>
  C20: openraft gets its peer's answer. Two nodes of a cluster know each other's identity keys, and the node network brings what the
  peer's handler returns back to the caller. Then a vote, an append or a snapshot call at the one returns exactly what openraft at the other
  answers to this very request, decoded, and the other's error as an error of the transport: signing, addressing, checking and
  encoding on both sides fit together. (What serde writes, it reads back.)
\<close>

theorem raft_call_answered:
  assumes "sig_law X" "b64url_law X" "json_law X" "rpc_serde_law X Z" "knows X rt (nd_verifier s) rt'" "knows X rt' (nd_verifier s') rt"
    and "\<And>payload raw t. handle_rpc X Z Y' rt' payload s' = (Inr raw, t) \<Longrightarrow>
      fst (y_send Y (rt_service rt) (rn_peer_id node) payload (nd_env s)) = Inr raw"
    and "c = new_client rt (rt_node_id rt') node"
    and "m = vote X Z Y dec c rpc \<and> body = Vote rpc \<and> what = ''vote'' \<or>
      m = append_entries X Z Y dec c rpc \<and> body = AppendEntries rpc \<and> what = ''append_entries'' \<or>
      m = install_snapshot_rpc X Z Y dec c rpc \<and> body = InstallSnapshot rpc \<and> what = ''install_snapshot''"
  shows "fst (m s) = (case fst (y_rpc Y' body (nd_env s')) of
      Inl x \<Rightarrow> Inl (Rpc_Transport (RE_Transport (T_Decode (RemoteError x))))
    | Inr b \<Rightarrow> (case dec b of None \<Rightarrow> Inl (Rpc_Decode what) | Some r \<Rightarrow> Inr r))"
proof -
  have "m = rpc_call X Z Y dec what c body"
    using assms(9) by (auto simp: vote_def append_entries_def install_snapshot_rpc_def)
  moreover obtain r t where "network_send X Z Y rt (rt_node_id rt') node body s = (r, t)"
    by fastforce
  ultimately show ?thesis
    using network_send_answered [OF assms(1-7), where body = body]
    by (cases "fst (y_rpc Y' body (nd_env s'))")
      (auto simp: rpc_call_def assms(8) new_client_def act_defs of_opt_def split: option.split)
qed

section \<open>Two concrete nodes\<close>

text \<open>A reader of the two messages in the concrete encoding.\<close>

definition take_str :: "bytes \<Rightarrow> string \<times> bytes" where
  "take_str b = (let n = length (takeWhile (\<lambda>c. c = CHR 0x01) b) in (take n (drop (Suc n) b), drop n (drop (Suc n) b)))"

definition take_int :: "bytes \<Rightarrow> u64 \<times> bytes" where
  "take_int b = (of_nat (of_be_bytes (take 8 b)), drop 8 b)"

text \<open>After the number of fields, and after a key and the tag of its value.\<close>

definition header :: "nat \<Rightarrow> bytes \<Rightarrow> bytes" where
  "header n b = drop (Suc (Suc n)) b"

definition past :: "string \<Rightarrow> bytes \<Rightarrow> bytes" where
  "past k b = drop (Suc (length (enc_str k))) b"

lemma takeWhile_marks: "takeWhile (\<lambda>c. c = x) (replicate n x @ y # zs) = replicate n x" if "y \<noteq> x"
  using that by (induction n) auto

lemma take_str_enc: "take_str (enc_str s @ xs) = (s, xs)"
  by (simp add: take_str_def enc_str_def enc_len_def takeWhile_marks)

lemma take_int_enc: "take_int (be_bytes 8 (unat n) @ xs) = (n, xs)" for n :: u64
proof -
  have "unat n < 256 ^ 8"
    using unsigned_less [of n, where 'a = nat] by simp
  then show ?thesis
    by (simp add: take_int_def of_be_bytes_be_bytes del: be_bytes.simps)
qed

lemma past_enc: "past k (enc_str k @ c # xs) = xs"
  by (simp add: past_def)

definition demo_envelope_reader :: "bytes \<Rightarrow> raft_rpc_envelope" where
  "demo_envelope_reader b =
     (let (op, b1) = take_str (past ''op'' (header 6 b)); (cluster, b2) = take_str (past ''cluster_id'' b1); (src, b3) = take_int (past ''from'' b2);
          (dst, b4) = take_int (past ''to'' b3); (body, b5) = take_str (past ''body'' b4); (sig, _) = take_str (past ''signature'' b5)
      in \<lparr>ev_op = op, ev_cluster_id = cluster, ev_from = src, ev_to = dst, ev_body = body, ev_signature = sig\<rparr>)"

definition demo_reply_reader :: "bytes \<Rightarrow> raft_rpc_reply" where
  "demo_reply_reader b =
     (let (op, b1) = take_str (past ''op'' (header 8 b)); (cluster, b2) = take_str (past ''cluster_id'' b1); (src, b3) = take_int (past ''from'' b2);
          (dst, b4) = take_int (past ''to'' b3); b5 = past ''ok'' b4; (body, b6) = take_str (past ''body'' (tl b5));
          (error, b7) = take_str (past ''error'' b6); (sig, _) = take_str (past ''signature'' b7)
      in \<lparr>rr_op = op, rr_cluster_id = cluster, rr_from = src, rr_to = dst, rr_ok = (hd b5 = CHR 0x01), rr_body = body, rr_error = error,
        rr_signature = sig\<rparr>)"

lemma headers:
  "header 6 (c # enc_len (Suc (Suc (Suc (Suc (Suc (Suc 0)))))) @ xs) = xs"
  "header 8 (c # enc_len (Suc (Suc (Suc (Suc (Suc (Suc (Suc (Suc 0)))))))) @ xs) = xs"
  by (simp_all add: header_def enc_len_def)

lemmas reader_simps = headers past_enc take_str_enc take_str_enc [where xs = "[]", simplified] take_int_enc Let_def

lemma demo_envelope_read: "demo_envelope_reader (enc_sval (envelope_sval e)) = e"
  by (simp add: demo_envelope_reader_def envelope_sval_def reader_simps del: be_bytes.simps)

lemma demo_reply_read: "demo_reply_reader (enc_sval (reply_sval r)) = r"
  by (simp add: demo_reply_reader_def reply_sval_def reader_simps del: be_bytes.simps)

definition demo_rpc_serde :: "unit serde" where
  "demo_rpc_serde = demo_serde\<lparr>z_envelope := (\<lambda>b. Some (demo_envelope_reader b)), z_reply := (\<lambda>b. Some (demo_reply_reader b)),
     z_body := (\<lambda>v. Some (case v of Vote _ \<Rightarrow> ''v'' | AppendEntries _ \<Rightarrow> ''a'' | InstallSnapshot _ \<Rightarrow> ''s'' | Elect \<Rightarrow> ''e'')),
     z_unbody := (\<lambda>b. if b = ''v'' then Some (Vote ()) else if b = ''a'' then Some (AppendEntries ()) else if b = ''s'' then Some (InstallSnapshot ())
       else Some Elect)\<rparr>"

lemma demo_rpc_serde_law: "rpc_serde_law demo_ext demo_rpc_serde"
proof -
  have "x_json demo_ext v = Some (enc_sval v)" for v
    by (simp add: demo_ext_def)
  then show ?thesis
    by (auto simp: rpc_serde_law_def demo_rpc_serde_def demo_envelope_read demo_reply_read split: rpc_body.split)
qed

text \<open>Node 2 answers every call with \<open>yes\<close>; node 1's messages reach it.\<close>

definition demo_peer_runtime :: raft_runtime where
  "demo_peer_runtime = demo_runtime\<lparr>rt_node_id := 2, rt_peer_id := ''p2''\<rparr>"

definition demo_knowing :: "node_id \<Rightarrow> node_id \<Rightarrow> metrics node" where
  "demo_knowing me other = demo_node\<lparr>nd_verifier := \<lparr>rv_cluster_id = ''c'', rv_local_id = me, rv_keys = bt_insert other (x_ed_pub demo_ext demo_sk) bt_empty\<rparr>\<rparr>"

definition demo_peer_system :: "(metrics, unit) env" where
  "demo_peer_system = demo_system\<lparr>y_rpc := (\<lambda>_ e. (Inr ''yes'', e))\<rparr>"

definition demo_caller_system :: "(metrics, unit) env" where
  "demo_caller_system = demo_system\<lparr>y_send := (\<lambda>_ _ payload e.
     (case fst (handle_rpc demo_ext demo_rpc_serde demo_peer_system demo_peer_runtime payload (demo_knowing 2 1)) of
        Inr raw \<Rightarrow> Inr raw | Inl _ \<Rightarrow> Inl \<lparr>se_code = ''refused'', se_message = [], se_publish_error = None\<rparr>, e))\<rparr>"

theorem raft_call_answered_witness:
  "fst (vote demo_ext demo_rpc_serde demo_caller_system Some (new_client demo_runtime 2 \<lparr>rn_peer_id = ''p2'', rn_identity_key = ''k2'', rn_x25519_key = ''x2''\<rparr>)
     () (demo_knowing 1 2)) = Inr ''yes''"
proof -
  have "knows demo_ext demo_runtime (nd_verifier (demo_knowing 1 2)) demo_peer_runtime"
    "knows demo_ext demo_peer_runtime (nd_verifier (demo_knowing 2 1)) demo_runtime"
    by (simp_all add: knows_def demo_knowing_def demo_peer_runtime_def demo_runtime_def)
  note answered = raft_call_answered [OF demo_laws(3,2,6) demo_rpc_serde_law this _ refl, where Y' = demo_peer_system and Y = demo_caller_system
      and node = "\<lparr>rn_peer_id = ''p2'', rn_identity_key = ''k2'', rn_x25519_key = ''x2''\<rparr>", OF _ disjI1 [OF conjI [OF refl conjI [OF refl refl]]]]
  have "rt_node_id demo_peer_runtime = 2"
    by (simp add: demo_peer_runtime_def)
  with answered [where dec = Some and rpc = "()"] show ?thesis
    by (simp add: demo_caller_system_def) (simp add: demo_peer_system_def)
qed

end
