(* ===== verification/Backup.thy ===== *)
theory Backup
  imports Sidecar "HOL-Library.Sublist"
begin

text \<open>
  \<open>src/backup.rs\<close>: a voter's configuration, keys, state and Raft data are copied into a directory, with a manifest of their sizes
  and hashes. The actions run on the file system; the outcome of every system call is an argument, numbered by the calls
  made so far, and so is the order in which \<open>read_dir\<close> lists a directory; an error at an entry counts as a failed listing. There are no symbolic links. The
  recursion into directories is bounded by fuel, and enough fuel for a tree is its depth.
\<close>

section \<open>Reports\<close>

abbreviation BACKUP_SCHEMA :: u32 where "BACKUP_SCHEMA \<equiv> 1"
abbreviation MANIFEST_NAME :: string where "MANIFEST_NAME \<equiv> ''manifest.json''"

text \<open>\<open>BE_TooDeep\<close> is the end of the fuel.\<close>

datatype backup_error = BE_Io io_error | BE_Config | BE_OutputExists string | BE_TooDeep

record backup_file =
  bf_name :: string
  bf_source :: string
  bf_bytes :: u64
  bf_sha256 :: string
  bf_mode :: string

record backup_report =
  br_schema :: u32
  br_created_at :: u64
  br_output_dir :: string
  br_manifest :: string
  br_network :: string
  br_cluster_id :: "string option"
  br_authority_public_key :: "string option"
  br_files :: "backup_file list"
  br_skipped :: "string list"
  br_admin_private_keys_included :: bool

abbreviation backup_file_sval :: "backup_file \<Rightarrow> sval" where
  "backup_file_sval b \<equiv> SMap [(''name'', SStr (bf_name b)), (''source'', SStr (bf_source b)), (''bytes'', SInt (bf_bytes b)),
     (''sha256'', SStr (bf_sha256 b)), (''mode'', SStr (bf_mode b))]"

definition backup_report_sval :: "backup_report \<Rightarrow> sval" where
  "backup_report_sval r =
     (let text = (\<lambda>v. case v of None \<Rightarrow> SNull | Some s \<Rightarrow> SStr s) in
      SMap [(''schema'', SInt (ucast (br_schema r))), (''created_at'', SInt (br_created_at r)), (''output_dir'', SStr (br_output_dir r)),
        (''manifest'', SStr (br_manifest r)), (''network'', SStr (br_network r)), (''cluster_id'', text (br_cluster_id r)),
        (''authority_public_key'', text (br_authority_public_key r)), (''files'', SSeq (map backup_file_sval (br_files r))),
        (''skipped'', SSeq (map SStr (br_skipped r))), (''admin_private_keys_included'', SBool (br_admin_private_keys_included r))])"

section \<open>Copying\<close>

text \<open>\<open>bk_private\<close> lists the directories that were given the mode \<open>0700\<close>.\<close>

record bk_state =
  bk_fs :: fs
  bk_calls :: nat
  bk_private :: "string list list"
  bk_files :: "backup_file list"
  bk_skipped :: "string list"

type_synonym 'a backup = "(bk_state, backup_error + 'a) act"

text \<open>One system call.\<close>

definition bk_call :: "(nat \<Rightarrow> io) \<Rightarrow> (io \<Rightarrow> fs \<Rightarrow> (io_error + 'a) \<times> fs) \<Rightarrow> 'a backup" where
  "bk_call I f s = (case f (I (bk_calls s)) (bk_fs s) of
     (r, t) \<Rightarrow> (case r of Inl e \<Rightarrow> Inl (BE_Io e) | Inr a \<Rightarrow> Inr a, s\<lparr>bk_fs := t, bk_calls := Suc (bk_calls s)\<rparr>))"

definition bk_read :: "(nat \<Rightarrow> io) \<Rightarrow> path \<Rightarrow> bytes backup" where
  "bk_read I p = bk_call I (\<lambda>e f. (fs_read e p f, f))"

definition bk_write :: "(nat \<Rightarrow> io) \<Rightarrow> path \<Rightarrow> bytes \<Rightarrow> unit backup" where
  "bk_write I p d = bk_call I (\<lambda>e. atomic_write e p d (Some 0x180))"

definition read_dir :: "(nat \<Rightarrow> io) \<Rightarrow> (fs \<Rightarrow> string list \<Rightarrow> string list) \<Rightarrow> string list \<Rightarrow> string list backup" where
  "read_dir I ls d = bk_call I (\<lambda>e f. (case io_read e of Some x \<Rightarrow> Inl x | None \<Rightarrow> if fs_dirs f d then Inr (ls f d) else Inl Io_NotFound, f))"

definition set_dir_mode :: "(nat \<Rightarrow> io) \<Rightarrow> string list \<Rightarrow> unit backup" where
  "set_dir_mode I d =
     seqE (bk_call I (\<lambda>e f. (case io_chmod e of Some x \<Rightarrow> Inl x | None \<Rightarrow> Inr (), f))) (\<lambda>_ s.
       (Inr (), s\<lparr>bk_private := bk_private s @ [d]\<rparr>))"

definition path_is_file :: "fs \<Rightarrow> path \<Rightarrow> bool" where
  "path_is_file f p \<longleftrightarrow> fs_files f p \<noteq> None"

definition push_file :: "backup_file \<Rightarrow> unit backup" where
  "push_file b s = (Inr (), s\<lparr>bk_files := bk_files s @ [b]\<rparr>)"

definition push_skipped :: "string \<Rightarrow> unit backup" where
  "push_skipped name s = (Inr (), s\<lparr>bk_skipped := bk_skipped s @ [name]\<rparr>)"

definition hash_bytes :: "ext \<Rightarrow> bytes \<Rightarrow> string" where
  "hash_bytes X d = hex_enc (x_sha256 X d)"

definition copy_file :: "ext \<Rightarrow> (nat \<Rightarrow> io) \<Rightarrow> string \<Rightarrow> string list \<Rightarrow> string \<Rightarrow> unit backup" where
  "copy_file X I source out dest_name =
     seqE (bk_read I (path_of source)) (\<lambda>d.
     seqE (bk_write I (out, dest_name) d) (\<lambda>_.
     push_file \<lparr>bf_name = dest_name, bf_source = source, bf_bytes = of_nat (length d), bf_sha256 = hash_bytes X d, bf_mode = ''0600''\<rparr>))"

definition copy_required :: "ext \<Rightarrow> (nat \<Rightarrow> io) \<Rightarrow> string \<Rightarrow> string list \<Rightarrow> string \<Rightarrow> unit backup" where
  "copy_required X I source out dest_name =
     seq (gets bk_fs) (\<lambda>f. if \<not> path_is_file f (path_of source) then fail BE_Config else copy_file X I source out dest_name)"

definition copy_optional :: "ext \<Rightarrow> (nat \<Rightarrow> io) \<Rightarrow> string \<Rightarrow> string list \<Rightarrow> string \<Rightarrow> unit backup" where
  "copy_optional X I source out dest_name =
     seq (gets bk_fs) (\<lambda>f. if path_is_file f (path_of source) then copy_file X I source out dest_name else push_skipped dest_name)"

text \<open>A loop whose body may return early with an error.\<close>

primrec for_each :: "'a list \<Rightarrow> ('a \<Rightarrow> unit backup) \<Rightarrow> unit backup" where
  "for_each [] body = ok ()"
| "for_each (x # xs) body = seqE (body x) (\<lambda>_. for_each xs body)"

fun copy_dir_all :: "nat \<Rightarrow> (nat \<Rightarrow> io) \<Rightarrow> (fs \<Rightarrow> string list \<Rightarrow> string list) \<Rightarrow> string list \<Rightarrow> string list \<Rightarrow> unit backup" where
  "copy_dir_all 0 I ls source dest = fail BE_TooDeep"
| "copy_dir_all (Suc n) I ls source dest =
     seqE (bk_call I (\<lambda>e. create_dir_all e dest)) (\<lambda>_.
     seqE (set_dir_mode I dest) (\<lambda>_.
     seqE (read_dir I ls source) (\<lambda>names.
     for_each names (\<lambda>name.
       seq (gets bk_fs) (\<lambda>f.
       if fs_dirs f (source @ [name]) then copy_dir_all n I ls (source @ [name]) (dest @ [name])
       else if path_is_file f (source, name) then seqE (bk_read I (source, name)) (\<lambda>d. bk_write I (dest, name) d)
       else ok ())))))"

text \<open>The files below \<open>current\<close>, with their paths relative to the root, which \<open>current\<close> has the names \<open>rel\<close> below.\<close>

fun collect_files :: "nat \<Rightarrow> (nat \<Rightarrow> io) \<Rightarrow> (fs \<Rightarrow> string list \<Rightarrow> string list) \<Rightarrow> string list \<Rightarrow> string list \<Rightarrow> (string \<times> path) list backup" where
  "collect_files 0 I ls root rel = fail BE_TooDeep"
| "collect_files (Suc n) I ls root rel =
     seqE (read_dir I ls (root @ rel)) (\<lambda>names.
     foldr (\<lambda>name rest.
       seq (gets bk_fs) (\<lambda>f.
       seqE (if fs_dirs f (root @ rel @ [name]) then collect_files n I ls root (rel @ [name])
             else if path_is_file f (root @ rel, name) then ok [(join_with ''/'' (rel @ [name]), (root @ rel, name))]
             else ok []) (\<lambda>fs.
       seqE rest (\<lambda>fs'. ok (fs @ fs'))))) names (ok []))"

fun hash_files :: "ext \<Rightarrow> (nat \<Rightarrow> io) \<Rightarrow> (string \<times> path) list \<Rightarrow> u64 \<Rightarrow> bytes \<Rightarrow> (u64 \<times> bytes) backup" where
  "hash_files X I [] bytes hashed = ok (bytes, hashed)"
| "hash_files X I ((relative, p) # fs) bytes hashed =
     seqE (bk_read I p) (\<lambda>d.
     hash_files X I fs (bytes + of_nat (length d)) (hashed @ relative @ [CHR 0x00] @ x_sha256 X d))"

definition hash_tree :: "ext \<Rightarrow> nat \<Rightarrow> (nat \<Rightarrow> io) \<Rightarrow> (fs \<Rightarrow> string list \<Rightarrow> string list) \<Rightarrow> string list \<Rightarrow> (u64 \<times> string) backup" where
  "hash_tree X n I ls root =
     seqE (collect_files n I ls root []) (\<lambda>fs.
     seqE (hash_files X I (sort_key fst fs) 0 []) (\<lambda>(bytes, hashed). ok (bytes, hash_bytes X hashed)))"

section \<open>The backup\<close>

definition prepare_output :: "(nat \<Rightarrow> io) \<Rightarrow> (fs \<Rightarrow> string list \<Rightarrow> string list) \<Rightarrow> string \<Rightarrow> bool \<Rightarrow> unit backup" where
  "prepare_output I ls output force =
     (let out = components output in
      seq (gets bk_fs) (\<lambda>f.
      if output = [] then fail (BE_Io Io_NotFound)
      else if out = [] \<or> path_exists f (path_of output)
      then seqE (read_dir I ls out) (\<lambda>names. if names \<noteq> [] \<and> \<not> force then fail (BE_OutputExists output) else ok ())
      else seqE (bk_call I (\<lambda>e. create_dir_all e out)) (\<lambda>_. set_dir_mode I out)))"

definition copy_raft_data :: "ext \<Rightarrow> nat \<Rightarrow> (nat \<Rightarrow> io) \<Rightarrow> (fs \<Rightarrow> string list \<Rightarrow> string list) \<Rightarrow> string \<Rightarrow> string list \<Rightarrow> unit backup" where
  "copy_raft_data X n I ls data out =
     seq (gets bk_fs) (\<lambda>f.
     if fs_dirs f (components data) then
       let dest = out @ [''raft_data''] in
       seqE (copy_dir_all n I ls (components data) dest) (\<lambda>_.
       seqE (set_dir_mode I dest) (\<lambda>_.
       seqE (hash_tree X n I ls dest) (\<lambda>(bytes, sha256).
       push_file \<lparr>bf_name = ''raft_data'', bf_source = data, bf_bytes = bytes, bf_sha256 = sha256, bf_mode = ''0700''\<rparr>)))
     else if path_is_file f (path_of data) then copy_file X I data out ''raft.redb''
     else push_skipped ''raft_data'')"

definition copy_authority :: "ext \<Rightarrow> (nat \<Rightarrow> io) \<Rightarrow> service_config \<Rightarrow> string list \<Rightarrow> unit backup" where
  "copy_authority X I cfg out =
     seq (gets bk_fs) (\<lambda>f.
     if path_is_file f (path_of (sc_authority_key_path cfg)) then copy_file X I (sc_authority_key_path cfg) out ''authority.key''
     else if cc_enabled (sc_cluster cfg) then fail BE_Config
     else push_skipped ''authority.key'')"

definition copy_all :: "ext \<Rightarrow> nat \<Rightarrow> (nat \<Rightarrow> io) \<Rightarrow> (fs \<Rightarrow> string list \<Rightarrow> string list) \<Rightarrow> service_config \<Rightarrow> string \<Rightarrow> string list \<Rightarrow> unit backup" where
  "copy_all X n I ls cfg cfg_path out =
     seqE (copy_required X I cfg_path out ''config.toml'') (\<lambda>_.
     seqE (copy_authority X I cfg out) (\<lambda>_.
     seqE (copy_optional X I (sc_state_path cfg) out ''auth_state.toml'') (\<lambda>_.
     if cc_enabled (sc_cluster cfg) then
       seqE (copy_optional X I (cc_identity_key_path (sc_cluster cfg)) out ''raft_identity.key'') (\<lambda>_.
       seqE (copy_optional X I (cc_seed_exchange_key_path (sc_cluster cfg)) out ''raft_seed_exchange.key'') (\<lambda>_.
       copy_raft_data X n I ls (cc_data_path (sc_cluster cfg)) out))
     else ok ())))"

text \<open>The public key of the authority, when its seed can be loaded.\<close>

definition backup_public_key :: "ext \<Rightarrow> (nat \<Rightarrow> io) \<Rightarrow> service_config \<Rightarrow> string option backup" where
  "backup_public_key X I cfg =
     seq (gets bk_fs) (\<lambda>f.
     if path_is_file f (path_of (sc_authority_key_path cfg)) \<and> sc_network cfg \<noteq> [] then
       bk_call I (\<lambda>e f. (Inr (case auth_load X e (path_of (sc_authority_key_path cfg)) (sc_network cfg) f of
         Inl _ \<Rightarrow> None | Inr a \<Rightarrow> Some (public_key_b64 X a)), f))
     else ok None)"

definition path_push :: "string \<Rightarrow> string \<Rightarrow> string" where
  "path_push dir name = (if dir = [] \<or> last dir = CHR ''/'' then dir @ name else dir @ ''/'' @ name)"

text \<open>\<open>pretty\<close> is the JSON printer of the manifest.\<close>

definition create_backup ::
  "ext \<Rightarrow> nat \<Rightarrow> (nat \<Rightarrow> io) \<Rightarrow> (fs \<Rightarrow> string list \<Rightarrow> string list) \<Rightarrow> (sval \<Rightarrow> bytes option) \<Rightarrow> u64 \<Rightarrow> service_config \<Rightarrow> string \<Rightarrow> string \<Rightarrow> bool \<Rightarrow>
   backup_report backup" where
  "create_backup X n I ls pretty now cfg cfg_path output force =
     (let out = components output in
      seqE (prepare_output I ls output force) (\<lambda>_.
      seqE (copy_all X n I ls cfg cfg_path out) (\<lambda>_.
      seqE (backup_public_key X I cfg) (\<lambda>pk.
      seq (gets (\<lambda>s. (bk_files s, bk_skipped s))) (\<lambda>(files, skipped).
      let report = \<lparr>br_schema = BACKUP_SCHEMA, br_created_at = now, br_output_dir = output, br_manifest = path_push output MANIFEST_NAME,
        br_network = sc_network cfg, br_cluster_id = (if cc_enabled (sc_cluster cfg) then Some (cc_cluster_id (sc_cluster cfg)) else None),
        br_authority_public_key = pk, br_files = files, br_skipped = skipped, br_admin_private_keys_included = False\<rparr> in
      seqE (of_opt BE_Config (pretty (backup_report_sval report))) (\<lambda>manifest.
      seqE (bk_write I (out, MANIFEST_NAME) manifest) (\<lambda>_. ok report)))))))"

definition backup_start :: "fs \<Rightarrow> bk_state" where
  "backup_start f = \<lparr>bk_fs = f, bk_calls = 0, bk_private = [], bk_files = [], bk_skipped = []\<rparr>"

definition manifest_summary :: "backup_report \<Rightarrow> (string, string) btmap" where
  "manifest_summary r = fold (\<lambda>b m. bt_insert (bf_name b) (bf_sha256 b) m) (br_files r) bt_empty"

section \<open>What copying leaves alone\<close>

text \<open>Only files below a directory change, and the lists of the report stay.\<close>

definition below :: "string list \<Rightarrow> bk_state \<Rightarrow> bk_state \<Rightarrow> bool" where
  "below d s t \<longleftrightarrow> (\<forall>q. \<not> prefix d (fst q) \<longrightarrow> fs_files (bk_fs t) q = fs_files (bk_fs s) q) \<and>
     bk_files t = bk_files s \<and> bk_skipped t = bk_skipped s"

interpretation below_frame: frame "below d" for d
  by unfold_locales (auto simp: below_def)

named_theorems bk_keeps \<open>actions that write below one directory only\<close>

lemmas [bk_keeps] = below_frame.keeps_rules

lemma keeps_bk_call:
  "(\<And>e f q. \<not> prefix d (fst q) \<Longrightarrow> fs_files (snd (g e f)) q = fs_files f q) \<Longrightarrow> keeps (below d) (bk_call I g)"
  unfolding keeps_def bk_call_def below_def by (auto split: prod.splits) (metis fst_conv snd_conv)+

lemma fst_with_extension [simp]: "fst (with_extension p e) = fst p"
  by (simp add: with_extension_def)

lemma keeps_bk_steps [bk_keeps]:
  "keeps (below d) (bk_read I p)" "keeps (below d) (read_dir I ls d')" "keeps (below d) (set_dir_mode I d')"
  "keeps (below d) (bk_call I (\<lambda>e. create_dir_all e d'))" "keeps (below d) (backup_public_key X I cfg)"
  unfolding bk_read_def read_dir_def set_dir_mode_def backup_public_key_def
  by (intro bk_keeps keeps_bk_call; auto simp: create_dir_all_def keeps_def below_def split: option.split)+

lemma keeps_bk_write [bk_keeps]: "prefix d (fst p) \<Longrightarrow> keeps (below d) (bk_write I p x)"
  unfolding bk_write_def by (intro keeps_bk_call atomic_write_frame) (metis fst_with_extension)+

lemma keeps_for_each: "(\<And>x. keeps (below d) (body x)) \<Longrightarrow> keeps (below d) (for_each xs body)"
  by (induction xs) (simp_all add: bk_keeps)

lemma keeps_copy_dir: "prefix d dest \<Longrightarrow> keeps (below d) (copy_dir_all n I ls source dest)"
proof (induction n arbitrary: source dest)
  case (Suc n)
  show ?case
    unfolding copy_dir_all.simps
    by (intro bk_keeps keeps_for_each Suc.IH) (use Suc.prems in \<open>auto intro: prefix_prefix\<close>)
qed (simp add: bk_keeps)

lemma keeps_collect_files: "keeps (below d) (collect_files n I ls root rel)"
proof (induction n arbitrary: rel)
  case (Suc n)
  have loop: "keeps (below d) (foldr (\<lambda>name rest. seq (gets bk_fs) (\<lambda>f. seqE (g f name) (\<lambda>fs. seqE rest (\<lambda>fs'. ok (fs @ fs'))))) names (ok []))"
    if "\<And>f name. keeps (below d) (g f name)" for names and g :: "fs \<Rightarrow> string \<Rightarrow> (string \<times> path) list backup"
    by (induction names) (simp add: bk_keeps, simp, intro bk_keeps that)
  show ?case
    unfolding collect_files.simps
    by (intro below_frame.keeps_seqE keeps_bk_steps loop below_frame.keeps_if below_frame.keeps_pure Suc.IH)
qed (simp add: bk_keeps)

lemma keeps_hash_files: "keeps (below d) (hash_files X I fs bytes hashed)"
  by (induction X I fs bytes hashed rule: hash_files.induct) (simp_all, (intro bk_keeps; assumption?)+)

lemma keeps_hash_tree: "keeps (below d) (hash_tree X n I ls root)"
  unfolding hash_tree_def by (intro bk_keeps keeps_collect_files keeps_hash_files)


section \<open>What a backup holds\<close>

text \<open>What holds after an action that succeeds.\<close>

definition yields :: "('s \<Rightarrow> bool) \<Rightarrow> ('s, 'x + 'a) act \<Rightarrow> ('s \<Rightarrow> bool) \<Rightarrow> bool" where
  "yields P m Q \<longleftrightarrow> (\<forall>s a t. P s \<longrightarrow> m s = (Inr a, t) \<longrightarrow> Q t)"

lemma yields_seqE: "yields P m Q \<Longrightarrow> (\<And>a. yields Q (k a) R) \<Longrightarrow> yields P (seqE m k) R"
  unfolding yields_def by (auto simp: seqE_simp split: prod.splits sum.splits)

lemma yields_state: "(\<And>s. P s \<Longrightarrow> yields (\<lambda>t. t = s) (k (f s)) Q) \<Longrightarrow> yields P (seq (gets f) k) Q"
  unfolding yields_def by (auto simp: seq_def gets_def)

lemma yields_fail: "yields P (fail x) Q"
  by (simp add: yields_def fail_def ret_def)

lemma yields_weaken: "yields P m Q \<Longrightarrow> (\<And>s. P' s \<Longrightarrow> P s) \<Longrightarrow> (\<And>s. Q s \<Longrightarrow> Q' s) \<Longrightarrow> yields P' m Q'"
  unfolding yields_def by blast

lemma yields_keeps: "keeps R m \<Longrightarrow> (\<And>s t. P s \<Longrightarrow> R s t \<Longrightarrow> Q t) \<Longrightarrow> yields P m Q"
  unfolding yields_def keeps_def by (metis snd_conv)

text \<open>A name of a backup: neither the manifest's nor that of a temporary file.\<close>

definition backup_name_ok :: "string \<Rightarrow> bool" where
  "backup_name_ok name \<longleftrightarrow> name \<noteq> MANIFEST_NAME \<and> take 4 (rev name) \<noteq> rev ''.tmp''"

lemma backup_name_not_temp: "backup_name_ok name \<Longrightarrow> (out, name) \<noteq> with_extension (out, other) ''tmp''"
  by (auto simp: backup_name_ok_def with_extension_def)

text \<open>The file listed is the source as it was, readable by its owner only, with the size and hash listed.\<close>

definition saved :: "ext \<Rightarrow> fs \<Rightarrow> string list \<Rightarrow> fs \<Rightarrow> backup_file \<Rightarrow> bool" where
  "saved X f0 out f b \<longleftrightarrow> (\<exists>g. fs_files f0 (path_of (bf_source b)) = Some g \<and>
     fs_files f (out, bf_name b) = Some \<lparr>f_data = f_data g, f_mode = 0x180\<rparr> \<and>
     bf_bytes b = of_nat (length (f_data g)) \<and> bf_sha256 b = hash_bytes X (f_data g) \<and> bf_mode b = ''0600'')"

text \<open>
  The state of a backup from \<open>f0\<close>: the names of \<open>N\<close> are decided, those of \<open>S\<close> copied, what is listed is saved, and nothing outside the
  output directory has changed.
\<close>

definition copied :: "ext \<Rightarrow> fs \<Rightarrow> string list \<Rightarrow> string set \<Rightarrow> string set \<Rightarrow> bk_state \<Rightarrow> bool" where
  "copied X f0 out N S s \<longleftrightarrow> (\<forall>q. \<not> prefix out (fst q) \<longrightarrow> fs_files (bk_fs s) q = fs_files f0 q) \<and>
     distinct (map bf_name (bk_files s)) \<and> bf_name ` set (bk_files s) \<union> set (bk_skipped s) = N \<and> S \<subseteq> bf_name ` set (bk_files s) \<and>
     (\<forall>n \<in> N. backup_name_ok n) \<and> (\<forall>b \<in> set (bk_files s). bf_name b \<noteq> ''raft_data'' \<longrightarrow> saved X f0 out (bk_fs s) b)"

lemma copied_below:
  assumes "copied X f0 out N S s" "below d s t" "prefix out d" "d \<noteq> out"
  shows "copied X f0 out N S t"
proof -
  have "fs_files (bk_fs t) (out, n) = fs_files (bk_fs s) (out, n)" for n
    using assms(2-4) prefix_order.antisym [of out d] by (auto simp: below_def)
  moreover have "\<not> prefix d q" if "\<not> prefix out q" for q
    using that assms(3) prefix_order.trans by blast
  ultimately show ?thesis
    using assms(1,2) unfolding copied_def below_def saved_def by auto
qed

lemma atomic_write_file:
  assumes "has_temp p" "atomic_write e p d (Some m) s = (Inr u, s')"
  shows "fs_files s' p = Some \<lparr>f_data = d, f_mode = m\<rparr>"
  using atomic_write_ok [OF assms] by (auto intro: fs_file.equality)

lemma bk_write_ok:
  assumes "bk_write I (out, name) d s = (Inr u, t)" "backup_name_ok name \<or> name = MANIFEST_NAME"
  shows "fs_files (bk_fs t) (out, name) = Some \<lparr>f_data = d, f_mode = 0x180\<rparr>" "bk_files t = bk_files s" "bk_skipped t = bk_skipped s"
    "(fst q \<noteq> out \<or> snd q \<noteq> name \<and> backup_name_ok (snd q)) \<Longrightarrow> fs_files (bk_fs t) q = fs_files (bk_fs s) q"
proof -
  obtain r f where w: "atomic_write (I (bk_calls s)) (out, name) d (Some 0x180) (bk_fs s) = (r, f)"
    by fastforce
  then have t: "r = Inr ()" "t = s\<lparr>bk_fs := f, bk_calls := Suc (bk_calls s)\<rparr>"
    using assms(1) by (auto simp: bk_write_def bk_call_def split: sum.splits)
  have "has_temp (out, name)"
    using assms(2) backup_name_not_temp [of name out name] by (auto simp: has_temp_def with_extension_def file_stem_def)
  then show "fs_files (bk_fs t) (out, name) = Some \<lparr>f_data = d, f_mode = 0x180\<rparr>" "bk_files t = bk_files s" "bk_skipped t = bk_skipped s"
    using atomic_write_file w t by auto
  show "fs_files (bk_fs t) q = fs_files (bk_fs s) q" if "fst q \<noteq> out \<or> snd q \<noteq> name \<and> backup_name_ok (snd q)"
  proof -
    have "q \<noteq> (out, name)" "q \<noteq> with_extension (out, name) ''tmp''"
      using that backup_name_not_temp [of "snd q" out name] by (cases q; auto simp: with_extension_def)+
    from atomic_write_frame [OF this, of "I (bk_calls s)" d "Some 0x180" "bk_fs s"] show ?thesis
      using w t by simp
  qed
qed


lemma bk_read_ok:
  assumes "bk_read I p s = (Inr d, t)"
  shows "\<exists>g. fs_files (bk_fs s) p = Some g \<and> d = f_data g" "bk_fs t = bk_fs s" "bk_files t = bk_files s" "bk_skipped t = bk_skipped s"
  using assms by (auto simp: bk_read_def bk_call_def fs_read_def split: option.splits sum.splits)

text \<open>Listing a name that is not decided yet.\<close>

lemma copied_insert:
  assumes "copied X f0 out N S s" "name \<notin> N" "backup_name_ok name" "bf_name b = name" "name \<noteq> ''raft_data'' \<longrightarrow> saved X f0 out f b"
    and "\<And>q. \<not> prefix out (fst q) \<or> fst q = out \<and> snd q \<noteq> name \<and> backup_name_ok (snd q) \<Longrightarrow> fs_files f q = fs_files (bk_fs s) q"
    and "bk_fs t = f" "bk_files t = bk_files s @ [b]" "bk_skipped t = bk_skipped s"
  shows "copied X f0 out (insert name N) (insert name S) t"
proof -
  have "saved X f0 out f b'" if "b' \<in> set (bk_files s)" "bf_name b' \<noteq> ''raft_data''" for b'
  proof -
    have "bf_name b' \<in> N" "saved X f0 out (bk_fs s) b'"
      using that assms(1) unfolding copied_def by auto
    moreover have "bf_name b' \<noteq> name" "backup_name_ok (bf_name b')"
      using calculation(1) assms(1,2) unfolding copied_def by auto
    ultimately show ?thesis
      using assms(6) [of "(out, bf_name b')"] by (simp add: saved_def)
  qed
  then show ?thesis
    using assms unfolding copied_def by (auto simp: image_iff)
qed

lemma copy_file_copied:
  assumes "name \<notin> N" "backup_name_ok name" "\<not> prefix out (fst (path_of source))"
  shows "yields (copied X f0 out N S) (copy_file X I source out name) (copied X f0 out (insert name N) (insert name S))"
  unfolding yields_def
proof (intro allI impI)
  fix s u t assume c: "copied X f0 out N S s" and run: "copy_file X I source out name s = (Inr u, t)"
  obtain d s1 s2 where r: "bk_read I (path_of source) s = (Inr d, s1)" "bk_write I (out, name) d s1 = (Inr (), s2)"
    and t: "t = s2\<lparr>bk_files := bk_files s2 @ [\<lparr>bf_name = name, bf_source = source, bf_bytes = of_nat (length d),
      bf_sha256 = hash_bytes X d, bf_mode = ''0600''\<rparr>]\<rparr>"
    using run by (auto simp: copy_file_def act_defs push_file_def split: prod.splits sum.splits)
  note rd = bk_read_ok [OF r(1)] and wr = bk_write_ok [OF r(2) disjI1 [OF assms(2)]]
  obtain g where "fs_files f0 (path_of source) = Some g" "d = f_data g"
    using rd(1) c assms(3) unfolding copied_def by metis
  then have "saved X f0 out (bk_fs s2) \<lparr>bf_name = name, bf_source = source, bf_bytes = of_nat (length d),
      bf_sha256 = hash_bytes X d, bf_mode = ''0600''\<rparr>"
    using wr(1) by (simp add: saved_def)
  then show "copied X f0 out (insert name N) (insert name S) t"
    using rd(2-4) wr(2-4)
    by (intro copied_insert [OF c assms(1,2)]) (auto simp: t)
qed

lemma skip_copied:
  "name \<notin> N \<Longrightarrow> backup_name_ok name \<Longrightarrow> yields (copied X f0 out N S) (push_skipped name) (copied X f0 out (insert name N) S)"
  unfolding yields_def by (auto simp: push_skipped_def copied_def)

lemma copied_fewer: "copied X f0 out N S s \<Longrightarrow> S' \<subseteq> S \<Longrightarrow> copied X f0 out N S' s"
  unfolding copied_def by blast

lemma yields_at: "yields P m Q \<Longrightarrow> P s \<Longrightarrow> yields (\<lambda>t. t = s) m Q"
  unfolding yields_def by blast

lemma copy_one_copied:
  assumes "name \<notin> N" "backup_name_ok name" "\<not> prefix out (fst (path_of source))"
  shows "yields (copied X f0 out N S) (copy_required X I source out name) (copied X f0 out (insert name N) (insert name S))"
    "yields (copied X f0 out N S) (copy_optional X I source out name) (copied X f0 out (insert name N) S)"
  unfolding copy_required_def copy_optional_def
  using copied_fewer [OF _ subset_insertI]
  by (auto intro!: yields_state yields_fail yields_at [OF copy_file_copied [OF assms]] yields_at [OF skip_copied [OF assms(1,2)]]
      yields_weaken [OF copy_file_copied [OF assms], of _ X f0 S])


lemma copy_authority_copied:
  assumes "''authority.key'' \<notin> N" "\<not> prefix out (fst (path_of (sc_authority_key_path cfg)))"
  shows "yields (copied X f0 out N S) (copy_authority X I cfg out)
    (copied X f0 out (insert ''authority.key'' N) (if cc_enabled (sc_cluster cfg) then insert ''authority.key'' S else S))"
proof -
  have ok: "backup_name_ok ''authority.key''"
    by (simp add: backup_name_ok_def)
  have "yields (\<lambda>t. t = s) (copy_file X I (sc_authority_key_path cfg) out ''authority.key'')
      (copied X f0 out (insert ''authority.key'' N) (if cc_enabled (sc_cluster cfg) then insert ''authority.key'' S else S))"
    if "copied X f0 out N S s" for s
    by (rule yields_weaken [OF yields_at [OF copy_file_copied [OF assms(1) ok assms(2)] that]]) (auto elim: copied_fewer)
  then show ?thesis
    unfolding copy_authority_def by (auto intro!: yields_state yields_fail yields_at [OF skip_copied [OF assms(1) ok]])
qed

lemma copy_raft_data_copied:
  assumes "''raft_data'' \<notin> N" "''raft.redb'' \<notin> N" "\<not> prefix out (fst (path_of data))"
  shows "yields (copied X f0 out N S) (copy_raft_data X n I ls data out)
    (\<lambda>t. \<exists>name \<in> {''raft_data'', ''raft.redb''}. copied X f0 out (insert name N) S t)"
proof -
  have ok: "backup_name_ok ''raft_data''" "backup_name_ok ''raft.redb''"
    by (simp_all add: backup_name_ok_def)
  have dir: "yields (copied X f0 out N S) m (copied X f0 out N S)" if "keeps (below (out @ [''raft_data''])) m" for m :: "'a backup"
    by (rule yields_keeps [OF that]) (auto elim: copied_below)
  have listed: "yields (copied X f0 out N S) (push_file \<lparr>bf_name = ''raft_data'', bf_source = data, bf_bytes = b, bf_sha256 = h, bf_mode = m\<rparr>)
      (copied X f0 out (insert ''raft_data'' N) (insert ''raft_data'' S))" for b h m
    unfolding yields_def by (auto simp: push_file_def intro!: copied_insert [OF _ assms(1) ok(1)])
  have "yields (copied X f0 out N S)
     (seqE (copy_dir_all n I ls (components data) (out @ [''raft_data''])) (\<lambda>_.
       seqE (set_dir_mode I (out @ [''raft_data''])) (\<lambda>_.
       seqE (hash_tree X n I ls (out @ [''raft_data''])) (\<lambda>(bytes, sha256).
       push_file \<lparr>bf_name = ''raft_data'', bf_source = data, bf_bytes = bytes, bf_sha256 = sha256, bf_mode = ''0700''\<rparr>))))
     (copied X f0 out (insert ''raft_data'' N) (insert ''raft_data'' S))"
    using listed by (intro yields_seqE [OF dir] keeps_copy_dir keeps_bk_steps keeps_hash_tree) (auto split: prod.split)
  note steps = yields_weaken [OF yields_at [OF this]] yields_weaken [OF yields_at [OF copy_file_copied [OF assms(2) ok(2) assms(3)]]]
    yields_weaken [OF yields_at [OF skip_copied [OF assms(1) ok(1)]]]
  show ?thesis
    unfolding copy_raft_data_def Let_def
    by (rule yields_state, simp only: split: if_split, intro conjI impI)
      (rule steps; blast intro: copied_fewer)+
qed


text \<open>The names every backup decides, and those of a cluster member.\<close>

abbreviation plain_names :: "string set" where
  "plain_names \<equiv> {''config.toml'', ''authority.key'', ''auth_state.toml''}"

abbreviation cluster_names :: "string set" where
  "cluster_names \<equiv> {''raft_identity.key'', ''raft_seed_exchange.key''}"

definition backup_sources :: "service_config \<Rightarrow> string \<Rightarrow> string list" where
  "backup_sources cfg cfg_path = [cfg_path, sc_authority_key_path cfg, sc_state_path cfg, cc_identity_key_path (sc_cluster cfg),
     cc_seed_exchange_key_path (sc_cluster cfg), cc_data_path (sc_cluster cfg)]"

text \<open>After the copies: which names are decided and which are there.\<close>

definition all_copied :: "ext \<Rightarrow> fs \<Rightarrow> string list \<Rightarrow> service_config \<Rightarrow> bk_state \<Rightarrow> bool" where
  "all_copied X f0 out cfg s \<longleftrightarrow> (\<exists>N S. copied X f0 out N S s \<and> plain_names \<subseteq> N \<and> ''config.toml'' \<in> S \<and>
     (cc_enabled (sc_cluster cfg) \<longrightarrow> ''authority.key'' \<in> S \<and> cluster_names \<subseteq> N \<and> (''raft_data'' \<in> N \<or> ''raft.redb'' \<in> N)))"

lemma copy_all_copied:
  assumes "\<And>p. p \<in> set (backup_sources cfg cfg_path) \<Longrightarrow> \<not> prefix out (fst (path_of p))"
  shows "yields (copied X f0 out {} {}) (copy_all X n I ls cfg cfg_path out) (all_copied X f0 out cfg)"
proof -
  have ok: "backup_name_ok ''config.toml''" "backup_name_ok ''auth_state.toml''" "backup_name_ok ''raft_identity.key''"
    "backup_name_ok ''raft_seed_exchange.key''"
    by (simp_all add: backup_name_ok_def)
  have src: "\<not> prefix out (fst (path_of cfg_path))" "\<not> prefix out (fst (path_of (sc_authority_key_path cfg)))"
    "\<not> prefix out (fst (path_of (sc_state_path cfg)))" "\<not> prefix out (fst (path_of (cc_identity_key_path (sc_cluster cfg))))"
    "\<not> prefix out (fst (path_of (cc_seed_exchange_key_path (sc_cluster cfg))))" "\<not> prefix out (fst (path_of (cc_data_path (sc_cluster cfg))))"
    by (intro assms; simp add: backup_sources_def)+
  let ?S = "if cc_enabled (sc_cluster cfg) then {''authority.key'', ''config.toml''} else {''config.toml''}"
  let ?N = "{''auth_state.toml'', ''authority.key'', ''config.toml''}"
  have cluster: "yields (copied X f0 out ?N ?S)
     (seqE (copy_optional X I (cc_identity_key_path (sc_cluster cfg)) out ''raft_identity.key'') (\<lambda>_.
      seqE (copy_optional X I (cc_seed_exchange_key_path (sc_cluster cfg)) out ''raft_seed_exchange.key'') (\<lambda>_.
      copy_raft_data X n I ls (cc_data_path (sc_cluster cfg)) out)))
     (\<lambda>t. \<exists>name \<in> {''raft_data'', ''raft.redb''}. copied X f0 out (insert name (insert ''raft_seed_exchange.key'' (insert ''raft_identity.key'' ?N))) ?S t)"
    by (intro yields_seqE [OF copy_one_copied(2)] copy_raft_data_copied ok src) simp_all
  have rest: "yields (copied X f0 out ?N ?S)
     (if cc_enabled (sc_cluster cfg) then
       seqE (copy_optional X I (cc_identity_key_path (sc_cluster cfg)) out ''raft_identity.key'') (\<lambda>_.
       seqE (copy_optional X I (cc_seed_exchange_key_path (sc_cluster cfg)) out ''raft_seed_exchange.key'') (\<lambda>_.
       copy_raft_data X n I ls (cc_data_path (sc_cluster cfg)) out))
      else ok ()) (all_copied X f0 out cfg)"
  proof (cases "cc_enabled (sc_cluster cfg)")
    case True
    have "all_copied X f0 out cfg t"
      if "name \<in> {''raft_data'', ''raft.redb''}" "copied X f0 out (insert name (insert ''raft_seed_exchange.key'' (insert ''raft_identity.key'' ?N))) ?S t" for name t
      unfolding all_copied_def by (intro exI conjI, rule that(2)) (use that(1) in \<open>auto simp: True\<close>)
    then show ?thesis
      unfolding if_P [OF True] by (intro yields_weaken [OF cluster [unfolded if_P [OF True]]]) auto
  next
    case False
    have "all_copied X f0 out cfg t" if "copied X f0 out ?N ?S t" for t
      unfolding all_copied_def by (intro exI conjI, rule that) (use False in auto)
    with False show ?thesis
      by (simp add: yields_def ok_def ret_def)
  qed
  show ?thesis
    unfolding copy_all_def
    by (intro yields_seqE [OF copy_one_copied(1) [OF _ ok(1) src(1)]] yields_seqE [OF copy_authority_copied [OF _ src(2)]]
        yields_seqE [OF copy_one_copied(2) [OF _ ok(2) src(3)]] rest) simp_all
qed


lemma manifest_summary_get:
  assumes "distinct (map bf_name (br_files r))" "b \<in> set (br_files r)"
  shows "bt_get (manifest_summary r) (bf_name b) = Some (bf_sha256 b)"
proof -
  have "bt_get (fold (\<lambda>b m. bt_insert (bf_name b) (bf_sha256 b) m) bs m) (bf_name b) = Some (bf_sha256 b)"
    if "distinct (map bf_name bs)" "b \<in> set bs \<or> bf_name b \<notin> bf_name ` set bs \<and> bt_get m (bf_name b) = Some (bf_sha256 b)" for bs m
    using that by (induction bs arbitrary: m) (auto simp: image_iff bt_simps)
  then show ?thesis
    using assms by (simp add: manifest_summary_def)
qed

lemma all_copied_kept:
  assumes "all_copied X f0 out cfg s" "bk_files t = bk_files s" "bk_skipped t = bk_skipped s"
    and "\<And>q. \<not> prefix out (fst q) \<or> fst q = out \<and> backup_name_ok (snd q) \<Longrightarrow> fs_files (bk_fs t) q = fs_files (bk_fs s) q"
  shows "all_copied X f0 out cfg t"
proof -
  obtain N S where c: "copied X f0 out N S s" "plain_names \<subseteq> N" "''config.toml'' \<in> S"
    "cc_enabled (sc_cluster cfg) \<longrightarrow> ''authority.key'' \<in> S \<and> cluster_names \<subseteq> N \<and> (''raft_data'' \<in> N \<or> ''raft.redb'' \<in> N)"
    using assms(1) unfolding all_copied_def by (elim exE conjE)
  have "saved X f0 out (bk_fs t) b" if "b \<in> set (bk_files s)" "saved X f0 out (bk_fs s) b" for b
  proof -
    have "backup_name_ok (bf_name b)"
      using c(1) that(1) unfolding copied_def by blast
    then show ?thesis
      using that(2) assms(4) [of "(out, bf_name b)"] by (simp add: saved_def)
  qed
  then have "copied X f0 out N S t"
    using c(1) assms(2-4) unfolding copied_def by auto
  then show ?thesis
    unfolding all_copied_def by (intro exI conjI, assumption) (rule c)+
qed

lemma below_all:
  assumes "\<And>d. below d s t"
  shows "fs_files (bk_fs t) q = fs_files (bk_fs s) q" "bk_files t = bk_files s" "bk_skipped t = bk_skipped s"
proof -
  have "\<not> prefix (fst q @ [[]]) (fst q)"
    by (metis append_self_conv not_Cons_self2 prefixI prefix_order.antisym)
  then show "fs_files (bk_fs t) q = fs_files (bk_fs s) q" "bk_files t = bk_files s" "bk_skipped t = bk_skipped s"
    using assms [of "fst q @ [[]]"] unfolding below_def by blast+
qed

lemma keeps_prepare_output: "keeps (below d) (prepare_output I ls output force)"
  unfolding prepare_output_def Let_def by (intro bk_keeps)

lemma create_backup_steps:
  assumes "create_backup X n I ls pretty now cfg cfg_path output force s = (Inr report, t)"
  obtains s1 s2 s3 pk m where "prepare_output I ls output force s = (Inr (), s1)"
    "copy_all X n I ls cfg cfg_path (components output) s1 = (Inr (), s2)" "backup_public_key X I cfg s2 = (Inr pk, s3)"
    "pretty (backup_report_sval report) = Some m" "bk_write I (components output, MANIFEST_NAME) m s3 = (Inr (), t)"
    "br_files report = bk_files s3" "br_skipped report = bk_skipped s3" "\<not> br_admin_private_keys_included report"
  using assms unfolding create_backup_def Let_def
  by (elim seqE_InrE; simp add: seq_def gets_def of_opt_def ok_def ret_def fail_def split: option.splits; elim seqE_InrE)
    (auto simp: ok_def ret_def)

text \<open>
  C21: A backup holds what its manifest says. When a backup succeeds and its sources are not in the output directory, every file
  listed but the directory of Raft data is the source as it was, readable by its owner only, with the size and SHA-256 hash of the manifest; the
  configuration, and in a cluster the authority key, are there; every other file of a voter is listed or named as skipped, none
  twice; nothing outside the output directory changed; and the manifest is the printed report, which looks up each name's hash
  and claims no administrator keys.
\<close>

theorem backup_holds_manifest:
  assumes "create_backup X n I ls pretty now cfg cfg_path output force (backup_start f) = (Inr report, t)"
    and "out = components output" "\<forall>p \<in> set (backup_sources cfg cfg_path). \<not> prefix out (fst (path_of p))"
  shows "(\<forall>b \<in> set (br_files report). (bf_name b \<noteq> ''raft_data'' \<longrightarrow> saved X f out (bk_fs t) b) \<and>
      bt_get (manifest_summary report) (bf_name b) = Some (bf_sha256 b)) \<and>
    distinct (map bf_name (br_files report)) \<and> ''config.toml'' \<in> bf_name ` set (br_files report) \<and>
    plain_names \<subseteq> bf_name ` set (br_files report) \<union> set (br_skipped report) \<and>
    (cc_enabled (sc_cluster cfg) \<longrightarrow> ''authority.key'' \<in> bf_name ` set (br_files report) \<and>
      cluster_names \<subseteq> bf_name ` set (br_files report) \<union> set (br_skipped report) \<and>
      (''raft_data'' \<in> bf_name ` set (br_files report) \<union> set (br_skipped report) \<or> ''raft.redb'' \<in> bf_name ` set (br_files report) \<union> set (br_skipped report))) \<and>
    (\<forall>q. \<not> prefix out (fst q) \<longrightarrow> fs_files (bk_fs t) q = fs_files f q) \<and> \<not> br_admin_private_keys_included report \<and>
    (\<exists>m. pretty (backup_report_sval report) = Some m \<and> fs_files (bk_fs t) (out, MANIFEST_NAME) = Some \<lparr>f_data = m, f_mode = 0x180\<rparr>)"
proof -
  obtain s1 s2 s3 pk m where run: "copy_all X n I ls cfg cfg_path out s1 = (Inr (), s2)" "backup_public_key X I cfg s2 = (Inr pk, s3)"
      "pretty (backup_report_sval report) = Some m" "bk_write I (out, MANIFEST_NAME) m s3 = (Inr (), t)"
    and start: "prepare_output I ls output force (backup_start f) = (Inr (), s1)"
    and report: "br_files report = bk_files s3" "br_skipped report = bk_skipped s3" "\<not> br_admin_private_keys_included report"
    using create_backup_steps [OF assms(1)] unfolding assms(2) by metis
  have "copied X f out {} {} s1"
    using below_all [OF keepsD [OF keeps_prepare_output start]] by (simp add: copied_def backup_start_def)
  then have "all_copied X f out cfg s2"
    using copy_all_copied [of cfg cfg_path out] assms(3) run(1) unfolding yields_def by blast
  then have s3: "all_copied X f out cfg s3"
    by (rule all_copied_kept) (rule below_all [OF keepsD [OF keeps_bk_steps(5) run(2)]])+
  note last_write = bk_write_ok [OF run(4) disjI2 [OF refl]]
  have "all_copied X f out cfg t"
    by (rule all_copied_kept [OF s3 last_write(2,3)]) (auto simp: backup_name_ok_def intro: last_write(4))
  then obtain N S where c: "copied X f out N S t" "plain_names \<subseteq> N" "''config.toml'' \<in> S"
    "cc_enabled (sc_cluster cfg) \<longrightarrow> ''authority.key'' \<in> S \<and> cluster_names \<subseteq> N \<and> (''raft_data'' \<in> N \<or> ''raft.redb'' \<in> N)"
    unfolding all_copied_def by (elim exE conjE)
  from c(1) have names: "distinct (map bf_name (br_files report))" "N = bf_name ` set (br_files report) \<union> set (br_skipped report)"
    "S \<subseteq> bf_name ` set (br_files report)" "\<forall>b \<in> set (br_files report). bf_name b \<noteq> ''raft_data'' \<longrightarrow> saved X f out (bk_fs t) b"
    "\<forall>q. \<not> prefix out (fst q) \<longrightarrow> fs_files (bk_fs t) q = fs_files f q"
    unfolding copied_def last_write(2,3) report(1,2) [symmetric] by simp_all
  let ?names = "bf_name ` set (br_files report)"
  show ?thesis
  proof (intro conjI)
    show "\<forall>b \<in> set (br_files report). (bf_name b \<noteq> ''raft_data'' \<longrightarrow> saved X f out (bk_fs t) b) \<and>
        bt_get (manifest_summary report) (bf_name b) = Some (bf_sha256 b)"
      using names(4) manifest_summary_get [OF names(1)] by simp
    show "cc_enabled (sc_cluster cfg) \<longrightarrow> ''authority.key'' \<in> ?names \<and> cluster_names \<subseteq> ?names \<union> set (br_skipped report) \<and>
        (''raft_data'' \<in> ?names \<union> set (br_skipped report) \<or> ''raft.redb'' \<in> ?names \<union> set (br_skipped report))"
      using c(4) subsetD [OF names(3)] unfolding names(2) by (elim impCE conjE) simp_all
    show "\<exists>m. pretty (backup_report_sval report) = Some m \<and> fs_files (bk_fs t) (out, MANIFEST_NAME) = Some \<lparr>f_data = m, f_mode = 0x180\<rparr>"
      using run(3) last_write(1) by blast
    show "''config.toml'' \<in> ?names" "plain_names \<subseteq> ?names \<union> set (br_skipped report)"
      using subsetD [OF names(3) c(3)] c(2) unfolding names(2) by (simp_all only:)
  qed (rule names report)+
qed


section \<open>A backup succeeds\<close>

text \<open>What an action does from every state of \<open>P\<close>: it succeeds, with a result and a state of \<open>Q\<close>.\<close>

definition runs :: "('s \<Rightarrow> bool) \<Rightarrow> ('s, 'x + 'a) act \<Rightarrow> ('a \<Rightarrow> 's \<Rightarrow> bool) \<Rightarrow> bool" where
  "runs P m Q \<longleftrightarrow> (\<forall>s. P s \<longrightarrow> (\<exists>a t. m s = (Inr a, t) \<and> Q a t))"

lemma runs_seqE: "runs P m Q \<Longrightarrow> (\<And>a. runs (Q a) (k a) R) \<Longrightarrow> runs P (seqE m k) R"
  unfolding runs_def by (fastforce simp: seqE_simp)

lemma runs_state: "(\<And>s. P s \<Longrightarrow> runs (\<lambda>t. t = s) (k (f s)) Q) \<Longrightarrow> runs P (seq (gets f) k) Q"
  unfolding runs_def by (auto simp: seq_def gets_def)

lemma runs_at: "runs P m Q \<Longrightarrow> P s \<Longrightarrow> runs (\<lambda>t. t = s) m Q"
  unfolding runs_def by blast

lemma runs_ok: "(\<And>s. P s \<Longrightarrow> Q a s) \<Longrightarrow> runs P (ok a) Q"
  by (simp add: runs_def ok_def ret_def)

lemma runs_for_each: "(\<And>x. runs P (body x) (\<lambda>_. P)) \<Longrightarrow> runs P (for_each xs body) (\<lambda>_. P)"
  by (induction xs) (auto intro: runs_ok runs_seqE)

text \<open>
  A tree that is copied: the source below \<open>src\<close> is that of \<open>f0\<close>, no directory is \<open>n\<close> or more levels below \<open>src\<close> or \<open>dst\<close>, and
  neither of the two is inside the other.
\<close>

definition copying :: "fs \<Rightarrow> nat \<Rightarrow> string list \<Rightarrow> string list \<Rightarrow> bk_state \<Rightarrow> bool" where
  "copying f0 n src dst s \<longleftrightarrow> \<not> prefix src dst \<and> \<not> prefix dst src \<and>
     (\<forall>d. prefix src d \<longrightarrow> fs_dirs (bk_fs s) d = fs_dirs f0 d \<and> (\<forall>name. fs_files (bk_fs s) (d, name) = fs_files f0 (d, name))) \<and>
     (\<forall>ds. fs_dirs f0 (src @ ds) \<or> fs_dirs (bk_fs s) (dst @ ds) \<longrightarrow> length ds < n)"

lemma take_prefix: "q = take (length q) d \<longleftrightarrow> prefix q d"
  by (metis append_eq_conv_conj prefix_def take_is_prefix)

lemma atomic_write_runs:
  "fst (atomic_write io_fine p d (Some m) f) = Inr ()"
  "fs_dirs (snd (atomic_write io_fine p d (Some m) f)) q \<longleftrightarrow> fs_dirs f q \<or> fst p \<noteq> [] \<and> prefix q (fst p)"
  by (auto simp: atomic_write_def io_fine_def fs_defs Let_def take_prefix)

lemma copying_dirs:
  assumes "copying f0 n src dst s" "length es < n" "\<And>q. fs_dirs (bk_fs t) q \<Longrightarrow> fs_dirs (bk_fs s) q \<or> prefix q (dst @ es)"
    and "\<And>q. fs_dirs (bk_fs s) q \<Longrightarrow> fs_dirs (bk_fs t) q"
    and "\<And>q. fst q \<noteq> dst @ es \<Longrightarrow> fs_files (bk_fs t) q = fs_files (bk_fs s) q"
  shows "copying f0 n src dst t"
proof -
  have parted: "\<not> prefix src (dst @ es)"
    using assms(1) unfolding copying_def by (metis append_eq_append_conv2 prefix_def)
  have "fs_dirs (bk_fs t) d = fs_dirs (bk_fs s) d" "fs_files (bk_fs t) (d, name) = fs_files (bk_fs s) (d, name)" if "prefix src d" for d name
    using that parted assms(3,4) [of d] assms(5) [of "(d, name)"] prefix_order.trans by (blast, auto)
  moreover have "length ds < n" if "fs_dirs (bk_fs t) (dst @ ds)" for ds
    using assms(3) [OF that] assms(1,2) prefix_length_le unfolding copying_def by fastforce
  ultimately show ?thesis
    using assms(1) unfolding copying_def by auto
qed


text \<open>The single steps when no call fails.\<close>

abbreviation fine :: "nat \<Rightarrow> io" where
  "fine \<equiv> \<lambda>_. io_fine"

definition copying_in :: "fs \<Rightarrow> nat \<Rightarrow> string list \<Rightarrow> string list \<Rightarrow> bk_state \<Rightarrow> bool" where
  "copying_in f0 n src dst s \<longleftrightarrow> copying f0 n src dst s \<and> fs_dirs (bk_fs s) dst"

lemma mkdir_runs:
  assumes "length es < n"
  shows "runs (copying f0 n src dst) (bk_call fine (\<lambda>e. create_dir_all e (dst @ es))) (\<lambda>_. copying_in f0 n src dst)"
  unfolding runs_def
proof (intro allI impI)
  fix s assume c: "copying f0 n src dst s"
  let ?t = "s\<lparr>bk_fs := bk_fs s\<lparr>fs_dirs := (\<lambda>q. fs_dirs (bk_fs s) q \<or> prefix q (dst @ es))\<rparr>, bk_calls := Suc (bk_calls s)\<rparr>"
  have "bk_call fine (\<lambda>e. create_dir_all e (dst @ es)) s = (Inr (), ?t)"
    by (simp add: bk_call_def create_dir_all_def io_fine_def take_prefix del: take_append)
  moreover have "copying_in f0 n src dst ?t"
    unfolding copying_in_def by (intro conjI copying_dirs [OF c assms]) auto
  ultimately show "\<exists>a t. bk_call fine (\<lambda>e. create_dir_all e (dst @ es)) s = (Inr a, t) \<and> copying_in f0 n src dst t"
    by blast
qed

lemma copy_data_runs:
  assumes "length es < n" "path_is_file (bk_fs s) (src @ es, name)" "copying_in f0 n src dst s"
  shows "runs (\<lambda>t. t = s) (seqE (bk_read fine (src @ es, name)) (\<lambda>d. bk_write fine (dst @ es, name) d)) (\<lambda>_. copying_in f0 n src dst)"
proof -
  obtain g where g: "fs_files (bk_fs s) (src @ es, name) = Some g"
    using assms(2) by (auto simp: path_is_file_def)
  let ?f = "snd (atomic_write io_fine (dst @ es, name) (f_data g) (Some 0x180) (bk_fs s))"
  have "seqE (bk_read fine (src @ es, name)) (\<lambda>d. bk_write fine (dst @ es, name) d) s = (Inr (), s\<lparr>bk_fs := ?f, bk_calls := bk_calls s + 2\<rparr>)"
    using g atomic_write_runs(1) [of "(dst @ es, name)" "f_data g" "0x180" "bk_fs s"]
    by (simp add: seqE_simp bk_read_def bk_write_def bk_call_def fs_read_def io_fine_def case_prod_beta)
  moreover have "fs_files ?f q = fs_files (bk_fs s) q" if "fst q \<noteq> dst @ es" for q
    using that by (intro atomic_write_frame) (auto simp: with_extension_def)
  then have "copying f0 n src dst (s\<lparr>bk_fs := ?f, bk_calls := bk_calls s + 2\<rparr>)"
    by (intro copying_dirs [OF assms(3) [unfolded copying_in_def, THEN conjunct1] assms(1)])
      (simp_all add: atomic_write_runs(2) disj_imp)
  then have "copying_in f0 n src dst (s\<lparr>bk_fs := ?f, bk_calls := bk_calls s + 2\<rparr>)"
    using assms(3) by (simp add: copying_in_def atomic_write_runs(2))
  ultimately show ?thesis
    by (simp add: runs_def)
qed

lemma quiet_runs:
  "runs (copying_in f0 n src dst) (set_dir_mode fine d) (\<lambda>_. copying_in f0 n src dst)"
  "fs_dirs f0 (src @ es) \<Longrightarrow> runs (copying_in f0 n src dst) (read_dir fine ls (src @ es)) (\<lambda>_. copying_in f0 n src dst)"
  by (auto simp: runs_def set_dir_mode_def read_dir_def bk_call_def act_defs io_fine_def copying_in_def copying_def)

lemma copy_dir_runs:
  assumes "fs_dirs f0 (src @ es)" "n \<le> m + length es" "\<And>ds. fs_dirs f0 (src @ ds) \<Longrightarrow> length ds < n"
  shows "runs (copying f0 n src dst) (copy_dir_all m fine ls (src @ es) (dst @ es)) (\<lambda>_. copying_in f0 n src dst)"
  using assms(1,2)
proof (induction m arbitrary: es)
  case 0
  then show ?case
    using assms(3) [of es] by simp
next
  case (Suc m)
  have len: "length es < n"
    by (rule assms(3) [OF Suc.prems(1)])
  have dir: "runs (\<lambda>t. t = s) (copy_dir_all m fine ls ((src @ es) @ [name]) ((dst @ es) @ [name])) (\<lambda>_. copying_in f0 n src dst)"
    if "copying_in f0 n src dst s" "fs_dirs (bk_fs s) ((src @ es) @ [name])" for name s
  proof (rule runs_at)
    have "fs_dirs f0 (src @ es @ [name])" "n \<le> m + length (es @ [name])"
      using that Suc.prems(2) by (auto simp: copying_in_def copying_def)
    from Suc.IH [OF this] show "runs (copying f0 n src dst) (copy_dir_all m fine ls ((src @ es) @ [name]) ((dst @ es) @ [name])) (\<lambda>_. copying_in f0 n src dst)"
      by simp
    show "copying f0 n src dst s"
      using that(1) by (simp add: copying_in_def)
  qed
  have "runs (copying_in f0 n src dst) (seq (gets bk_fs) (\<lambda>f.
       if fs_dirs f ((src @ es) @ [name]) then copy_dir_all m fine ls ((src @ es) @ [name]) ((dst @ es) @ [name])
       else if path_is_file f (src @ es, name) then seqE (bk_read fine (src @ es, name)) (\<lambda>d. bk_write fine (dst @ es, name) d)
       else ok ())) (\<lambda>_. copying_in f0 n src dst)" for name
    by (rule runs_state) (simp only: split: if_split, intro conjI impI dir copy_data_runs [OF len] runs_ok; simp)
  then show ?case
    unfolding copy_dir_all.simps by (intro runs_seqE [OF mkdir_runs [OF len]] runs_seqE [OF quiet_runs(1)] runs_seqE [OF quiet_runs(2)] Suc.prems(1) runs_for_each)
qed


lemma bk_read_runs:
  "fs_files (bk_fs s) p = Some g \<Longrightarrow> runs (\<lambda>t. t = s) (bk_read fine p) (\<lambda>d t. d = f_data g \<and> bk_fs t = bk_fs s)"
  by (simp add: runs_def bk_read_def bk_call_def fs_read_def io_fine_def)

lemma runs_weaken: "runs P m Q \<Longrightarrow> (\<And>s. P' s \<Longrightarrow> P s) \<Longrightarrow> (\<And>a s. Q a s \<Longrightarrow> Q' a s) \<Longrightarrow> runs P' m Q'"
  unfolding runs_def by blast

lemma runs_split: "(\<And>s. P s \<Longrightarrow> runs (\<lambda>t. t = s) m Q) \<Longrightarrow> runs P m Q"
  unfolding runs_def by blast

lemma runs_concat:
  fixes g :: "fs \<Rightarrow> string \<Rightarrow> 'a list backup"
  assumes "\<And>name. runs (\<lambda>s. bk_fs s = f) (g f name) (\<lambda>xs s. bk_fs s = f \<and> Ball (set xs) R)"
  shows "runs (\<lambda>s. bk_fs s = f) (foldr (\<lambda>name rest. seq (gets bk_fs) (\<lambda>h. seqE (g h name) (\<lambda>xs. seqE rest (\<lambda>ys. ok (xs @ ys))))) names (ok []))
    (\<lambda>xs s. bk_fs s = f \<and> Ball (set xs) R)"
proof (induction names)
  case (Cons name names)
  let ?rest = "foldr (\<lambda>name rest. seq (gets bk_fs) (\<lambda>h. seqE (g h name) (\<lambda>xs. seqE rest (\<lambda>ys. ok (xs @ ys))))) names (ok [])"
  have "runs (\<lambda>s. bk_fs s = f \<and> Ball (set xs) R) (seqE ?rest (\<lambda>ys. ok (xs @ ys))) (\<lambda>xs s. bk_fs s = f \<and> Ball (set xs) R)" for xs
    using Cons.IH unfolding runs_def by (fastforce simp: seqE_simp ok_def ret_def)
  with assms have "runs (\<lambda>s. bk_fs s = f) (seqE (g f name) (\<lambda>xs. seqE ?rest (\<lambda>ys. ok (xs @ ys)))) (\<lambda>xs s. bk_fs s = f \<and> Ball (set xs) R)"
    by (rule runs_seqE)
  then show ?case
    unfolding foldr_Cons comp_def by (intro runs_state) (auto intro: runs_at)
qed (simp add: runs_ok)

lemma collect_runs:
  assumes "fs_dirs f (root @ rel)" "n \<le> m + length rel" "\<And>ds. fs_dirs f (root @ ds) \<Longrightarrow> length ds < n"
  shows "runs (\<lambda>s. bk_fs s = f) (collect_files m fine ls root rel) (\<lambda>fs s. bk_fs s = f \<and> (\<forall>(r, p) \<in> set fs. fs_files f p \<noteq> None))"
  using assms(1,2)
proof (induction m arbitrary: rel)
  case 0
  then show ?case
    using assms(3) [of rel] by simp
next
  case (Suc m)
  let ?Q = "\<lambda>fs s. bk_fs s = f \<and> (\<forall>(r, p) \<in> set fs. fs_files f p \<noteq> None)"
  let ?g = "\<lambda>g name. if fs_dirs g (root @ rel @ [name]) then collect_files m fine ls root (rel @ [name])
      else if path_is_file g (root @ rel, name) then ok [(join_with ''/'' (rel @ [name]), (root @ rel, name))] else ok []"
  have "runs (\<lambda>s. bk_fs s = f) (?g f name) ?Q" for name
    using Suc.IH [of "rel @ [name]"] Suc.prems(2) by (auto simp: path_is_file_def intro: runs_ok)
  from runs_concat [where g = ?g, OF this] have "runs (\<lambda>s. bk_fs s = f)
    (foldr (\<lambda>name rest. seq (gets bk_fs) (\<lambda>g. seqE (?g g name) (\<lambda>fs. seqE rest (\<lambda>fs'. ok (fs @ fs'))))) names (ok [])) ?Q" for names .
  moreover have "runs (\<lambda>s. bk_fs s = f) (read_dir fine ls (root @ rel)) (\<lambda>_ s. bk_fs s = f)"
    using Suc.prems(1) by (auto simp: runs_def read_dir_def bk_call_def io_fine_def)
  ultimately show ?case
    unfolding collect_files.simps by (rule runs_seqE [rotated])
qed

lemma hash_files_runs:
  "\<forall>(r, p) \<in> set fs. fs_files f p \<noteq> None \<Longrightarrow> runs (\<lambda>s. bk_fs s = f) (hash_files X fine fs b h) (\<lambda>_ s. bk_fs s = f)"
proof (induction fs arbitrary: b h)
  case (Cons x fs)
  then obtain r p g where x: "x = (r, p)" "fs_files f p = Some g"
    by (cases x) auto
  have "runs (\<lambda>s. bk_fs s = f) (bk_read fine p) (\<lambda>_ s. bk_fs s = f)"
    using x(2) by (auto simp: runs_def bk_read_def bk_call_def fs_read_def io_fine_def)
  with Cons show ?case
    by (auto simp: x(1) intro: runs_seqE)
qed (simp add: runs_ok)

lemma hash_tree_runs:
  assumes "fs_dirs f root" "\<And>ds. fs_dirs f (root @ ds) \<Longrightarrow> length ds < n"
  shows "runs (\<lambda>s. bk_fs s = f) (hash_tree X n fine ls root) (\<lambda>_ s. bk_fs s = f)"
  unfolding hash_tree_def
proof (rule runs_seqE [OF collect_runs [of f root "[]" n n]])
  fix fs :: "(string \<times> path) list"
  have "runs (\<lambda>s. bk_fs s = f) (seqE (hash_files X fine (sort_key fst fs) 0 []) (\<lambda>(bytes, hashed). ok (bytes, hash_bytes X hashed))) (\<lambda>_ s. bk_fs s = f)"
    if "\<forall>(r, p) \<in> set fs. fs_files f p \<noteq> None"
    using that by (intro runs_seqE [OF hash_files_runs]) (auto intro: runs_ok split: prod.split)
  then show "runs (\<lambda>s. bk_fs s = f \<and> (\<forall>(r, p) \<in> set fs. fs_files f p \<noteq> None))
      (seqE (hash_files X fine (sort_key fst fs) 0 []) (\<lambda>(bytes, hashed). ok (bytes, hash_bytes X hashed))) (\<lambda>_ s. bk_fs s = f)"
    by (auto simp: runs_def)
qed (use assms in simp_all)


text \<open>During a backup from \<open>f\<close> the files outside the output directory stay, and the only new directories are above it.\<close>

definition backing :: "fs \<Rightarrow> string list \<Rightarrow> bk_state \<Rightarrow> bool" where
  "backing f out s \<longleftrightarrow> (\<forall>q. \<not> prefix out (fst q) \<longrightarrow> fs_files (bk_fs s) q = fs_files f q) \<and>
     (\<forall>d. fs_dirs f d \<longrightarrow> fs_dirs (bk_fs s) d) \<and> (\<forall>d. fs_dirs (bk_fs s) d \<longrightarrow> fs_dirs f d \<or> prefix d out)"

lemma write_backs: "runs (backing f out) (bk_write fine (out, name) d) (\<lambda>_. backing f out)"
  unfolding runs_def
proof (intro allI impI)
  fix s assume s: "backing f out s"
  let ?f = "snd (atomic_write io_fine (out, name) d (Some 0x180) (bk_fs s))"
  have "bk_write fine (out, name) d s = (Inr (), s\<lparr>bk_fs := ?f, bk_calls := Suc (bk_calls s)\<rparr>)"
    using atomic_write_runs(1) [of "(out, name)" d "0x180" "bk_fs s"] by (simp add: bk_write_def bk_call_def case_prod_beta)
  moreover have "fs_files ?f q = fs_files (bk_fs s) q" if "\<not> prefix out (fst q)" for q
    using that by (intro atomic_write_frame) (auto simp: with_extension_def)
  then have "backing f out (s\<lparr>bk_fs := ?f, bk_calls := Suc (bk_calls s)\<rparr>)"
    using s by (auto simp: backing_def atomic_write_runs(2))
  ultimately show "\<exists>a t. bk_write fine (out, name) d s = (Inr a, t) \<and> backing f out t"
    by blast
qed

lemma copy_file_backs:
  assumes "backing f out s" "path_is_file (bk_fs s) (path_of source)"
  shows "runs (\<lambda>t. t = s) (copy_file X fine source out name) (\<lambda>_. backing f out)"
proof -
  obtain g where "fs_files (bk_fs s) (path_of source) = Some g"
    using assms(2) by (auto simp: path_is_file_def)
  then have "runs (\<lambda>t. t = s) (bk_read fine (path_of source)) (\<lambda>_. backing f out)"
    by (rule runs_weaken [OF bk_read_runs]) (use assms(1) in \<open>auto simp: backing_def\<close>)
  moreover have "runs (backing f out) (push_file b) (\<lambda>_. backing f out)" for b
    by (simp add: runs_def push_file_def backing_def)
  ultimately show ?thesis
    unfolding copy_file_def by (blast intro: runs_seqE write_backs)
qed

lemma skip_backs: "runs (backing f out) (push_skipped name) (\<lambda>_. backing f out)"
  by (simp add: runs_def push_skipped_def backing_def)

lemma backing_file: "backing f out s \<Longrightarrow> \<not> prefix out (fst p) \<Longrightarrow> path_is_file (bk_fs s) p = path_is_file f p"
  by (cases p) (simp add: backing_def path_is_file_def)

lemma copies_back:
  "path_is_file f (path_of source) \<Longrightarrow> \<not> prefix out (fst (path_of source)) \<Longrightarrow>
     runs (backing f out) (copy_required X fine source out name) (\<lambda>_. backing f out)"
  "runs (backing f out) (copy_optional X fine source out name) (\<lambda>_. backing f out)"
  "cc_enabled (sc_cluster cfg) \<longrightarrow> path_is_file f (path_of (sc_authority_key_path cfg)) \<Longrightarrow>
     \<not> prefix out (fst (path_of (sc_authority_key_path cfg))) \<Longrightarrow> runs (backing f out) (copy_authority X fine cfg out) (\<lambda>_. backing f out)"
  unfolding copy_required_def copy_optional_def copy_authority_def
  by (intro runs_state; auto simp: backing_file intro!: copy_file_backs runs_at [OF skip_backs])+

text \<open>The directories of the Raft data are at most \<open>n\<close> levels deep, and the copy is not inside them nor they inside it.\<close>

definition data_fits :: "nat \<Rightarrow> fs \<Rightarrow> string list \<Rightarrow> string list \<Rightarrow> bool" where
  "data_fits n f src dst \<longleftrightarrow> \<not> prefix src dst \<and> \<not> prefix dst src \<and> (\<forall>ds. fs_dirs f (src @ ds) \<or> fs_dirs f (dst @ ds) \<longrightarrow> length ds < n) \<and> 0 < n"

lemma copying_start:
  assumes "data_fits n f src (out @ [name])" "backing f out s"
  shows "copying (bk_fs s) n src (out @ [name]) s"
proof -
  have "length ds < n" if "fs_dirs (bk_fs s) (src @ ds) \<or> fs_dirs (bk_fs s) ((out @ [name]) @ ds)" for ds
  proof -
    have "\<not> prefix (src @ ds) out" "\<not> prefix ((out @ [name]) @ ds) out"
      using assms(1) prefix_length_le [of "(out @ [name]) @ ds" out] unfolding data_fits_def
      by (metis append_prefixD prefix_prefix) simp
    then show ?thesis
      using that assms unfolding data_fits_def backing_def by blast
  qed
  then show ?thesis
    using assms(1) unfolding copying_def data_fits_def by blast
qed

lemma raft_data_backs:
  assumes "data_fits n f (components data) (out @ [''raft_data''])"
  shows "runs (backing f out) (copy_raft_data X n fine ls data out) (\<lambda>_ _. True)"
proof -
  let ?src = "components data" and ?dst = "out @ [''raft_data'']"
  have "runs (\<lambda>t. t = s) (seqE (copy_dir_all n fine ls ?src ?dst) (\<lambda>_. seqE (set_dir_mode fine ?dst) (\<lambda>_. seqE (hash_tree X n fine ls ?dst) (\<lambda>(bytes, sha256).
      push_file \<lparr>bf_name = ''raft_data'', bf_source = data, bf_bytes = bytes, bf_sha256 = sha256, bf_mode = ''0700''\<rparr>)))) (\<lambda>_ _. True)"
    if s: "backing f out s" "fs_dirs (bk_fs s) ?src" for s
  proof (intro runs_seqE)
    have c: "copying (bk_fs s) n ?src ?dst s"
      by (rule copying_start [OF assms s(1)])
    have "runs (copying (bk_fs s) n ?src ?dst) (copy_dir_all n fine ls ?src ?dst) (\<lambda>_. copying_in (bk_fs s) n ?src ?dst)"
      using copy_dir_runs [of "bk_fs s" ?src "[]" n n ?dst ls] c s(2) by (simp add: copying_def)
    then show "runs (\<lambda>t. t = s) (copy_dir_all n fine ls ?src ?dst) (\<lambda>_. copying_in (bk_fs s) n ?src ?dst)"
      using c by (rule runs_at)
    show "runs (copying_in (bk_fs s) n ?src ?dst) (set_dir_mode fine ?dst) (\<lambda>_. copying_in (bk_fs s) n ?src ?dst)"
      by (rule quiet_runs)
    show "runs (copying_in (bk_fs s) n ?src ?dst) (hash_tree X n fine ls ?dst) (\<lambda>_ _. True)"
    proof (rule runs_split)
      fix t assume "copying_in (bk_fs s) n ?src ?dst t"
      then have "runs (\<lambda>s. bk_fs s = bk_fs t) (hash_tree X n fine ls ?dst) (\<lambda>_ s. bk_fs s = bk_fs t)"
        by (intro hash_tree_runs) (auto simp: copying_in_def copying_def)
      then show "runs (\<lambda>s. s = t) (hash_tree X n fine ls ?dst) (\<lambda>_ _. True)"
        by (rule runs_weaken) simp_all
    qed
  qed (auto simp: runs_def push_file_def)
  note dir = this
  have skip: "runs (\<lambda>t. t = s) (push_skipped name) (\<lambda>_ _. True)" for s name
    by (simp add: runs_def push_skipped_def)
  show ?thesis
    unfolding copy_raft_data_def Let_def
    by (rule runs_state) (auto intro: dir skip runs_weaken [OF copy_file_backs])
qed


lemma path_of_components: "components output \<noteq> [] \<Longrightarrow> fst (path_of output) @ [snd (path_of output)] = components output"
  by (simp add: path_of_def Let_def)

lemma prepare_runs:
  assumes "output \<noteq> []" "out = components output"
    and "out \<noteq> [] \<and> \<not> path_exists f (path_of output) \<or> fs_dirs f out \<and> (force \<or> ls f out = [])"
  shows "runs (\<lambda>s. s = backup_start f) (prepare_output fine ls output force) (\<lambda>_. backing f out)"
proof (cases "out = [] \<or> path_exists f (path_of output)")
  case True
  then have "fs_dirs f out" "force \<or> ls f out = []"
    using assms(3) by auto
  with True show ?thesis
    using assms(1) unfolding assms(2) [symmetric]
    by (auto simp: runs_def prepare_output_def assms(2) [symmetric] backup_start_def Let_def act_defs read_dir_def bk_call_def io_fine_def backing_def)
next
  case False
  then show ?thesis
    using assms(1)
    by (simp add: runs_def prepare_output_def assms(2) [symmetric] backup_start_def Let_def act_defs set_dir_mode_def create_dir_all_def bk_call_def
        io_fine_def backing_def take_prefix)
qed

lemma copy_all_runs:
  assumes "\<forall>p \<in> set (backup_sources cfg cfg_path). \<not> prefix out (fst (path_of p))" "path_is_file f (path_of cfg_path)"
    and "cc_enabled (sc_cluster cfg) \<longrightarrow> path_is_file f (path_of (sc_authority_key_path cfg)) \<and>
      data_fits n f (components (cc_data_path (sc_cluster cfg))) (out @ [''raft_data''])"
  shows "runs (backing f out) (copy_all X n fine ls cfg cfg_path out) (\<lambda>_ _. True)"
proof -
  have src: "\<not> prefix out (fst (path_of cfg_path))" "\<not> prefix out (fst (path_of (sc_authority_key_path cfg)))"
    using assms(1) by (auto simp: backup_sources_def)
  have "runs (backing f out) (if cc_enabled (sc_cluster cfg) then
       seqE (copy_optional X fine (cc_identity_key_path (sc_cluster cfg)) out ''raft_identity.key'') (\<lambda>_.
       seqE (copy_optional X fine (cc_seed_exchange_key_path (sc_cluster cfg)) out ''raft_seed_exchange.key'') (\<lambda>_.
       copy_raft_data X n fine ls (cc_data_path (sc_cluster cfg)) out))
     else ok ()) (\<lambda>_ _. True)"
    using assms(3) by (auto intro!: runs_seqE [OF copies_back(2)] raft_data_backs runs_ok)
  then show ?thesis
    unfolding copy_all_def using assms(3)
    by (intro runs_seqE [OF copies_back(1) [OF assms(2) src(1)]] runs_seqE [OF copies_back(3) [OF _ src(2)]] runs_seqE [OF copies_back(2)]) auto
qed

lemma create_backup_runs:
  assumes "output \<noteq> []" "out = components output"
    and "out \<noteq> [] \<and> \<not> path_exists f (path_of output) \<or> fs_dirs f out \<and> (force \<or> ls f out = [])"
    and "\<forall>p \<in> set (backup_sources cfg cfg_path). \<not> prefix out (fst (path_of p))" "path_is_file f (path_of cfg_path)"
    and "cc_enabled (sc_cluster cfg) \<longrightarrow> path_is_file f (path_of (sc_authority_key_path cfg)) \<and>
      data_fits n f (components (cc_data_path (sc_cluster cfg))) (out @ [''raft_data''])"
    and "\<And>r. pretty (backup_report_sval r) \<noteq> None"
  shows "\<exists>report t. create_backup X n fine ls pretty now cfg cfg_path output force (backup_start f) = (Inr report, t)"
proof -
  have key: "runs (\<lambda>_. True) (backup_public_key X fine cfg) (\<lambda>_ _. True)"
    by (auto simp: runs_def backup_public_key_def act_defs bk_call_def)
  have fin: "runs (\<lambda>_. True) (seqE (of_opt BE_Config (pretty (backup_report_sval r))) (\<lambda>m. seqE (bk_write fine (out, MANIFEST_NAME) m) (\<lambda>_. ok r))) (\<lambda>_ _. True)" for r
  proof -
    obtain m where "pretty (backup_report_sval r) = Some m"
      using assms(7) [of r] by auto
    moreover have "fst (bk_write fine (out, MANIFEST_NAME) m s) = Inr ()" for s
      using atomic_write_runs(1) [of "(out, MANIFEST_NAME)" m "0x180" "bk_fs s"] by (simp add: bk_write_def bk_call_def case_prod_beta)
    ultimately show ?thesis
      by (auto simp: runs_def act_defs split: prod.split sum.split) (metis Inl_Inr_False fst_conv)
  qed
  have "runs (\<lambda>s. s = backup_start f) (create_backup X n fine ls pretty now cfg cfg_path output force) (\<lambda>_ _. True)"
    unfolding create_backup_def Let_def assms(2) [symmetric]
    by (intro runs_seqE [OF prepare_runs [where ls = ls, OF assms(1-3)]] runs_seqE [OF copy_all_runs [OF assms(4-6)]] runs_seqE [OF key] runs_state)
      (auto intro: runs_at [OF fin])
  then show ?thesis
    by (auto simp: runs_def)
qed

text \<open>
  C24: A backup succeeds. When no system call fails, the output directory is new, empty or forced and apart from the sources, the
  configuration file is there and in a cluster also the authority key, the report can be printed, and the fuel exceeds the depth of the
  directories of the Raft data, then the backup ends with a report, whatever order directories are listed in.
\<close>

theorem backup_succeeds:
  assumes "output \<noteq> []" "out = components output"
    and "out \<noteq> [] \<and> \<not> path_exists f (path_of output) \<or> fs_dirs f out \<and> (force \<or> ls f out = [])"
    and "\<forall>p \<in> set (backup_sources cfg cfg_path). \<not> prefix out (fst (path_of p))" "path_is_file f (path_of cfg_path)"
    and "cc_enabled (sc_cluster cfg) \<longrightarrow> path_is_file f (path_of (sc_authority_key_path cfg)) \<and>
      data_fits n f (components (cc_data_path (sc_cluster cfg))) (out @ [''raft_data''])"
    and "\<And>r. pretty (backup_report_sval r) \<noteq> None"
  shows "\<exists>report t. create_backup X n (\<lambda>_. io_fine) ls pretty now cfg cfg_path output force (backup_start f) = (Inr report, t)"
  using assms by (rule create_backup_runs)


section \<open>A concrete backup\<close>

text \<open>A cluster member with its files in the current directory and Raft data in a directory.\<close>

definition demo_member_config :: service_config where
  "demo_member_config = (service_config_default (\<lambda>_. None))\<lparr>sc_network := ''net'',
     sc_cluster := (cluster_config_default (\<lambda>_. None))\<lparr>cc_enabled := True, cc_data_path := ''raft''\<rparr>\<rparr>"

definition demo_member_files :: fs where
  "demo_member_files = \<lparr>fs_files = Map.empty(([], ''config.toml'') \<mapsto> \<lparr>f_data = ''c'', f_mode = 0x1A4\<rparr>,
     ([], ''authority.key'') \<mapsto> \<lparr>f_data = demo_sk, f_mode = 0x180\<rparr>, ([''raft''], ''log'') \<mapsto> \<lparr>f_data = ''l'', f_mode = 0x1A4\<rparr>),
     fs_dirs = (\<lambda>d. d \<in> {[], [''raft'']})\<rparr>"

abbreviation demo_listing :: "fs \<Rightarrow> string list \<Rightarrow> string list" where
  "demo_listing \<equiv> \<lambda>_ d. if d = [''raft''] then [''log''] else []"

abbreviation demo_printer :: "sval \<Rightarrow> bytes option" where
  "demo_printer \<equiv> \<lambda>_. Some ''report''"

lemma demo_components:
  "components ''backup'' = [''backup'']" "components ''raft'' = [''raft'']" "path_of ''config.toml'' = ([], ''config.toml'')"
  "path_of ''./authority.key'' = ([], ''authority.key'')" "path_of ''./auth_state.toml'' = ([], ''auth_state.toml'')" "path_of ''raft'' = ([], ''raft'')"
  "path_of ''./raft_identity.key'' = ([], ''raft_identity.key'')" "path_of ''./raft_seed_exchange.key'' = ([], ''raft_seed_exchange.key'')"
  "path_of ''backup'' = ([], ''backup'')"
  by (simp_all add: path_of_def components_def)

lemma demo_member_simps:
  "sc_authority_key_path demo_member_config = ''./authority.key''" "sc_state_path demo_member_config = ''./auth_state.toml''"
  "cc_identity_key_path (sc_cluster demo_member_config) = ''./raft_identity.key''" "cc_enabled (sc_cluster demo_member_config)"
  "cc_seed_exchange_key_path (sc_cluster demo_member_config) = ''./raft_seed_exchange.key''" "cc_data_path (sc_cluster demo_member_config) = ''raft''"
  by (simp_all add: demo_member_config_def service_config_default_def cluster_config_default_def authority_key_path_def state_path_def
      raft_identity_key_path_def raft_seed_exchange_key_path_def file_path_def env_path_def)

lemma demo_member_ready:
  "\<forall>p \<in> set (backup_sources demo_member_config ''config.toml''). \<not> prefix [''backup''] (fst (path_of p))"
  "\<not> path_exists demo_member_files (path_of ''backup'')" "path_is_file demo_member_files (path_of ''config.toml'')"
  "cc_enabled (sc_cluster demo_member_config) \<longrightarrow> path_is_file demo_member_files (path_of (sc_authority_key_path demo_member_config)) \<and>
     data_fits 2 demo_member_files (components (cc_data_path (sc_cluster demo_member_config))) ([''backup''] @ [''raft_data''])"
  by (simp_all add: backup_sources_def demo_member_simps demo_components demo_member_files_def path_exists_def path_is_file_def data_fits_def)

theorem backup_succeeds_witness:
  "\<exists>report t. create_backup demo_ext 2 (\<lambda>_. io_fine) demo_listing demo_printer 1000 demo_member_config ''config.toml'' ''backup'' False
     (backup_start demo_member_files) = (Inr report, t)"
  by (rule backup_succeeds [of "''backup''" "[''backup'']"]) (use demo_member_ready in \<open>simp_all add: demo_components(1)\<close>)

theorem backup_holds_manifest_witness:
  "\<exists>report t. create_backup demo_ext 2 (\<lambda>_. io_fine) demo_listing demo_printer 1000 demo_member_config ''config.toml'' ''backup'' False
     (backup_start demo_member_files) = (Inr report, t) \<and> ''authority.key'' \<in> bf_name ` set (br_files report) \<and>
     (\<forall>b \<in> set (br_files report). bf_name b \<noteq> ''raft_data'' \<longrightarrow> saved demo_ext demo_member_files [''backup''] (bk_fs t) b)"
proof -
  obtain report t where run: "create_backup demo_ext 2 (\<lambda>_. io_fine) demo_listing demo_printer 1000 demo_member_config ''config.toml'' ''backup'' False
     (backup_start demo_member_files) = (Inr report, t)"
    using create_backup_runs [of "''backup''" "[''backup'']" demo_member_files False demo_listing demo_member_config "''config.toml''" 2 demo_printer demo_ext 1000]
      demo_member_ready by (auto simp: demo_components(1))
  note held = backup_holds_manifest [OF run demo_components(1) [symmetric] demo_member_ready(1)]
  have "\<forall>b \<in> set (br_files report). bf_name b \<noteq> ''raft_data'' \<longrightarrow> saved demo_ext demo_member_files [''backup''] (bk_fs t) b"
    using held [THEN conjunct1] by simp
  moreover have "''authority.key'' \<in> bf_name ` set (br_files report)"
    using held demo_member_simps(4) by (elim conjE impE) assumption+
  ultimately show ?thesis
    by (intro exI conjI) (rule run)
qed


end
