(* ===== verification/Ctl.thy ===== *)
theory Ctl
  imports Service Backup
begin

text \<open>
  \<open>src/ctl.rs\<close>: the administrator's command line. Arguments become a command, the command a signed request, and the request is
  sent to a sidecar, a second time when the connection fails. The clock, nonces, identifiers, environment variables and
  connections are arguments; texts for people are not modelled.
\<close>

section \<open>Arguments\<close>

datatype usage =
    U_Empty | U_Unknown string | U_TakesNoValue string | U_NoValue string | U_Extra string | U_Missing string
  | U_NoCommand | U_Command string | U_PeerId | U_NoPeers | U_Number string | U_Role | U_Kid | U_Exists path
  | U_Sign admin_v2_error | U_TokenSign join_token_error | U_TokenCheck join_token_error

text \<open>\<open>CE_Panic\<close> is no error of the source but an \<open>unreachable!\<close> that is reached.\<close>

datatype ctl_error = CE_Usage usage | CE_Config | CE_Io | CE_Transport | CE_Server string string | CE_Panic

datatype command =
  Help | Keygen | Status | Cmd_AddMembers | Cmd_RemoveMembers | Cmd_IssueJoinToken | PromoteVoter | DemoteVoter | PublishNow | Backup

record raw_args =
  rw_command :: "string option"
  rw_values :: "string \<Rightarrow> string list"
  rw_flags :: "string set"

definition raw_default :: raw_args where
  "raw_default = \<lparr>rw_command = None, rw_values = (\<lambda>_. []), rw_flags = {}\<rparr>"

abbreviation BOOLEAN_FLAGS :: "string list" where
  "BOOLEAN_FLAGS \<equiv> [''json'', ''dry-run'', ''force'', ''help'']"

definition is_known_flag :: "string \<Rightarrow> bool" where
  "is_known_flag key \<longleftrightarrow> key \<in> set [''server'', ''config'', ''key'', ''kid'', ''request-id'', ''timeout-secs'', ''role'', ''out-dir'', ''service'',
     ''peer'', ''audience'', ''jti'', ''expires-at'', ''expires-in'', ''max-uses'', ''bind-peer'', ''peer-id'', ''identity-key'', ''x25519-key'',
     ''out'', ''json'', ''dry-run'', ''force'', ''help'']"

definition arg_one :: "raw_args \<Rightarrow> string \<Rightarrow> string option" where
  "arg_one raw key = (if rw_values raw key = [] then None else Some (last (rw_values raw key)))"

abbreviation arg_many :: "raw_args \<Rightarrow> string \<Rightarrow> string list" where
  "arg_many raw key \<equiv> rw_values raw key"

definition arg_flag :: "raw_args \<Rightarrow> string \<Rightarrow> bool" where
  "arg_flag raw key \<longleftrightarrow> key \<in> rw_flags raw"

definition arg_required :: "raw_args \<Rightarrow> string \<Rightarrow> ctl_error + string" where
  "arg_required raw key = (case arg_one raw key of None \<Rightarrow> Inl (CE_Usage (U_Missing key)) | Some v \<Rightarrow> Inr v)"

definition split_once :: "char \<Rightarrow> string \<Rightarrow> string \<times> string option" where
  "split_once c s = (if c \<in> set s then (takeWhile (\<lambda>x. x \<noteq> c) s, Some (tl (dropWhile (\<lambda>x. x \<noteq> c) s))) else (s, None))"

definition push_value :: "string \<Rightarrow> string \<Rightarrow> raw_args \<Rightarrow> raw_args" where
  "push_value key v raw = raw\<lparr>rw_values := (rw_values raw)(key := rw_values raw key @ [v])\<rparr>"

definition is_option :: "string \<Rightarrow> bool" where
  "is_option arg \<longleftrightarrow> take 2 arg = ''--''"

fun parse_args :: "raw_args \<Rightarrow> string list \<Rightarrow> ctl_error + raw_args" where
  "parse_args raw [] = Inr raw"
| "parse_args raw (arg # rest) =
     (if is_option arg then
        (case split_once (CHR ''='') (drop 2 arg) of
           (key, inline) \<Rightarrow>
             if drop 2 arg = [] then Inl (CE_Usage U_Empty)
             else if \<not> is_known_flag key then Inl (CE_Usage (U_Unknown key))
             else if key \<in> set BOOLEAN_FLAGS then
               (if inline \<noteq> None then Inl (CE_Usage (U_TakesNoValue key))
                else parse_args (raw\<lparr>rw_flags := insert key (rw_flags raw)\<rparr>) rest)
             else
               (case inline of
                  Some v \<Rightarrow> parse_args (push_value key v raw) rest
                | None \<Rightarrow>
                    (case rest of
                       [] \<Rightarrow> Inl (CE_Usage (U_NoValue key))
                     | v # rest' \<Rightarrow>
                         if is_option v then Inl (CE_Usage (U_NoValue key)) else parse_args (push_value key v raw) rest')))
      else if rw_command raw = None then parse_args (raw\<lparr>rw_command := Some arg\<rparr>) rest
      else Inl (CE_Usage (U_Extra arg)))"

definition parse_raw :: "string list \<Rightarrow> ctl_error + raw_args" where
  "parse_raw args = parse_args raw_default args"

definition parse_command :: "raw_args \<Rightarrow> ctl_error + command" where
  "parse_command raw =
     (if arg_flag raw ''help'' then Inr Help
      else case rw_command raw of
        None \<Rightarrow> Inl (CE_Usage U_NoCommand)
      | Some c \<Rightarrow>
          (case map_of [(''keygen'', Keygen), (''status'', Status), (''add-members'', Cmd_AddMembers), (''remove-members'', Cmd_RemoveMembers),
             (''issue-join-token'', Cmd_IssueJoinToken), (''promote-voter'', PromoteVoter), (''demote-voter'', DemoteVoter),
             (''publish-now'', PublishNow), (''backup'', Backup)] c of
             None \<Rightarrow> Inl (CE_Usage (U_Command c))
           | Some cmd \<Rightarrow> Inr cmd))"

text \<open>\<open>str::parse\<close> of an unsigned integer below a bound: digits after an optional plus sign.\<close>

definition digit :: "char \<Rightarrow> bool" where
  "digit c \<longleftrightarrow> 48 \<le> (of_char c :: nat) \<and> (of_char c :: nat) \<le> 57"

definition parse_uint :: "nat \<Rightarrow> string \<Rightarrow> nat option" where
  "parse_uint bound s =
     (let ds = (if take 1 s = ''+'' then drop 1 s else s) in
      if ds = [] \<or> \<not> list_all digit ds then None
      else let n = foldl (\<lambda>a c. a * 10 + (of_char c - 48)) 0 ds in if n < bound then Some n else None)"

definition number_arg :: "raw_args \<Rightarrow> string \<Rightarrow> nat \<Rightarrow> ctl_error + nat option" where
  "number_arg raw key bound =
     (case arg_one raw key of
        None \<Rightarrow> Inr None
      | Some s \<Rightarrow> (case parse_uint bound s of None \<Rightarrow> Inl (CE_Usage (U_Number key)) | Some n \<Rightarrow> Inr (Some n)))"

section \<open>Where to send, and the key\<close>

definition load_config :: "toml \<Rightarrow> io \<Rightarrow> path \<Rightarrow> fs \<Rightarrow> ctl_error + service_config" where
  "load_config T e p f =
     (case read_to_string e p f of
        Inl _ \<Rightarrow> Inl CE_Config
      | Inr text \<Rightarrow> (case tm_config T text of None \<Rightarrow> Inl CE_Config | Some c \<Rightarrow> Inr c))"

definition resolve_config :: "toml \<Rightarrow> io \<Rightarrow> fs \<Rightarrow> raw_args \<Rightarrow> ctl_error + string" where
  "resolve_config T e f raw =
     (case arg_one raw ''config'' of
        None \<Rightarrow> Inr ''127.0.0.1:5100''
      | Some p \<Rightarrow>
          (case load_config T e (path_of p) f of
             Inl x \<Rightarrow> Inl x
           | Inr cfg \<Rightarrow> Inr (''127.0.0.1:'' @ decimal (unat (sc_port cfg)))))"

definition resolve_server :: "toml \<Rightarrow> process_env \<Rightarrow> io \<Rightarrow> fs \<Rightarrow> raw_args \<Rightarrow> ctl_error + string" where
  "resolve_server T ev e f raw =
     (case arg_one raw ''server'' of
        Some v \<Rightarrow> Inr v
      | None \<Rightarrow>
          (case ev ''NEXUSAUTH_CTL_SERVER'' of
             Some v \<Rightarrow> if \<not> is_blank v then Inr v else resolve_config T e f raw
           | None \<Rightarrow> resolve_config T e f raw))"

text \<open>An argument, else the variable; blank values count as missing.\<close>

definition arg_or_env :: "process_env \<Rightarrow> raw_args \<Rightarrow> string \<Rightarrow> string \<Rightarrow> string \<Rightarrow> string" where
  "arg_or_env ev raw key var dflt =
     (case (case arg_one raw key of Some v \<Rightarrow> Some v | None \<Rightarrow> ev var) of
        None \<Rightarrow> dflt
      | Some v \<Rightarrow> if is_blank v then dflt else v)"

definition key_path :: "process_env \<Rightarrow> raw_args \<Rightarrow> path" where
  "key_path ev raw = path_of (arg_or_env ev raw ''key'' ''NEXUSAUTH_CTL_KEY'' ''admin.key'')"

definition kid_arg :: "process_env \<Rightarrow> raw_args \<Rightarrow> string" where
  "kid_arg ev raw = arg_or_env ev raw ''kid'' ''NEXUSAUTH_CTL_KID'' ''root''"

fun trim_end :: "string \<Rightarrow> string" where
  "trim_end [] = []"
| "trim_end (c # cs) = (if is_blank (c # cs) then [] else c # trim_end cs)"

definition load_signing_key :: "ext \<Rightarrow> io \<Rightarrow> path \<Rightarrow> fs \<Rightarrow> ctl_error + bytes" where
  "load_signing_key X e p f =
     (case fs_read e p f of
        Inl _ \<Rightarrow> Inl CE_Config
      | Inr b \<Rightarrow>
          if length b = 32 then Inr b
          else if \<not> valid_utf8 b then Inl CE_Config
          else
            let text = trim_end (trim_start b) in
            (case (case x_unb64 X text of Some d \<Rightarrow> Some d | None \<Rightarrow> x_unb64url X text) of
               None \<Rightarrow> Inl CE_Config
             | Some d \<Rightarrow> if length d = 32 then Inr d else Inl CE_Config))"

section \<open>Requests\<close>

definition build_request ::
  "ext \<Rightarrow> bytes \<Rightarrow> string \<Rightarrow> string \<Rightarrow> string \<Rightarrow> string list \<Rightarrow> string \<Rightarrow> admin_member_spec option \<Rightarrow> admin_join_token_spec option \<Rightarrow>
   bytes \<Rightarrow> u64 \<Rightarrow> ctl_error + admin_request" where
  "build_request X sk kid op service peers request_id member token nonce now =
     (case sign_request X sk \<lparr>rq_v = ADMIN_REQUEST_VERSION, rq_op = op, rq_service = service, rq_peers = canonical_peers peers,
        rq_kid = kid, rq_request_id = request_id, rq_nonce = x_b64url X nonce, rq_ts = now, rq_sig = [], rq_member = member,
        rq_join_token = token\<rparr> of
        Inl e \<Rightarrow> Inl (CE_Usage (U_Sign e))
      | Inr q \<Rightarrow> Inr q)"

definition admin_request_sval :: "admin_request \<Rightarrow> sval" where
  "admin_request_sval q = SMap ([(''v'', sint8 (rq_v q)), (''op'', SStr (rq_op q)), (''service'', SStr (rq_service q)),
     (''peers'', SSeq (map SStr (rq_peers q))), (''kid'', SStr (rq_kid q)), (''request_id'', SStr (rq_request_id q)),
     (''nonce'', SStr (rq_nonce q)), (''ts'', SInt (rq_ts q)), (''sig'', SStr (rq_sig q))] @
     (case rq_member q of None \<Rightarrow> [] | Some m \<Rightarrow> [(''member'', member_spec_sval m)]) @
     (case rq_join_token q of None \<Rightarrow> [] | Some t \<Rightarrow> [(''join_token'', join_token_spec_sval t)]))"

text \<open>
  What a connection does: whether it opens, whether the two frames can be written, and the frames that arrive, \<open>None\<close> a
  failed or late one. The list ends when nothing more arrives in time.
\<close>

record conversation =
  cv_connected :: bool
  cv_hello_sent :: bool
  cv_request_sent :: bool
  cv_incoming :: "message option list"

definition read_hello :: "message option list \<Rightarrow> ctl_error + u32 \<times> message option list" where
  "read_hello ms = (case ms of Some (Hello v) # rest \<Rightarrow> Inr (v, rest) | _ \<Rightarrow> Inl CE_Transport)"

fun await_reply :: "(bytes \<Rightarrow> sval option) \<Rightarrow> uuid \<Rightarrow> message option list \<Rightarrow> ctl_error + sval" where
  "await_reply dec i [] = Inl CE_Transport"
| "await_reply dec i (None # ms) = Inl CE_Transport"
| "await_reply dec i (Some (Reply j good result error) # ms) =
     (if j = i then
        (if good then
           (case dec (case result of None \<Rightarrow> [] | Some b \<Rightarrow> b) of None \<Rightarrow> Inl CE_Transport | Some v \<Rightarrow> Inr v)
         else
           let e = (case error of None \<Rightarrow> sidecar_error_new ''backend_error'' ''unknown'' | Some e \<Rightarrow> e)
           in Inl (CE_Server (se_code e) (se_message e)))
      else await_reply dec i ms)"
| "await_reply dec i (Some _ # ms) = await_reply dec i ms"

definition call_server :: "(bytes \<Rightarrow> sval option) \<Rightarrow> uuid \<Rightarrow> conversation \<Rightarrow> ctl_error + sval" where
  "call_server dec i cv =
     (if \<not> cv_connected cv \<or> \<not> cv_hello_sent cv then Inl CE_Transport
      else (case read_hello (cv_incoming cv) of
         Inl e \<Rightarrow> Inl e
       | Inr (v, rest) \<Rightarrow>
           if v \<noteq> PROTOCOL_VERSION \<or> \<not> cv_request_sent cv then Inl CE_Transport else await_reply dec i rest))"

text \<open>The surroundings of one run: for each request its nonce, time, message identifier and the conversation its payload causes.\<close>

record ctl_env =
  ct_nonce :: "nat \<Rightarrow> bytes"
  ct_now :: "nat \<Rightarrow> u64"
  ct_uuid :: "nat \<Rightarrow> uuid"
  ct_peer :: "nat \<Rightarrow> string \<Rightarrow> bytes \<Rightarrow> conversation"
  ct_json :: "bytes \<Rightarrow> sval option"
  ct_id :: "nat \<Rightarrow> string"

record request_context =
  rx_server :: string
  rx_key :: bytes
  rx_kid :: string
  rx_request_id :: string
  rx_dry_run :: bool

text \<open>One attempt, number \<open>i\<close>: its result and the request given to the connection, if any.\<close>

definition send_attempt ::
  "ext \<Rightarrow> ctl_env \<Rightarrow> request_context \<Rightarrow> string \<Rightarrow> string \<Rightarrow> string list \<Rightarrow> admin_member_spec option \<Rightarrow> admin_join_token_spec option \<Rightarrow>
   nat \<Rightarrow> (ctl_error + sval) \<times> admin_request list" where
  "send_attempt X C rx op service peers member token i =
     (case build_request X (rx_key rx) (rx_kid rx) op service peers (rx_request_id rx) member token (ct_nonce C i) (ct_now C i) of
        Inl e \<Rightarrow> (Inl e, [])
      | Inr q \<Rightarrow>
          if rx_dry_run rx then (Inr (admin_request_sval q), [])
          else (case x_json X (admin_request_sval q) of
             None \<Rightarrow> (Inl CE_Io, [])
           | Some payload \<Rightarrow> (call_server (ct_json C) (ct_uuid C i) (ct_peer C i (rx_server rx) payload), [q])))"

text \<open>A failed connection is tried once more; attempts are numbered from \<open>i\<close>.\<close>

definition send_request ::
  "ext \<Rightarrow> ctl_env \<Rightarrow> request_context \<Rightarrow> string \<Rightarrow> string \<Rightarrow> string list \<Rightarrow> admin_member_spec option \<Rightarrow> admin_join_token_spec option \<Rightarrow>
   nat \<Rightarrow> (ctl_error + sval) \<times> admin_request list" where
  "send_request X C rx op service peers member token i =
     (case send_attempt X C rx op service peers member token i of
        (Inl CE_Transport, sent) \<Rightarrow>
          (case send_attempt X C rx op service peers member token (Suc i) of (r, sent') \<Rightarrow> (r, sent @ sent'))
      | (r, sent) \<Rightarrow> (r, sent))"

definition parse_member :: "ext \<Rightarrow> raw_args \<Rightarrow> ctl_error + admin_member_spec" where
  "parse_member X raw =
     (case arg_required raw ''peer-id'' of
        Inl e \<Rightarrow> Inl e
      | Inr p \<Rightarrow>
          if \<not> is_valid_peer_id X p then Inl (CE_Usage U_PeerId)
          else Inr \<lparr>am_node_id = node_id_from_peer_id X p, am_peer_id = p,
            am_identity_key = (case arg_one raw ''identity-key'' of None \<Rightarrow> [] | Some k \<Rightarrow> k),
            am_x25519_key = (case arg_one raw ''x25519-key'' of None \<Rightarrow> [] | Some k \<Rightarrow> k)\<rparr>)"

section \<open>Commands\<close>

definition non_empty :: "sval \<Rightarrow> string \<Rightarrow> string option" where
  "non_empty v k = (case v of SMap fs \<Rightarrow> (case map_of fs k of Some (SStr w) \<Rightarrow> if w = [] then None else Some w | _ \<Rightarrow> None) | _ \<Rightarrow> None)"

definition expiry_arg :: "u64 \<Rightarrow> raw_args \<Rightarrow> ctl_error + u64" where
  "expiry_arg now raw =
     (case number_arg raw ''expires-at'' (2 ^ 64) of
        Inl e \<Rightarrow> Inl e
      | Inr (Some n) \<Rightarrow> Inr (of_nat n)
      | Inr None \<Rightarrow>
          (case number_arg raw ''expires-in'' (2 ^ 64) of
             Inl e \<Rightarrow> Inl e
           | Inr v \<Rightarrow> Inr (sat_add now (max (case v of None \<Rightarrow> 600 | Some n \<Rightarrow> of_nat n) 1))))"

definition uses_arg :: "raw_args \<Rightarrow> ctl_error + u32" where
  "uses_arg raw =
     (case number_arg raw ''max-uses'' (2 ^ 32) of
        Inl e \<Rightarrow> Inl e
      | Inr v \<Rightarrow> Inr (max (case v of None \<Rightarrow> 1 | Some n \<Rightarrow> of_nat n) 1))"

text \<open>The token is signed here and checked against the key it was signed with before it is sent; \<open>now\<close> and \<open>now'\<close> are the two times.\<close>

definition make_token ::
  "ext \<Rightarrow> bytes \<Rightarrow> string \<Rightarrow> string \<Rightarrow> string \<Rightarrow> string \<Rightarrow> u64 \<Rightarrow> u64 \<Rightarrow> raw_args \<Rightarrow> ctl_error + admin_join_token_spec" where
  "make_token X sk kid cluster_id network fresh now now' raw =
     (let audience = (case arg_one raw ''audience'' of None \<Rightarrow> ''auth'' | Some a \<Rightarrow> a);
          jti = (case arg_one raw ''jti'' of None \<Rightarrow> fresh | Some j \<Rightarrow> j);
          bind = (case arg_one raw ''bind-peer'' of None \<Rightarrow> [] | Some p \<Rightarrow> p)
      in case expiry_arg now raw of
           Inl e \<Rightarrow> Inl e
         | Inr expires_at \<Rightarrow>
             (case uses_arg raw of
                Inl e \<Rightarrow> Inl e
              | Inr max_uses \<Rightarrow>
                  (case sign_join_token X sk \<lparr>jt_v = JOIN_TOKEN_VERSION, jt_jti = jti, jt_cluster_id = cluster_id, jt_network = network,
                     jt_audience = audience, jt_expires_at = expires_at, jt_max_uses = max_uses, jt_bind_peer_id = bind, jt_kid = kid,
                     jt_sig = []\<rparr> of
                     Inl e \<Rightarrow> Inl (CE_Usage (U_TokenSign e))
                   | Inr token \<Rightarrow>
                       (case from_config X [\<lparr>ak_kid = kid, ak_public_key = x_b64 X (x_ed_pub X sk), ak_role = ''root''\<rparr>] True of
                          Inl _ \<Rightarrow> Inl CE_Config
                        | Inr verifier \<Rightarrow>
                            (case verify_join_token X verifier token now' cluster_id network [''auth'', audience] of
                               Inl e \<Rightarrow> Inl (CE_Usage (U_TokenCheck e))
                             | Inr _ \<Rightarrow> Inr \<lparr>aj_jti = jti, aj_audience = audience, aj_expires_at = expires_at, aj_max_uses = max_uses,
                                 aj_bind_peer_id = bind, aj_sig = jt_sig token\<rparr>)))))"

text \<open>The status request runs even in a dry run; its attempts are numbers 0 and 1, those of the write 2 and 3.\<close>

definition ctl_issue_join_token ::
  "ext \<Rightarrow> ctl_env \<Rightarrow> request_context \<Rightarrow> raw_args \<Rightarrow> (ctl_error + sval) \<times> admin_request list" where
  "ctl_issue_join_token X C rx raw =
     (case send_request X C (rx\<lparr>rx_dry_run := False\<rparr>) ''status'' [] [] None None 0 of
        (Inl e, sent) \<Rightarrow> (Inl e, sent)
      | (Inr status, sent) \<Rightarrow>
          (case non_empty status ''cluster_id'' of
             None \<Rightarrow> (Inl (CE_Server ''missing_cluster_id'' []), sent)
           | Some cluster_id \<Rightarrow>
               (case non_empty status ''network'' of
                  None \<Rightarrow> (Inl (CE_Server ''missing_network'' []), sent)
                | Some network \<Rightarrow>
                    (case make_token X (rx_key rx) (rx_kid rx) cluster_id network (ct_id C 1) (ct_now C 4) (ct_now C 5) raw of
                       Inl e \<Rightarrow> (Inl e, sent)
                     | Inr spec \<Rightarrow>
                         (case send_request X C rx ''issue_join_token'' [] [] None (Some spec) 2 of (r, sent') \<Rightarrow> (r, sent @ sent'))))))"

definition run_command ::
  "ext \<Rightarrow> ctl_env \<Rightarrow> request_context \<Rightarrow> raw_args \<Rightarrow> command \<Rightarrow> (ctl_error + sval) \<times> admin_request list" where
  "run_command X C rx raw cmd =
     (case cmd of
        Status \<Rightarrow> send_request X C rx ''status'' [] [] None None 0
      | PublishNow \<Rightarrow> send_request X C rx ''publish_now'' [] [] None None 0
      | Cmd_IssueJoinToken \<Rightarrow> ctl_issue_join_token X C rx raw
      | Help \<Rightarrow> (Inl CE_Panic, [])
      | Keygen \<Rightarrow> (Inl CE_Panic, [])
      | Backup \<Rightarrow> (Inl CE_Panic, [])
      | c \<Rightarrow>
          if c = Cmd_AddMembers \<or> c = Cmd_RemoveMembers then
            (case arg_required raw ''service'' of
               Inl e \<Rightarrow> (Inl e, [])
             | Inr service \<Rightarrow>
                 if arg_many raw ''peer'' = [] then (Inl (CE_Usage U_NoPeers), [])
                 else send_request X C rx (if c = Cmd_AddMembers then ''add_members'' else ''remove_members'') service (arg_many raw ''peer'') None None 0)
          else
            (case parse_member X raw of
               Inl e \<Rightarrow> (Inl e, [])
             | Inr m \<Rightarrow> send_request X C rx (if c = PromoteVoter then ''promote_voter'' else ''demote_voter'') [] [] (Some m) None 0))"

text \<open>The part of \<open>execute\<close> for the commands that talk to a sidecar; \<open>e\<close> and \<open>e'\<close> are the outcomes of reading the configuration and the key.\<close>

definition execute_request ::
  "ext \<Rightarrow> toml \<Rightarrow> process_env \<Rightarrow> io \<Rightarrow> io \<Rightarrow> fs \<Rightarrow> ctl_env \<Rightarrow> raw_args \<Rightarrow> command \<Rightarrow> (ctl_error + sval) \<times> admin_request list" where
  "execute_request X T ev e e' f C raw cmd =
     (case resolve_server T ev e f raw of
        Inl x \<Rightarrow> (Inl x, [])
      | Inr server \<Rightarrow>
          (case load_signing_key X e' (key_path ev raw) f of
             Inl x \<Rightarrow> (Inl x, [])
           | Inr sk \<Rightarrow>
               (case number_arg raw ''timeout-secs'' (2 ^ 64) of
                  Inl x \<Rightarrow> (Inl x, [])
                | Inr _ \<Rightarrow>
                    run_command X C \<lparr>rx_server = server, rx_key = sk, rx_kid = kid_arg ev raw,
                      rx_request_id = (case arg_one raw ''request-id'' of None \<Rightarrow> ct_id C 0 | Some i \<Rightarrow> i), rx_dry_run = arg_flag raw ''dry-run''\<rparr> raw cmd)))"

record key_files =
  kf_kid :: string
  kf_role :: string
  kf_public_key :: string
  kf_private :: path
  kf_public :: path

definition valid_kid :: "string \<Rightarrow> bool" where
  "valid_kid kid \<longleftrightarrow> list_all (\<lambda>c. is_ascii_alphanumeric c \<or> c = CHR ''-'' \<or> c = CHR ''_'') kid"

definition key_snippet :: "string \<Rightarrow> string \<Rightarrow> string \<Rightarrow> string" where
  "key_snippet kid public_key role =
     concat [''['', ''[admin.keys]'', '']'', [CHR 0x0A], ''kid = '', [CHR 0x22], kid, [CHR 0x22, CHR 0x0A], ''public_key = '', [CHR 0x22], public_key,
       [CHR 0x22, CHR 0x0A], ''role = '', [CHR 0x22], role, [CHR 0x22, CHR 0x0A]]"

text \<open>
  A new key pair: \<open>seed\<close> is the random seed, \<open>e\<close> the outcome for the directory, \<open>e1\<close> and \<open>e2\<close> those of the two files. The mode of a
  directory is not part of the file system, only whether setting it fails.
\<close>

definition keygen ::
  "ext \<Rightarrow> io \<Rightarrow> io \<Rightarrow> io \<Rightarrow> u64 \<Rightarrow> bytes \<Rightarrow> raw_args \<Rightarrow> fs \<Rightarrow> (ctl_error + key_files) \<times> fs" where
  "keygen X e e1 e2 now seed raw f =
     (case arg_required raw ''role'' of
        Inl x \<Rightarrow> (Inl x, f)
      | Inr role \<Rightarrow>
          if role \<noteq> ''root'' \<and> role \<noteq> ''viewer'' then (Inl (CE_Usage U_Role), f)
          else
            let kid = (case arg_one raw ''kid'' of None \<Rightarrow> role @ ''-'' @ decimal (unat now) | Some k \<Rightarrow> k);
                dir = components (case arg_one raw ''out-dir'' of None \<Rightarrow> ''.'' | Some d \<Rightarrow> d);
                existed = (dir = [] \<or> path_exists f (butlast dir, last dir));
                public_key = x_b64 X (x_ed_pub X seed);
                private_path = (dir, kid @ ''.key''); public_path = (dir, kid @ ''.pub.toml'')
            in
            if \<not> valid_kid kid then (Inl (CE_Usage U_Kid), f)
            else (case create_dir_all e dir f of
               (Inl _, f1) \<Rightarrow> (Inl CE_Io, f1)
             | (Inr _, f1) \<Rightarrow>
                 if \<not> existed \<and> io_chmod e \<noteq> None then (Inl CE_Io, f1)
                 else if \<not> arg_flag raw ''force'' \<and> (path_exists f1 private_path \<or> path_exists f1 public_path)
                 then (Inl (CE_Usage (U_Exists private_path)), f1)
                 else (case atomic_write e1 private_path seed (Some 0x180) f1 of
                    (Inl _, f2) \<Rightarrow> (Inl CE_Io, f2)
                  | (Inr _, f2) \<Rightarrow>
                      (case atomic_write e2 public_path (key_snippet kid public_key role) (Some 0x1A4) f2 of
                         (Inl _, f3) \<Rightarrow> (Inl CE_Io, f3)
                       | (Inr _, f3) \<Rightarrow>
                           (Inr \<lparr>kf_kid = kid, kf_role = role, kf_public_key = public_key, kf_private = private_path, kf_public = public_path\<rparr>, f3)))))"

fun ctl_error_code :: "ctl_error \<Rightarrow> string option" where
  "ctl_error_code (CE_Usage _) = Some ''usage''"
| "ctl_error_code CE_Config = Some ''config''"
| "ctl_error_code CE_Io = Some ''io''"
| "ctl_error_code CE_Transport = Some ''transport''"
| "ctl_error_code (CE_Server _ _) = Some ''server''"
| "ctl_error_code CE_Panic = None"

text \<open>The exit status of the program; none when it panics.\<close>

fun exit_code :: "ctl_error + 'a \<Rightarrow> int option" where
  "exit_code (Inr _) = Some 0"
| "exit_code (Inl (CE_Usage _)) = Some 2"
| "exit_code (Inl CE_Panic) = None"
| "exit_code (Inl _) = Some 1"

section \<open>The program\<close>

text \<open>
  The machine it runs on: the outcomes of file operations by number, the listing of directories, how deep it looks into
  them, the printer of manifests, a random seed and the clock.
\<close>

record ctl_host =
  ch_toml :: toml
  ch_vars :: process_env
  ch_io :: "nat \<Rightarrow> io"
  ch_list :: "fs \<Rightarrow> string list \<Rightarrow> string list"
  ch_depth :: nat
  ch_pretty :: "sval \<Rightarrow> bytes option"
  ch_seed :: bytes
  ch_now :: "nat \<Rightarrow> u64"

definition backup_command :: "ext \<Rightarrow> ctl_host \<Rightarrow> raw_args \<Rightarrow> fs \<Rightarrow> (ctl_error + backup_report) \<times> fs" where
  "backup_command X H raw f =
     (let cfg_path = (case arg_one raw ''config'' of None \<Rightarrow> config_path (ch_vars H) | Some p \<Rightarrow> p) in
      case load_config (ch_toml H) (ch_io H 0) (path_of cfg_path) f of
        Inl e \<Rightarrow> (Inl e, f)
      | Inr cfg \<Rightarrow>
          let output = (case arg_one raw ''out'' of None \<Rightarrow> ''nexusauth-backup-'' @ decimal (unat (ch_now H 0)) | Some d \<Rightarrow> d) in
          (case create_backup X (ch_depth H) (\<lambda>n. ch_io H (Suc n)) (ch_list H) (ch_pretty H) (ch_now H 1) cfg cfg_path output (arg_flag raw ''force'')
              (backup_start f) of
             (Inl _, t) \<Rightarrow> (Inl CE_Config, bk_fs t)
           | (Inr report, t) \<Rightarrow> (Inr report, bk_fs t)))"

text \<open>What is printed; a dry run prints the request id and the signed request.\<close>

datatype ctl_output = Out_Usage | Out_Keys key_files | Out_Backup backup_report | Out_DryRun sval | Out_Reply sval

definition execute ::
  "ext \<Rightarrow> ctl_host \<Rightarrow> ctl_env \<Rightarrow> string list \<Rightarrow> fs \<Rightarrow> (ctl_error + ctl_output) \<times> admin_request list \<times> fs" where
  "execute X H C args f =
     (case parse_raw args of
        Inl e \<Rightarrow> (Inl e, [], f)
      | Inr raw \<Rightarrow>
          (case parse_command raw of
             Inl e \<Rightarrow> (Inl e, [], f)
           | Inr Help \<Rightarrow> (Inr Out_Usage, [], f)
           | Inr Keygen \<Rightarrow>
               (case keygen X (ch_io H 0) (ch_io H 1) (ch_io H 2) (ch_now H 0) (ch_seed H) raw f of
                  (Inl e, f') \<Rightarrow> (Inl e, [], f') | (Inr keys, f') \<Rightarrow> (Inr (Out_Keys keys), [], f'))
           | Inr Backup \<Rightarrow>
               (case backup_command X H raw f of
                  (Inl e, f') \<Rightarrow> (Inl e, [], f') | (Inr report, f') \<Rightarrow> (Inr (Out_Backup report), [], f'))
           | Inr cmd \<Rightarrow>
               (case execute_request X (ch_toml H) (ch_vars H) (ch_io H 0) (ch_io H 1) f C raw cmd of
                  (Inl e, sent) \<Rightarrow> (Inl e, sent, f)
                | (Inr v, sent) \<Rightarrow> (Inr (if arg_flag raw ''dry-run'' then Out_DryRun v else Out_Reply v), sent, f))))"

section \<open>Lemmas\<close>

lemma request_of_command:
  assumes "build_request X sk kid op service peers rid m tok nonce now = Inr q"
  shows "rq_op q = op" "rq_service q = service" "rq_peers q = canonical_peers peers" "rq_kid q = kid" "rq_request_id q = rid" "rq_member q = m"
    "rq_join_token q = tok" "rq_ts q = now" "rq_nonce q = x_b64url X nonce" "rq_v q = ADMIN_REQUEST_VERSION"
  using assms by (auto simp: build_request_def sign_request_def split: sum.splits)

lemma request_hash_of_command:
  assumes "build_request X sk kid op service peers rid m tok n t = Inr q" "build_request X sk kid op service peers rid m tok n' t' = Inr q'"
  shows "request_hash X q = request_hash X q'"
  using request_of_command [OF assms(1)] request_of_command [OF assms(2)]
  by (simp add: request_hash_def identity_fields_def extension_fields_def)

text \<open>Every request of one call comes from the same arguments, and there are at most two.\<close>

lemma send_request_sent:
  assumes "send_request X C rx op service peers m tok i = (r, sent)"
  shows "length sent \<le> 2"
    "q \<in> set sent \<Longrightarrow> \<exists>n t. build_request X (rx_key rx) (rx_kid rx) op service peers (rx_request_id rx) m tok n t = Inr q"
proof -
  have one: "length ss \<le> 1 \<and> (\<forall>q \<in> set ss. \<exists>n t. build_request X (rx_key rx) (rx_kid rx) op service peers (rx_request_id rx) m tok n t = Inr q)"
    if "send_attempt X C rx op service peers m tok j = (x, ss)" for j x ss
    using that by (auto simp: send_attempt_def split: sum.splits if_splits option.splits; blast)
  obtain x ss where 1: "send_attempt X C rx op service peers m tok i = (x, ss)"
    by fastforce
  obtain y ss' where 2: "send_attempt X C rx op service peers m tok (Suc i) = (y, ss')"
    by fastforce
  have "sent = ss \<or> sent = ss @ ss'"
    using assms 1 2 by (auto simp: send_request_def split: sum.splits ctl_error.splits)
  then show "length sent \<le> 2"
    "q \<in> set sent \<Longrightarrow> \<exists>n t. build_request X (rx_key rx) (rx_kid rx) op service peers (rx_request_id rx) m tok n t = Inr q"
    using one [OF 1] one [OF 2] by auto
qed

text \<open>
  The leader rebuilds from the request exactly the token that was signed and checked here, and accepts it when its key table
  has the same key for the administrator.
\<close>

lemma issued_token_accepted:
  assumes "make_token X sk kid cl net fresh now now' raw = Inr spec" "sig_law X" "b64url_law X"
    and "bt_get (av_keys a) kid = Some (x_ed_pub X sk, Root)"
  shows "verify_join_token X a (token_from_spec cl net kid spec) now' cl net [peer, aj_audience spec] = Inr ()"
proof -
  obtain t token verifier where t: "sign_join_token X sk t = Inr token" "jt_max_uses t \<ge> 1" "jt_v t = JOIN_TOKEN_VERSION" "jt_cluster_id t = cl"
      "jt_network t = net" "jt_kid t = kid"
    and spec: "spec = \<lparr>aj_jti = jt_jti t, aj_audience = jt_audience t, aj_expires_at = jt_expires_at t, aj_max_uses = jt_max_uses t,
      aj_bind_peer_id = jt_bind_peer_id t, aj_sig = jt_sig token\<rparr>"
    and v: "verify_join_token X verifier token now' cl net [''auth'', jt_audience t] = Inr ()"
    using assms(1) by (fastforce simp: make_token_def uses_arg_def Let_def split: sum.splits)
  have token: "token_from_spec cl net kid spec = token"
    using t spec by (auto simp: token_from_spec_def sign_join_token_def max_def split: sum.splits)
  have same: "jt_jti token = jt_jti t" "jt_expires_at token = jt_expires_at t" "jt_max_uses token = jt_max_uses t"
    "jt_audience token = jt_audience t" "jt_v token = jt_v t"
    using t(1) by (auto simp: sign_join_token_def split: sum.splits)
  show ?thesis
    using signed_token_verifies [OF assms(2,3) t(1), of a cl net now' "[peer, aj_audience spec]"] verify_join_token_ok [OF v] assms(4) t(4-6)
    unfolding token same by (auto simp: spec)
qed

section \<open>What the program does at most\<close>

named_theorems no_panic \<open>steps that never reach an \<open>unreachable!\<close>\<close>

lemma reply_no_panic: "await_reply dec i ms \<noteq> Inl CE_Panic"
  by (induction dec i ms rule: await_reply.induct) (auto split: option.splits simp: Let_def)

lemma call_no_panic [no_panic]: "call_server dec i cv \<noteq> Inl CE_Panic"
  by (simp add: call_server_def read_hello_def reply_no_panic split: sum.split list.split option.split message.split)

lemma arg_no_panic [no_panic]:
  "arg_required raw k \<noteq> Inl CE_Panic" "number_arg raw k b \<noteq> Inl CE_Panic" "load_config T e p f \<noteq> Inl CE_Panic"
  by (simp_all add: arg_required_def number_arg_def load_config_def split: option.split sum.split)

lemma value_no_panic [no_panic]:
  "parse_member X raw \<noteq> Inl CE_Panic" "expiry_arg now raw \<noteq> Inl CE_Panic" "uses_arg raw \<noteq> Inl CE_Panic"
  using arg_no_panic(1) [of raw] arg_no_panic(2) [of raw]
  by (auto simp: parse_member_def expiry_arg_def uses_arg_def Let_def split: option.split sum.split)

lemma key_no_panic [no_panic]:
  "load_signing_key X e p f \<noteq> Inl CE_Panic" "build_request X sk kid op service peers rid m tok n t \<noteq> Inl CE_Panic"
  by (simp_all add: load_signing_key_def build_request_def Let_def split: option.split sum.split)

lemma command_no_panic [no_panic]: "parse_command raw \<noteq> Inl CE_Panic"
  unfolding parse_command_def by (simp only: split: if_split option.split) simp

lemma parse_no_panic [no_panic]: "parse_args raw args \<noteq> Inl CE_Panic"
proof (induction raw args rule: parse_args.induct)
  case (2 raw arg rest)
  obtain key inline where k: "split_once (CHR ''='') (drop 2 arg) = (key, inline)"
    by fastforce
  note IH = 2(1-3) [OF _ k [symmetric]] 2(4)
  show ?case
    by (subst parse_args.simps(2), cases inline; cases rest) (use IH in \<open>simp_all add: k del: parse_args.simps\<close>)
qed simp

lemma server_no_panic [no_panic]: "resolve_server T ev e f raw \<noteq> Inl CE_Panic"
  by (auto simp: resolve_server_def resolve_config_def no_panic split: option.splits sum.splits if_splits)

lemma token_no_panic [no_panic]: "make_token X sk kid cl net fresh now now' raw \<noteq> Inl CE_Panic"
  by (auto simp: make_token_def Let_def no_panic split: sum.splits)

text \<open>
  Of one request: no panic, at most two copies, all with its operation, and none in a dry run.
\<close>

definition modest :: "string \<Rightarrow> bool \<Rightarrow> nat \<Rightarrow> (ctl_error + 'a) \<times> admin_request list \<Rightarrow> bool" where
  "modest op dry n x \<longleftrightarrow> fst x \<noteq> Inl CE_Panic \<and> length (snd x) \<le> n \<and> (\<forall>q \<in> set (snd x). rq_op q = op) \<and> (dry \<longrightarrow> snd x = [])"

lemma attempt_modest: "modest op (rx_dry_run rx) 1 (send_attempt X C rx op service peers m tok i)"
  by (auto simp: modest_def send_attempt_def request_of_command(1) no_panic split: sum.splits option.splits)

lemma request_modest: "modest op (rx_dry_run rx) 2 (send_request X C rx op service peers m tok i)"
  using attempt_modest [of op rx X C service peers m tok i] attempt_modest [of op rx X C service peers m tok "Suc i"]
  by (auto simp: modest_def send_request_def split: prod.splits sum.splits ctl_error.splits)

text \<open>Any command that talks to a sidecar: in a dry run only reads of the status.\<close>

definition careful :: "bool \<Rightarrow> (ctl_error + 'a) \<times> admin_request list \<Rightarrow> bool" where
  "careful dry x \<longleftrightarrow> fst x \<noteq> Inl CE_Panic \<and> length (snd x) \<le> 4 \<and> (dry \<longrightarrow> (\<forall>q \<in> set (snd x). rq_op q = ''status''))"

lemma modest_careful: "modest op dry 2 x \<Longrightarrow> careful dry x"
  by (auto simp: modest_def careful_def)

lemma error_careful: "e \<noteq> CE_Panic \<Longrightarrow> careful dry (Inl e, [])"
  by (simp add: careful_def)

lemma careful_after:
  assumes "modest ''status'' False 2 (r, sent)"
  shows "careful dry (r, sent)" "e \<noteq> CE_Panic \<Longrightarrow> careful dry (Inl e, sent)" "modest op dry 2 x \<Longrightarrow> careful dry (case x of (r, sent') \<Rightarrow> (r, sent @ sent'))"
  using assms by (cases x; auto simp: modest_def careful_def)+

lemma token_careful: "careful (rx_dry_run rx) (ctl_issue_join_token X C rx raw)"
proof -
  obtain r sent where st: "send_request X C (rx\<lparr>rx_dry_run := False\<rparr>) ''status'' [] [] None None 0 = (r, sent)"
    by fastforce
  have status: "modest ''status'' False 2 (r, sent)"
    using request_modest [of "''status''" "rx\<lparr>rx_dry_run := False\<rparr>" X C "[]" "[]" None None 0] st by simp
  have "careful (rx_dry_run rx) (case make_token X sk kid cl net fresh now now' raw of
      Inl e \<Rightarrow> (Inl e, sent)
    | Inr spec \<Rightarrow> (case send_request X C rx ''issue_join_token'' [] [] None (Some spec) 2 of (r, sent') \<Rightarrow> (r, sent @ sent')))" for sk kid cl net fresh now now'
  proof (cases "make_token X sk kid cl net fresh now now' raw")
    case (Inl e)
    then have "e \<noteq> CE_Panic"
      using token_no_panic [of X sk kid cl net fresh now now' raw] by auto
    then show ?thesis
      by (simp add: Inl careful_after(2) [OF status])
  next
    case (Inr spec)
    show ?thesis
      unfolding Inr sum.case by (rule careful_after(3) [OF status request_modest])
  qed
  then show ?thesis
    using careful_after(1) [OF status, of "rx_dry_run rx"] unfolding ctl_issue_join_token_def st
    by (cases r) (auto split: option.split intro!: careful_after(2) [OF status])
qed

lemma run_careful: "cmd \<notin> {Help, Keygen, Backup} \<Longrightarrow> careful (rx_dry_run rx) (run_command X C rx raw cmd)"
  by (cases cmd) (auto simp: run_command_def no_panic intro!: error_careful token_careful modest_careful [OF request_modest] split: sum.splits)

lemma execute_request_careful:
  "cmd \<notin> {Help, Keygen, Backup} \<Longrightarrow> careful (arg_flag raw ''dry-run'') (execute_request X T ev e e' f C raw cmd)"
  using run_careful [of cmd "\<lparr>rx_server = _, rx_key = _, rx_kid = _, rx_request_id = _, rx_dry_run = arg_flag raw ''dry-run''\<rparr>"]
  by (auto simp: execute_request_def no_panic intro!: error_careful split: sum.splits)

lemma local_no_panic: "fst (keygen X e e1 e2 now seed raw f) \<noteq> Inl CE_Panic" "fst (backup_command X H raw f) \<noteq> Inl CE_Panic"
  by (simp_all add: keygen_def backup_command_def Let_def split: sum.split prod.split) (auto simp: no_panic)

lemma exit_code_cases: "r \<noteq> Inl CE_Panic \<Longrightarrow> exit_code r \<in> {Some 0, Some 1, Some 2}"
  by (cases r rule: exit_code.cases) auto

text \<open>
  C22: The command line tool is safe to run. Whatever its arguments, the machine and the sidecar, it never reaches an \<open>unreachable!\<close> and
  exits with 0, 1 or 2. It hands at most four requests to connections; with \<open>--dry-run\<close> these are reads of the status only. It
  changes no file unless the command is \<open>keygen\<close> or \<open>backup\<close>.
\<close>

theorem ctl_safe_to_run:
  assumes "execute X H C args f = (r, sent, f')"
  shows "exit_code r \<in> {Some 0, Some 1, Some 2} \<and> length sent \<le> 4 \<and>
    (\<forall>raw. parse_raw args = Inr raw \<longrightarrow>
      (arg_flag raw ''dry-run'' \<longrightarrow> (\<forall>q \<in> set sent. rq_op q = ''status'')) \<and>
      (f' \<noteq> f \<longrightarrow> parse_command raw = Inr Keygen \<or> parse_command raw = Inr Backup))"
proof -
  have "r \<noteq> Inl CE_Panic \<and> length sent \<le> 4 \<and> (\<forall>raw. parse_raw args = Inr raw \<longrightarrow>
      (arg_flag raw ''dry-run'' \<longrightarrow> (\<forall>q \<in> set sent. rq_op q = ''status'')) \<and>
      (f' \<noteq> f \<longrightarrow> parse_command raw = Inr Keygen \<or> parse_command raw = Inr Backup))"
  proof (cases "parse_raw args")
    case (Inl e)
    then show ?thesis
      using assms parse_no_panic [of raw_default args] by (auto simp: execute_def parse_raw_def)
  next
    case raw: (Inr raw)
    show ?thesis
    proof (cases "parse_command raw")
      case (Inl e)
      then show ?thesis
        using assms raw command_no_panic [of raw] by (auto simp: execute_def)
    next
      case cmd: (Inr cmd)
      show ?thesis
      proof (cases "cmd \<in> {Help, Keygen, Backup}")
        case True
        then consider "cmd = Help" | "cmd = Keygen" | "cmd = Backup" by blast
        then show ?thesis
        proof cases
          case 2
          then show ?thesis
            using assms raw cmd local_no_panic(1) [of X "ch_io H 0" "ch_io H 1" "ch_io H 2" "ch_now H 0" "ch_seed H" raw f]
            by (cases "keygen X (ch_io H 0) (ch_io H 1) (ch_io H 2) (ch_now H 0) (ch_seed H) raw f"; cases "fst (keygen X (ch_io H 0) (ch_io H 1) (ch_io H 2) (ch_now H 0) (ch_seed H) raw f)")
              (auto simp: execute_def)
        next
          case 3
          then show ?thesis
            using assms raw cmd local_no_panic(2) [of X H raw f]
            by (cases "backup_command X H raw f"; cases "fst (backup_command X H raw f)") (auto simp: execute_def)
        qed (use assms raw cmd in \<open>auto simp: execute_def\<close>)
      next
        case False
        let ?x = "execute_request X (ch_toml H) (ch_vars H) (ch_io H 0) (ch_io H 1) f C raw cmd"
        have "execute X H C args f = (case fst ?x of Inl e \<Rightarrow> Inl e | Inr v \<Rightarrow> Inr (if arg_flag raw ''dry-run'' then Out_DryRun v else Out_Reply v), snd ?x, f)"
          using raw cmd False by (cases ?x; cases "fst ?x"; cases cmd) (simp_all add: execute_def)
        then have "sent = snd ?x" "f' = f" "r = Inl CE_Panic \<longrightarrow> fst ?x = Inl CE_Panic"
          using assms by (simp_all split: sum.splits)
        then show ?thesis
          using execute_request_careful [OF False, of raw X "ch_toml H" "ch_vars H" "ch_io H 0" "ch_io H 1" f C] raw
          by (auto simp: careful_def)
      qed
    qed
  qed
  with exit_code_cases show ?thesis
    by blast
qed

section \<open>A dry run\<close>

text \<open>A sidecar that cannot be reached, on a machine with an administrator key.\<close>

definition demo_ctl :: ctl_env where
  "demo_ctl = \<lparr>ct_nonce = (\<lambda>i. [char_of i]), ct_now = (\<lambda>_. 1000), ct_uuid = of_nat,
     ct_peer = (\<lambda>_ _ _. \<lparr>cv_connected = False, cv_hello_sent = False, cv_request_sent = False, cv_incoming = []\<rparr>),
     ct_json = (\<lambda>_. None), ct_id = (\<lambda>_. ''r1'')\<rparr>"

definition demo_host :: ctl_host where
  "demo_host = \<lparr>ch_toml = \<lparr>tm_value = (\<lambda>_. None), tm_config = (\<lambda>_. None), tm_print = (\<lambda>_. None)\<rparr>, ch_vars = (\<lambda>_. None), ch_io = (\<lambda>_. io_fine), ch_list = (\<lambda>_ _. []), ch_depth = 2,
     ch_pretty = (\<lambda>_. Some ''report''), ch_seed = demo_sk, ch_now = (\<lambda>_. 1000)\<rparr>"

theorem ctl_safe_to_run_witness:
  "\<exists>r sent. execute demo_ext demo_host demo_ctl [''publish-now'', ''--dry-run'', ''--key'', ''authority.key''] demo_member_files = (r, sent, demo_member_files) \<and>
     exit_code r \<in> {Some 0, Some 1, Some 2} \<and> (\<forall>q \<in> set sent. rq_op q = ''status'')"
proof -
  let ?args = "[''publish-now'', ''--dry-run'', ''--key'', ''authority.key'']"
  obtain r sent f' where run: "execute demo_ext demo_host demo_ctl ?args demo_member_files = (r, sent, f')"
    by (cases "execute demo_ext demo_host demo_ctl ?args demo_member_files")
  have parsed: "parse_raw ?args = Inr (push_value ''key'' ''authority.key'' (raw_default\<lparr>rw_command := Some ''publish-now'', rw_flags := {''dry-run''}\<rparr>))"
    by (simp add: parse_raw_def raw_default_def is_option_def split_once_def is_known_flag_def push_value_def)
  have "parse_command (push_value ''key'' ''authority.key'' (raw_default\<lparr>rw_command := Some ''publish-now'', rw_flags := {''dry-run''}\<rparr>)) = Inr PublishNow"
    by (simp add: parse_command_def arg_flag_def push_value_def raw_default_def)
  then show ?thesis
    using ctl_safe_to_run [OF run] run parsed by (auto simp: arg_flag_def push_value_def)
qed

end
