(* ===== verification/Log.thy ===== *)
theory Log
  imports Config Replicate "HOL-Library.Sublist"
begin

text \<open>
  \<open>src/log.rs\<close>: log entries, their two forms, and the log file with its rotation. A rotation renames the log to a temporary file and
  packs that into an archive, in a thread of its own; it touches no file that entries are appended to once the
  rename is done, so a rotation is one step, at any time after it was started. Outcomes of system calls, times, the packer and
  coloured prefixes are arguments.
\<close>

section \<open>Entries and their forms\<close>

datatype log_mode = Journald | LogFile

datatype log_level = Lv_Important | Lv_Debug | Lv_Preset | Lv_Warning | Lv_Error | Lv_Critical

record log_entry =
  le_level :: log_level
  le_topic :: string
  le_content :: string

definition log_mode_of :: "process_env \<Rightarrow> log_mode" where
  "log_mode_of ev = (case ev ''JOURNAL_STREAM'' of Some v \<Rightarrow> if v \<noteq> [] then Journald else LogFile | None \<Rightarrow> LogFile)"

fun level_str :: "log_level \<Rightarrow> string" where
  "level_str Lv_Important = ''['' @ ''IMPORTANT]''"
| "level_str Lv_Debug = ''['' @ ''+]''"
| "level_str Lv_Preset = ''['' @ ''-]''"
| "level_str Lv_Warning = ''['' @ ''*]''"
| "level_str Lv_Error = ''['' @ ''!]''"
| "level_str Lv_Critical = ''['' @ ''CRITICAL]''"

fun syslog_priority :: "log_level \<Rightarrow> u8" where
  "syslog_priority Lv_Critical = 2"
| "syslog_priority Lv_Error = 3"
| "syslog_priority Lv_Warning = 4"
| "syslog_priority Lv_Important = 5"
| "syslog_priority Lv_Preset = 6"
| "syslog_priority Lv_Debug = 7"

abbreviation NL :: string where
  "NL \<equiv> [CHR 0x0A]"

abbreviation indent :: string where
  "indent \<equiv> ''    ''"

definition format_entry :: "string \<Rightarrow> string option \<Rightarrow> string \<Rightarrow> string \<Rightarrow> string" where
  "format_entry pre time topic content =
     (case time of
        Some t \<Rightarrow> pre @ '' '' @ t @ NL @ indent @ topic @ (if content = [] then [] else NL @ indent @ content)
      | None \<Rightarrow> pre @ '' '' @ topic @ (if content = [] then [] else NL @ indent @ content))"

text \<open>\<open>split_whitespace\<close>: the maximal parts without white space; \<open>word\<close> is the one being read.\<close>

function split_words :: "string \<Rightarrow> string \<Rightarrow> string list" where
  "split_words word s =
     (if s = [] then (if word = [] then [] else [word])
      else if ws_prefix s = 0 then split_words (word @ [hd s]) (tl s)
      else (if word = [] then [] else [word]) @ split_words [] (drop (ws_prefix s) s))"
  by auto
termination
proof (relation "measure (\<lambda>(_, s). length s)")
  fix word s :: string
  assume "s \<noteq> []" "ws_prefix s \<noteq> 0"
  with ws_prefix_le [of s] show "(([], drop (ws_prefix s) s), word, s) \<in> measure (\<lambda>(_, s). length s)"
    by simp
qed auto

declare split_words.simps [simp del]

definition render_journald :: "log_entry \<Rightarrow> string" where
  "render_journald x =
     (let content = join_with '' '' (split_words [] (le_content x));
          body = level_str (le_level x) @ '' '' @ le_topic x @ (if content = [] then [] else '': '' @ content)
      in ''<'' @ decimal (unat (syslog_priority (le_level x))) @ ''>'' @ body)"

abbreviation use_color :: "process_env \<Rightarrow> bool \<Rightarrow> bool" where
  "use_color ev terminal \<equiv> ev ''NO_COLOR'' = None \<and> terminal"

definition render_stream :: "(log_level \<Rightarrow> string) \<Rightarrow> bool \<Rightarrow> log_entry \<Rightarrow> string option \<Rightarrow> string" where
  "render_stream paint color x time =
     format_entry (if color then paint (le_level x) else level_str (le_level x)) time (le_topic x) (le_content x)"

section \<open>The state of the logger\<close>

text \<open>
  What was written to the two standard streams (\<open>True\<close> for the error stream), when the size was last checked, in
  nanoseconds, whether a rotation is under way, and whether its thread has yet to run.
\<close>

record logger =
  lg_fs :: fs
  lg_stream :: "(bool \<times> string) list"
  lg_checked :: "nat option"
  lg_rolling :: bool
  lg_thread :: bool

text \<open>The surroundings: the environment variables, the packer, coloured prefixes, and whether the output is a terminal.\<close>

record log_env =
  lv_vars :: process_env
  lv_gzip :: "bytes \<Rightarrow> bytes"
  lv_paint :: "log_level \<Rightarrow> string"
  lv_terminal :: bool

definition log_filepath :: "log_env \<Rightarrow> path" where
  "log_filepath V = path_of (log_path (lv_vars V) @ ''/log'')"

definition logtmp_filepath :: "log_env \<Rightarrow> path" where
  "logtmp_filepath V = path_of (log_path (lv_vars V) @ ''/log.tmp'')"

definition gz_filepath :: "log_env \<Rightarrow> string \<Rightarrow> path" where
  "gz_filepath V name = path_of (log_path (lv_vars V) @ ''/'' @ name @ ''.gz'')"

definition write_stream :: "log_level \<Rightarrow> string \<Rightarrow> logger \<Rightarrow> logger" where
  "write_stream level text s = s\<lparr>lg_stream := lg_stream s @ [(level \<in> {Lv_Error, Lv_Critical, Lv_Warning}, text)]\<rparr>"

definition log_onlycli :: "log_env \<Rightarrow> string \<Rightarrow> log_entry \<Rightarrow> logger \<Rightarrow> logger" where
  "log_onlycli V time x =
     write_stream (le_level x) (case log_mode_of (lv_vars V) of
       Journald \<Rightarrow> render_journald x
     | LogFile \<Rightarrow> render_stream (lv_paint V) (use_color (lv_vars V) (lv_terminal V)) x (Some time))"

text \<open>Complaints of the logger itself; their texts are one topic each.\<close>

abbreviation complain :: "log_env \<Rightarrow> string \<Rightarrow> log_level \<Rightarrow> string \<Rightarrow> logger \<Rightarrow> logger" where
  "complain V time level topic \<equiv> log_onlycli V time \<lparr>le_level = level, le_topic = topic, le_content = []\<rparr>"

text \<open>\<open>Some part\<close> when only a part of the line could be written, \<open>None\<close> in \<open>ap_open\<close> when the file could be opened.\<close>

record append_io =
  ap_open :: "io_error option"
  ap_partial :: "bytes option"
  ap_mode :: u32

definition append_file :: "log_env \<Rightarrow> append_io \<Rightarrow> string \<Rightarrow> string \<Rightarrow> logger \<Rightarrow> logger" where
  "append_file V io time text s =
     (case ap_open io of
        Some _ \<Rightarrow> complain V time Lv_Error ''append'' s
      | None \<Rightarrow>
          let old = (case fs_files (lg_fs s) (log_filepath V) of None \<Rightarrow> \<lparr>f_data = [], f_mode = ap_mode io\<rparr> | Some g \<Rightarrow> g);
              line = (case ap_partial io of None \<Rightarrow> text @ NL | Some part \<Rightarrow> part);
              s1 = s\<lparr>lg_fs := lg_fs s\<lparr>fs_files := (fs_files (lg_fs s))(log_filepath V \<mapsto> old\<lparr>f_data := f_data old @ line\<rparr>)\<rparr>\<rparr>
          in if ap_partial io = None then s1 else complain V time Lv_Error ''append'' s1)"

definition log_write :: "log_env \<Rightarrow> append_io \<Rightarrow> string \<Rightarrow> log_entry \<Rightarrow> logger \<Rightarrow> logger" where
  "log_write V io time x s =
     (case log_mode_of (lv_vars V) of
        Journald \<Rightarrow> write_stream (le_level x) (render_journald x) s
      | LogFile \<Rightarrow>
          append_file V io time (format_entry (level_str (le_level x)) (Some time) (le_topic x) (le_content x))
            (write_stream (le_level x) (render_stream (lv_paint V) (use_color (lv_vars V) (lv_terminal V)) x (Some time)) s))"

section \<open>Rotation\<close>

abbreviation MAX_SIZE_BYTES :: nat where "MAX_SIZE_BYTES \<equiv> 10 * 1024 * 1024"
abbreviation ROLL_CHECK_INTERVAL :: nat where "ROLL_CHECK_INTERVAL \<equiv> 5000000000"

text \<open>\<open>ar_partial\<close> is what a failed packing leaves in the archive.\<close>

record archive_io =
  ar_read :: "io_error option"
  ar_create :: "io_error option"
  ar_partial :: "bytes option"
  ar_remove :: "io_error option"
  ar_mode :: u32

definition archive_and_cleanup :: "log_env \<Rightarrow> archive_io \<Rightarrow> string \<Rightarrow> path \<Rightarrow> logger \<Rightarrow> logger" where
  "archive_and_cleanup V io time out s =
     (let tmp = logtmp_filepath V; put = (\<lambda>d f. f\<lparr>fs_files := (fs_files f)(out \<mapsto> (case fs_files f out of
          None \<Rightarrow> \<lparr>f_data = d, f_mode = ar_mode io\<rparr> | Some g \<Rightarrow> g\<lparr>f_data := d\<rparr>))\<rparr>) in
      case (case ar_read io of Some _ \<Rightarrow> None | None \<Rightarrow> fs_files (lg_fs s) tmp) of
        None \<Rightarrow> complain V time Lv_Error ''read'' s
      | Some g \<Rightarrow>
          if ar_create io \<noteq> None then complain V time Lv_Error ''create'' s
          else (case ar_partial io of
             Some part \<Rightarrow> complain V time Lv_Error ''compress'' (s\<lparr>lg_fs := put part (lg_fs s)\<rparr>)
           | None \<Rightarrow>
               let s1 = s\<lparr>lg_fs := put (lv_gzip V (f_data g)) (lg_fs s)\<rparr> in
               if ar_remove io \<noteq> None then complain V time Lv_Error ''remove'' s1
               else s1\<lparr>lg_fs := lg_fs s1\<lparr>fs_files := (fs_files (lg_fs s1))(tmp := None)\<rparr>\<rparr>))"

text \<open>
  The outcomes of one rotation: of the renames, of the archive, and of the repair; the names its archives get. On Unix
  \<open>rename\<close> replaces a file of that name; the error \<open>AlreadyExists\<close>, which other systems may report, is an outcome as any other.
\<close>

abbreviation Io_AlreadyExists :: io_error where "Io_AlreadyExists \<equiv> Io_Other ''already exists''"

record roll_io =
  ro_rename :: io
  ro_again :: io
  ro_repair :: archive_io
  ro_archive :: archive_io
  ro_name :: string
  ro_repair_name :: string

definition repair_tmp_file :: "log_env \<Rightarrow> roll_io \<Rightarrow> string \<Rightarrow> logger \<Rightarrow> logger" where
  "repair_tmp_file V io time s =
     (if fs_files (lg_fs s) (logtmp_filepath V) = None then s
      else archive_and_cleanup V (ro_repair io) time (gz_filepath V (''REPAIR-'' @ ro_repair_name io)) s)"

definition perform_roll :: "log_env \<Rightarrow> roll_io \<Rightarrow> string \<Rightarrow> logger \<Rightarrow> logger" where
  "perform_roll V io time s =
     (let archive = archive_and_cleanup V (ro_archive io) time (gz_filepath V (ro_name io)) in
      case fs_rename (ro_rename io) (log_filepath V) (logtmp_filepath V) (lg_fs s) of
        (Inr _, f) \<Rightarrow> archive (s\<lparr>lg_fs := f\<rparr>)
      | (Inl x, f) \<Rightarrow>
          if x = Io_AlreadyExists then
            let s1 = repair_tmp_file V io time (complain V time Lv_Warning ''repair'' (s\<lparr>lg_fs := f\<rparr>)) in
            (case fs_rename (ro_again io) (log_filepath V) (logtmp_filepath V) (lg_fs s1) of
               (Inr _, f') \<Rightarrow> archive (s1\<lparr>lg_fs := f'\<rparr>)
             | (Inl _, f') \<Rightarrow> complain V time Lv_Critical ''rename'' (s1\<lparr>lg_fs := f'\<rparr>))
          else if x = Io_NotFound then s\<lparr>lg_fs := f\<rparr>
          else complain V time Lv_Critical ''rename'' (s\<lparr>lg_fs := f\<rparr>))"

definition check_and_roll :: "log_env \<Rightarrow> logger \<Rightarrow> logger" where
  "check_and_roll V s =
     (case fs_files (lg_fs s) (log_filepath V) of
        None \<Rightarrow> s\<lparr>lg_rolling := False\<rparr>
      | Some g \<Rightarrow> if length (f_data g) \<le> MAX_SIZE_BYTES then s\<lparr>lg_rolling := False\<rparr> else s\<lparr>lg_thread := True\<rparr>)"

definition maybe_check_and_roll :: "log_env \<Rightarrow> nat \<Rightarrow> logger \<Rightarrow> logger" where
  "maybe_check_and_roll V now s =
     (if (case lg_checked s of None \<Rightarrow> False | Some prev \<Rightarrow> now - prev < ROLL_CHECK_INTERVAL) then s
      else if lg_rolling s then s\<lparr>lg_checked := Some now\<rparr>
      else check_and_roll V (s\<lparr>lg_checked := Some now, lg_rolling := True\<rparr>))"

definition emit :: "log_env \<Rightarrow> append_io \<Rightarrow> nat \<Rightarrow> string \<Rightarrow> log_entry \<Rightarrow> logger \<Rightarrow> logger" where
  "emit V io now time x s =
     log_write V io time x (if log_mode_of (lv_vars V) = LogFile then maybe_check_and_roll V now s else s)"

text \<open>The thread, when it was started: it looks at the file once more.\<close>

definition roll_thread :: "log_env \<Rightarrow> roll_io \<Rightarrow> string \<Rightarrow> logger \<Rightarrow> logger" where
  "roll_thread V io time s =
     (if \<not> lg_thread s then s
      else (if fs_files (lg_fs s) (log_filepath V) = None then s else perform_roll V io time s)\<lparr>lg_thread := False, lg_rolling := False\<rparr>)"

section \<open>Paths\<close>

lemma split_on_not_Nil [simp]: "split_on c s \<noteq> []"
  by (induction s) (auto split: list.splits)

lemma split_on_append: "split_on c (p @ c # n) = split_on c p @ split_on c n"
  by (induction p) (auto split: list.splits)

lemma split_on_single: "c \<notin> set n \<Longrightarrow> split_on c n = [n]"
  by (induction n) auto

text \<open>A plain file name below a directory.\<close>

definition plain_name :: "string \<Rightarrow> bool" where
  "plain_name n \<longleftrightarrow> CHR ''/'' \<notin> set n \<and> n \<noteq> [] \<and> n \<noteq> ''.''"

lemma components_below: "plain_name n \<Longrightarrow> components (p @ ''/'' @ n) = components (p @ ''/'') @ [n]"
  using split_on_append [of "CHR ''/''" p n] split_on_append [of "CHR ''/''" p "[]"]
  by (simp add: plain_name_def components_def split_on_single del: split_on.simps) (cases p; simp del: split_on.simps)

lemma path_of_below: "plain_name n \<Longrightarrow> path_of (p @ ''/'' @ n) = (components (p @ ''/''), n)"
  using components_below [of n p] by (simp add: path_of_def)

definition log_dir :: "log_env \<Rightarrow> string list" where
  "log_dir V = components (log_path (lv_vars V) @ ''/'')"

lemma log_paths:
  "log_filepath V = (log_dir V, ''log'')" "logtmp_filepath V = (log_dir V, ''log.tmp'')"
  "CHR ''/'' \<notin> set n \<Longrightarrow> gz_filepath V n = (log_dir V, n @ ''.gz'')"
  using path_of_below [of "''log''" "log_path (lv_vars V)"] path_of_below [of "''log.tmp''" "log_path (lv_vars V)"]
    path_of_below [of "n @ ''.gz''" "log_path (lv_vars V)"]
  by (auto simp: log_filepath_def logtmp_filepath_def gz_filepath_def log_dir_def plain_name_def)

lemma gz_names: "n @ ''.gz'' \<noteq> ''log''" "n @ ''.gz'' \<noteq> ''log.tmp''"
  by (auto simp: append_eq_Cons_conv)

lemma gz_not_log:
  assumes "CHR ''/'' \<notin> set n"
  shows "gz_filepath V n \<noteq> log_filepath V" "gz_filepath V n \<noteq> logtmp_filepath V"
    and "CHR ''/'' \<notin> set m \<Longrightarrow> gz_filepath V m = gz_filepath V n \<longleftrightarrow> m = n"
  using assms gz_names [of n] by (simp_all add: log_paths)

section \<open>What rotation keeps\<close>

definition file_data :: "logger \<Rightarrow> path \<Rightarrow> bytes" where
  "file_data s p = (case fs_files (lg_fs s) p of None \<Rightarrow> [] | Some g \<Rightarrow> f_data g)"

lemma log_onlycli_fs [simp]: "lg_fs (log_onlycli V time x s) = lg_fs s"
  by (simp add: log_onlycli_def write_stream_def)

datatype log_event = Emit append_io nat string log_entry | Thread roll_io string

fun log_step :: "log_env \<Rightarrow> log_event \<Rightarrow> logger \<Rightarrow> logger" where
  "log_step V (Emit io now time x) s = emit V io now time x s"
| "log_step V (Thread io time) s = roll_thread V io time s"

fun event_fine :: "log_event \<Rightarrow> bool" where
  "event_fine (Emit io now time x) \<longleftrightarrow> ap_open io = None \<and> ap_partial io = None"
| "event_fine (Thread io time) \<longleftrightarrow> io_rename (ro_rename io) = None \<and> ar_read (ro_archive io) = None \<and> ar_create (ro_archive io) = None \<and>
     ar_partial (ro_archive io) = None \<and> ar_remove (ro_archive io) = None"

fun event_text :: "log_event \<Rightarrow> bytes" where
  "event_text (Emit io now time x) = format_entry (level_str (le_level x)) (Some time) (le_topic x) (le_content x) @ NL"
| "event_text (Thread io time) = []"

fun event_names :: "log_event \<Rightarrow> string list" where
  "event_names (Emit io now time x) = []"
| "event_names (Thread io time) = [ro_name io]"

lemma emit_files:
  assumes "log_mode_of (lv_vars V) = LogFile" "event_fine (Emit io now time x)"
  shows "fs_files (lg_fs (emit V io now time x s)) = (fs_files (lg_fs s))(log_filepath V \<mapsto>
    (case fs_files (lg_fs s) (log_filepath V) of None \<Rightarrow> \<lparr>f_data = event_text (Emit io now time x), f_mode = ap_mode io\<rparr>
     | Some g \<Rightarrow> g\<lparr>f_data := f_data g @ event_text (Emit io now time x)\<rparr>))"
proof -
  have "lg_fs (maybe_check_and_roll V now s) = lg_fs s"
    by (simp add: maybe_check_and_roll_def check_and_roll_def split: option.split)
  then show ?thesis
    using assms by (simp add: emit_def log_write_def append_file_def write_stream_def Let_def split: option.split)
qed

lemma rolled_files:
  assumes "event_fine (Thread io time)" "fs_files (lg_fs s) (log_filepath V) = Some g" "CHR ''/'' \<notin> set (ro_name io)"
    and "fs_files (lg_fs s) (gz_filepath V (ro_name io)) = None"
  shows "fs_files (lg_fs (perform_roll V io time s)) = (fs_files (lg_fs s))(log_filepath V := None, logtmp_filepath V := None,
    gz_filepath V (ro_name io) \<mapsto> \<lparr>f_data = lv_gzip V (f_data g), f_mode = ar_mode (ro_archive io)\<rparr>)"
  using assms gz_names [of "ro_name io"]
  by (auto simp: perform_roll_def archive_and_cleanup_def fs_rename_def log_paths Let_def fun_eq_iff)

lemma thread_files:
  assumes "event_fine (Thread io time)" "CHR ''/'' \<notin> set (ro_name io)" "fs_files (lg_fs s) (gz_filepath V (ro_name io)) = None"
  shows "lg_fs (roll_thread V io time s) = lg_fs s \<or> (\<exists>g. fs_files (lg_fs s) (log_filepath V) = Some g \<and>
    fs_files (lg_fs (roll_thread V io time s)) = (fs_files (lg_fs s))(log_filepath V := None, logtmp_filepath V := None,
      gz_filepath V (ro_name io) \<mapsto> \<lparr>f_data = lv_gzip V (f_data g), f_mode = ar_mode (ro_archive io)\<rparr>))"
  using rolled_files [OF assms(1) _ assms(2,3)]
  by (cases "fs_files (lg_fs s) (log_filepath V)") (auto simp: roll_thread_def)

text \<open>A sequence of events, oldest first.\<close>

definition log_run :: "log_env \<Rightarrow> log_event list \<Rightarrow> logger \<Rightarrow> logger" where
  "log_run V evs s = fold (log_step V) evs s"

abbreviation names_of :: "log_event list \<Rightarrow> string list" where
  "names_of evs \<equiv> concat (map event_names evs)"

text \<open>
  From \<open>s\<close> to \<open>t\<close>, with archives of these names: some of them unpacked, in order, then the log, are the log of \<open>s\<close>
  and then the text; no temporary file is left, and no other file has changed.
\<close>

definition kept :: "(bytes \<Rightarrow> bytes) \<Rightarrow> log_env \<Rightarrow> string list \<Rightarrow> bytes \<Rightarrow> logger \<Rightarrow> logger \<Rightarrow> bool" where
  "kept gunzip V names text s t \<longleftrightarrow> (\<exists>ns. subseq ns names \<and>
     concat (map (\<lambda>n. gunzip (file_data t (gz_filepath V n))) ns) @ file_data t (log_filepath V) = file_data s (log_filepath V) @ text \<and>
     fs_files (lg_fs t) (logtmp_filepath V) = None \<and>
     (\<forall>q. q \<noteq> log_filepath V \<and> q \<noteq> logtmp_filepath V \<and> q \<notin> gz_filepath V ` set names \<longrightarrow> fs_files (lg_fs t) q = fs_files (lg_fs s) q))"

lemma kept_write:
  assumes "kept gunzip V names text s1 t" "subseq names names'" "file_data s1 (log_filepath V) = file_data s (log_filepath V) @ line"
    and "\<And>q. q \<noteq> log_filepath V \<Longrightarrow> fs_files (lg_fs s1) q = fs_files (lg_fs s) q"
  shows "kept gunzip V names' (line @ text) s t"
proof -
  have sub: "set names \<subseteq> set names'"
    using assms(2) by (auto elim: list_emb_set)
  obtain ns where ns: "subseq ns names" "fs_files (lg_fs t) (logtmp_filepath V) = None"
    "concat (map (\<lambda>n. gunzip (file_data t (gz_filepath V n))) ns) @ file_data t (log_filepath V) = file_data s1 (log_filepath V) @ text"
    and other: "\<And>q. q \<noteq> log_filepath V \<Longrightarrow> q \<noteq> logtmp_filepath V \<Longrightarrow> q \<notin> gz_filepath V ` set names \<Longrightarrow>
      fs_files (lg_fs t) q = fs_files (lg_fs s1) q"
    using assms(1) unfolding kept_def by blast
  have "fs_files (lg_fs t) q = fs_files (lg_fs s) q"
    if "q \<noteq> log_filepath V" "q \<noteq> logtmp_filepath V" "q \<notin> gz_filepath V ` set names'" for q
    using other [of q] assms(4) [of q] that sub by (metis image_mono subsetD)
  then show ?thesis
    unfolding kept_def using ns assms(3) subseq_order.order_trans [OF ns(1) assms(2)] by (intro exI [of _ ns]) simp
qed

lemma kept_roll:
  assumes "kept gunzip V names text s1 t" "\<And>d. gunzip (lv_gzip V d) = d" "fs_files (lg_fs s) (log_filepath V) = Some g"
    and "fs_files (lg_fs s1) = (fs_files (lg_fs s))(log_filepath V := None, logtmp_filepath V := None,
      gz_filepath V n \<mapsto> \<lparr>f_data = lv_gzip V (f_data g), f_mode = m\<rparr>)"
    and "CHR ''/'' \<notin> set n" "n \<notin> set names" "\<forall>x \<in> set names. CHR ''/'' \<notin> set x"
  shows "kept gunzip V (n # names) text s t"
proof -
  obtain ns where ns: "subseq ns names" "fs_files (lg_fs t) (logtmp_filepath V) = None"
    "concat (map (\<lambda>n. gunzip (file_data t (gz_filepath V n))) ns) @ file_data t (log_filepath V) = file_data s1 (log_filepath V) @ text"
    and other: "\<And>q. q \<noteq> log_filepath V \<Longrightarrow> q \<noteq> logtmp_filepath V \<Longrightarrow> q \<notin> gz_filepath V ` set names \<Longrightarrow>
      fs_files (lg_fs t) q = fs_files (lg_fs s1) q"
    using assms(1) unfolding kept_def by blast
  have "gz_filepath V n \<notin> gz_filepath V ` set names"
    using assms(5-7) gz_not_log(3) by auto
  then have "file_data t (gz_filepath V n) = lv_gzip V (f_data g)"
    using other [of "gz_filepath V n"] gz_not_log [OF assms(5)] by (simp add: file_data_def assms(4))
  moreover have "file_data s1 (log_filepath V) = []" "file_data s (log_filepath V) = f_data g"
    using assms(3) gz_not_log(1) [OF assms(5), of V] by (auto simp: file_data_def assms(4))
  ultimately have "concat (map (\<lambda>n. gunzip (file_data t (gz_filepath V n))) (n # ns)) @ file_data t (log_filepath V) =
      file_data s (log_filepath V) @ text"
    using ns(3) assms(2) by simp
  moreover have "fs_files (lg_fs t) q = fs_files (lg_fs s) q"
    if "q \<noteq> log_filepath V" "q \<noteq> logtmp_filepath V" "q \<notin> gz_filepath V ` set (n # names)" for q
    using other [of q] that by (simp add: assms(4))
  ultimately show ?thesis
    unfolding kept_def using ns(1,2) by (intro exI [of _ "n # ns"]) auto
qed

lemma log_run_kept:
  assumes "log_mode_of (lv_vars V) = LogFile" "\<And>d. gunzip (lv_gzip V d) = d"
    and "list_all event_fine evs" "distinct (names_of evs)"
    and "\<forall>n \<in> set (names_of evs). CHR ''/'' \<notin> set n \<and> fs_files (lg_fs s) (gz_filepath V n) = None"
    and "fs_files (lg_fs s) (logtmp_filepath V) = None"
  shows "kept gunzip V (names_of evs) (concat (map event_text evs)) s (log_run V evs s)"
  using assms(3-)
proof (induction evs arbitrary: s)
  case Nil
  then show ?case
    unfolding kept_def by (intro exI [of _ "[]"]) (simp add: log_run_def)
next
  case (Cons e evs)
  define s1 where "s1 = log_step V e s"
  have run: "log_run V (e # evs) s = log_run V evs s1"
    by (simp add: log_run_def s1_def)
  have names: "distinct (names_of evs)" "\<forall>n \<in> set (names_of evs). CHR ''/'' \<notin> set n"
    using Cons.prems by auto
  show ?case
  proof (cases e)
    case (Emit io now time x)
    then have fs1: "fs_files (lg_fs s1) = (fs_files (lg_fs s))(log_filepath V \<mapsto> the (fs_files (lg_fs s1) (log_filepath V)))"
      and data1: "file_data s1 (log_filepath V) = file_data s (log_filepath V) @ event_text e"
      using emit_files [OF assms(1), of io now time x s] Cons.prems(1)
      by (auto simp: s1_def file_data_def split: option.splits)
    have other: "fs_files (lg_fs s1) q = fs_files (lg_fs s) q" if "q \<noteq> log_filepath V" for q
      using that by (subst fs1) simp
    have "kept gunzip V (names_of evs) (concat (map event_text evs)) s1 (log_run V evs s1)"
      using Cons.prems Emit names gz_not_log by (intro Cons.IH) (auto simp: other log_paths(1,2))
    from kept_write [OF this _ data1 other] show ?thesis
      unfolding run by (simp add: Emit)
  next
    case (Thread io time)
    have n: "event_fine (Thread io time)" "CHR ''/'' \<notin> set (ro_name io)" "ro_name io \<notin> set (names_of evs)"
      "fs_files (lg_fs s) (gz_filepath V (ro_name io)) = None"
      using Cons.prems(1-3) Thread by auto
    from thread_files [OF n(1,2,4)] consider "lg_fs s1 = lg_fs s"
      | g where "fs_files (lg_fs s) (log_filepath V) = Some g" "fs_files (lg_fs s1) = (fs_files (lg_fs s))(log_filepath V := None,
          logtmp_filepath V := None, gz_filepath V (ro_name io) \<mapsto> \<lparr>f_data = lv_gzip V (f_data g), f_mode = ar_mode (ro_archive io)\<rparr>)"
      using Thread by (auto simp: s1_def)
    then show ?thesis
    proof cases
      case 1
      have "kept gunzip V (names_of evs) (concat (map event_text evs)) s1 (log_run V evs s1)"
      proof (rule Cons.IH)
        show "\<forall>n \<in> set (names_of evs). CHR ''/'' \<notin> set n \<and> fs_files (lg_fs s1) (gz_filepath V n) = None"
          using Cons.prems(3) by (simp add: 1)
      qed (use Cons.prems(1,4) names(1) in \<open>simp_all add: 1\<close>)
      from kept_write [OF this, where line = "[]" and names' = "names_of (e # evs)" and s = s] show ?thesis
        unfolding run using Thread by (simp add: file_data_def 1 list_emb_Cons)
    next
      case 2
      have "kept gunzip V (names_of evs) (concat (map event_text evs)) s1 (log_run V evs s1)"
      proof (rule Cons.IH)
        have "gz_filepath V n \<noteq> gz_filepath V (ro_name io)" if "n \<in> set (names_of evs)" for n
          using that n(3) names(2) gz_not_log(3) [OF n(2), of n V] by auto
        then show "\<forall>n \<in> set (names_of evs). CHR ''/'' \<notin> set n \<and> fs_files (lg_fs s1) (gz_filepath V n) = None"
          using Cons.prems(3) by (auto simp: 2(2))
        show "fs_files (lg_fs s1) (logtmp_filepath V) = None"
          using gz_not_log(2) [OF n(2), of V] by (simp add: 2(2))
      qed (use Cons.prems(1) names(1) in simp_all)
      from kept_roll [OF this assms(2) 2 n(2,3) names(2)] show ?thesis
        unfolding run by (simp add: Thread)
    qed
  qed
qed

text \<open>
  C23: No log line is lost by rotation. In file mode, take any sequence of emitted entries and of rotation threads, started or not, at
  any point between them, whose system calls succeed, where the archives get names that are new, and where no temporary
  file is left over at the start. Then some of the archives, unpacked and in the order they were made, followed by the log file, hold what
  the log file held at the start followed by every emitted entry, each once and in order; no temporary file is left. (The packed form can be unpacked.)
\<close>

theorem log_lines_kept:
  assumes "log_mode_of (lv_vars V) = LogFile" "\<And>d. gunzip (lv_gzip V d) = d"
    and "list_all event_fine evs" "distinct (names_of evs)"
    and "\<forall>n \<in> set (names_of evs). CHR ''/'' \<notin> set n \<and> fs_files (lg_fs s) (gz_filepath V n) = None"
    and "fs_files (lg_fs s) (logtmp_filepath V) = None" "t = log_run V evs s"
  shows "fs_files (lg_fs t) (logtmp_filepath V) = None \<and> (\<exists>ns. subseq ns (names_of evs) \<and>
    concat (map (\<lambda>n. gunzip (file_data t (gz_filepath V n))) ns) @ file_data t (log_filepath V) =
      file_data s (log_filepath V) @ concat (map event_text evs))"
  using log_run_kept [OF assms(1-6)] assms(7) unfolding kept_def by blast

definition demo_log_env :: log_env where
  "demo_log_env = \<lparr>lv_vars = (\<lambda>_. None), lv_gzip = rev, lv_paint = level_str, lv_terminal = False\<rparr>"

definition demo_log_state :: logger where
  "demo_log_state = \<lparr>lg_fs = \<lparr>fs_files = [(log_filepath demo_log_env) \<mapsto> \<lparr>f_data = ''old'' @ NL, f_mode = 0x180\<rparr>], fs_dirs = (\<lambda>_. True)\<rparr>,
     lg_stream = [], lg_checked = None, lg_rolling = True, lg_thread = True\<rparr>"

definition demo_archive_io :: archive_io where
  "demo_archive_io = \<lparr>ar_read = None, ar_create = None, ar_partial = None, ar_remove = None, ar_mode = 0x180\<rparr>"


definition demo_roll_io :: "archive_io \<Rightarrow> string \<Rightarrow> roll_io" where
  "demo_roll_io io name = \<lparr>ro_rename = io_fine, ro_again = io_fine, ro_repair = demo_archive_io, ro_archive = io, ro_name = name, ro_repair_name = name\<rparr>"

definition demo_append_io :: append_io where
  "demo_append_io = \<lparr>ap_open = None, ap_partial = None, ap_mode = 0x180\<rparr>"

abbreviation demo_entry :: log_entry where
  "demo_entry \<equiv> \<lparr>le_level = Lv_Error, le_topic = ''topic'', le_content = ''content''\<rparr>"

abbreviation demo_events :: "log_event list" where
  "demo_events \<equiv> [Emit demo_append_io 0 ''12:00'' demo_entry, Thread (demo_roll_io demo_archive_io ''1'') ''12:01'',
     Emit demo_append_io 7000000000 ''12:02'' demo_entry]"

lemma demo_log_start:
  "log_mode_of (lv_vars demo_log_env) = LogFile" "rev (lv_gzip demo_log_env d) = d"
  "CHR ''/'' \<notin> set n \<Longrightarrow> fs_files (lg_fs demo_log_state) (gz_filepath demo_log_env n) = None"
  "fs_files (lg_fs demo_log_state) (logtmp_filepath demo_log_env) = None"
  "file_data demo_log_state (log_filepath demo_log_env) = ''old'' @ NL"
  using gz_names [of n]
  by (simp_all add: demo_log_env_def log_mode_of_def demo_log_state_def file_data_def log_paths log_dir_def)

theorem log_lines_kept_witness:
  "let t = log_run demo_log_env demo_events demo_log_state in
   fs_files (lg_fs t) (logtmp_filepath demo_log_env) = None \<and> (\<exists>ns. subseq ns [''1''] \<and>
    concat (map (\<lambda>n. rev (file_data t (gz_filepath demo_log_env n))) ns) @ file_data t (log_filepath demo_log_env) =
      ''old'' @ NL @ concat (map event_text demo_events))"
proof -
  have names: "names_of demo_events = [''1'']"
    by (simp add: demo_roll_io_def)
  have "list_all event_fine demo_events"
    by (simp add: demo_roll_io_def demo_append_io_def demo_archive_io_def io_fine_def)
  moreover have "\<forall>n \<in> set (names_of demo_events). CHR ''/'' \<notin> set n \<and> fs_files (lg_fs demo_log_state) (gz_filepath demo_log_env n) = None"
    unfolding names using demo_log_start(3) [of "''1''"] by simp
  ultimately show ?thesis
    using log_lines_kept [OF demo_log_start(1,2) _ _ _ demo_log_start(4) refl, of demo_events]
    unfolding Let_def names demo_log_start(5) by simp
qed

section \<open>A left-over temporary file\<close>

text \<open>
  C40: A rotation whose archive cannot be created leaves the log in the temporary file, and the next rotation loses it: if an
  entry is appended in between and the next rotation succeeds, then the only file with log text is the new archive, and it holds
  that entry alone. (The repair of a left-over temporary file runs when \<open>rename\<close> reports that the target exists; on Unix it replaces the target.)
\<close>

theorem leftover_overwritten:
  assumes "fs_files (lg_fs s) (log_filepath V) = Some g" "fs_files (lg_fs s) (logtmp_filepath V) = None"
    and "io_rename (ro_rename io1) = None" "ar_create (ro_archive io1) \<noteq> None"
    and "ap_open io = None" "ap_partial io = None" "event_fine (Thread io2 time2)"
    and "CHR ''/'' \<notin> set (ro_name io2)" "fs_files (lg_fs s) (gz_filepath V (ro_name io2)) = None"
    and "s1 = perform_roll V io1 time1 s" "s2 = append_file V io time text s1" "s3 = perform_roll V io2 time2 s2"
  shows "fs_files (lg_fs s1) = (fs_files (lg_fs s))(log_filepath V := None, logtmp_filepath V \<mapsto> g) \<and>
    fs_files (lg_fs s3) = (fs_files (lg_fs s))(log_filepath V := None,
      gz_filepath V (ro_name io2) \<mapsto> \<lparr>f_data = lv_gzip V (text @ NL), f_mode = ar_mode (ro_archive io2)\<rparr>)"
proof -
  have 1: "fs_files (lg_fs s1) = (fs_files (lg_fs s))(log_filepath V := None, logtmp_filepath V \<mapsto> g)"
    using assms(1-4) unfolding assms(10) by (auto simp: perform_roll_def archive_and_cleanup_def fs_rename_def log_paths Let_def split: option.splits)
  have 2: "fs_files (lg_fs s2) = (fs_files (lg_fs s1))(log_filepath V \<mapsto> \<lparr>f_data = text @ NL, f_mode = ap_mode io\<rparr>)"
    using assms(5,6) 1 unfolding assms(11) by (simp add: append_file_def log_paths)
  have "fs_files (lg_fs s2) (gz_filepath V (ro_name io2)) = None"
    using gz_not_log [OF assms(8), where V = V] assms(9) by (simp add: 1 2)
  from rolled_files [OF assms(7) _ assms(8) this] show ?thesis
    using assms(2) unfolding assms(12) by (auto simp: 1 2 log_paths fun_eq_iff)
qed

theorem leftover_overwritten_witness:
  "let io1 = demo_roll_io (demo_archive_io\<lparr>ar_create := Some Io_NotFound\<rparr>) ''1''; io2 = demo_roll_io demo_archive_io ''2'';
     s1 = perform_roll demo_log_env io1 ''12:00'' demo_log_state; s2 = append_file demo_log_env demo_append_io ''12:01'' ''new'' s1;
     s3 = perform_roll demo_log_env io2 ''12:02'' s2
   in fs_files (lg_fs s3) = [gz_filepath demo_log_env ''2'' \<mapsto> \<lparr>f_data = rev (''new'' @ NL), f_mode = 0x180\<rparr>]"
proof -
  have "fs_files (lg_fs demo_log_state) (log_filepath demo_log_env) = Some \<lparr>f_data = ''old'' @ NL, f_mode = 0x180\<rparr>"
    by (simp add: demo_log_state_def)
  from leftover_overwritten [OF this demo_log_start(4), of "demo_roll_io (demo_archive_io\<lparr>ar_create := Some Io_NotFound\<rparr>) ''1''"
      demo_append_io "demo_roll_io demo_archive_io ''2''" "''12:02''", OF _ _ _ _ _ _ _ refl refl refl, of "''12:00''" "''12:01''" "''new''"]
  show ?thesis
    using demo_log_start(3) [of "''2''"]
    by (simp add: Let_def demo_roll_io_def demo_archive_io_def demo_append_io_def io_fine_def)
      (simp add: demo_log_state_def demo_log_env_def)
qed

section \<open>One line for the journal\<close>

lemma ws_prefix_newline: "ws_prefix s = 0 \<Longrightarrow> s \<noteq> [] \<Longrightarrow> hd s \<noteq> CHR 0x0A"
  by (cases s rule: ws_prefix.cases) auto

lemma split_words_plain: "CHR 0x0A \<notin> set word \<Longrightarrow> w \<in> set (split_words word s) \<Longrightarrow> CHR 0x0A \<notin> set w"
proof (induction word s rule: split_words.induct)
  case (1 word s)
  consider "s = []" | "s \<noteq> []" "ws_prefix s = 0" | "s \<noteq> []" "ws_prefix s \<noteq> 0"
    by blast
  then show ?case
  proof cases
    case 1
    then show ?thesis
      using "1.prems" by (simp add: split_words.simps [of word "[]"] split: if_splits)
  next
    case 2
    then show ?thesis
      using "1.IH"(1) "1.prems" ws_prefix_newline [of s] by (simp add: split_words.simps [of word s])
  next
    case 3
    then have "w = word \<or> w \<in> set (split_words [] (drop (ws_prefix s) s))"
      using "1.prems"(2) by (simp add: split_words.simps [of word s] split: if_splits)
    then show ?thesis
      using 3 "1.IH"(2) "1.prems"(1) by auto
  qed
qed

lemma join_with_set: "set (join_with sep xs) \<subseteq> set sep \<union> \<Union> (set ` set xs)"
  by (induction sep xs rule: join_with.induct) auto

text \<open>An entry is one line for the journal, whatever its content, when its topic is.\<close>

theorem journald_single_line:
  assumes "CHR 0x0A \<notin> set (le_topic x)"
  shows "CHR 0x0A \<notin> set (render_journald x)"
proof -
  have "CHR 0x0A \<notin> set (join_with '' '' (split_words [] (le_content x)))"
    using join_with_set [of "'' ''" "split_words [] (le_content x)"] split_words_plain [of "[]"] by auto
  with assms show ?thesis
    by (cases "le_level x") (auto simp: render_journald_def Let_def decimal.simps char_of_def)
qed

theorem journald_single_line_witness:
  "render_journald \<lparr>le_level = Lv_Error, le_topic = ''topic'', le_content = ''line1'' @ NL @ ''line2''\<rparr> = ''<3>[!] topic: line1 line2'' \<and>
   CHR 0x0A \<notin> set (render_journald \<lparr>le_level = Lv_Error, le_topic = ''topic'', le_content = ''line1'' @ NL @ ''line2''\<rparr>)"
  using journald_single_line [of "\<lparr>le_level = Lv_Error, le_topic = ''topic'', le_content = ''line1'' @ NL @ ''line2''\<rparr>"]
  by (simp add: render_journald_def Let_def split_words.simps decimal.simps char_of_def bit_Suc_0_iff)

end
