(* ===== verification/Spec2Isabelle.thy ===== *)
theory Spec2Isabelle
  imports Store_Merge Storage Runtime Network Ctl Log
begin

text \<open>
  \<^bold>\<open>NexusAuth\<close> is a sidecar of NexusNet nodes. For each service of a network it keeps the whitelist of the peers that may
  use it, signs the whitelists and an index of them with the authority key of the network, and has the node publish them
  in the DHT. Administrators change the whitelists. There are two modes. In the old mode every sidecar holds the seed of the
  authority key and its own copy of the state; changes are authenticated by a password and spread by replication and
  anti-entropy. In Raft mode (\<open>[cluster].enabled\<close>) the state is a replicated state machine, changes are signed by
  administrators, other nodes forward them to the leader, and only the leader publishes.

  \<^bold>\<open>Conventions.\<close> A byte is a \<open>char\<close>, so \<open>String\<close> and \<open>Vec<u8>\<close> are \<open>string\<close>; \<open>u64\<close>, \<open>u32\<close> and \<open>u8\<close> are words, \<open>+\<close> on
  them wraps as in a release build and \<open>saturating_add\<close> is \<open>sat_add\<close>; \<open>BTreeMap\<close> is the type \<open>btmap\<close> of
  \<open>BTree_Map\<close>, \<open>BTreeSet<String>\<close> is \<open>string fset\<close>. A fallible function returns a sum, \<open>Inl\<close> its error; a panic is an
  error of its own. The file system is a map from paths to files, and every system call may fail as a record \<open>io\<close>
  says. Cryptography and encodings come from crates outside this repository: they are the fields of the record \<open>ext\<close>
  (argument \<open>X\<close>), and what the code relies on are named laws (\<open>sig_law\<close>, \<open>cbor_law\<close>, \<open>hmac_law\<close>, ...); \<open>demo_ext\<close> satisfies
  all of them. Clock, random numbers, openraft, the network and the node are arguments or fields of the record
  \<open>env\<close> (argument \<open>Y\<close>), the derived JSON and CBOR decoders of the request types fields of \<open>serde\<close> (argument \<open>Z\<close>). Handlers
  that touch the whole process are actions on its state \<open>node\<close>; what leaves the process is appended to a trace of events.

  \<^bold>\<open>Foundations.\<close>
  \<^item> \<open>Prelude\<close>, \<open>BTree_Map\<close> (locale \<open>ordered_map\<close>), \<open>External\<close>: words, strings, ordered maps, the parameters and their laws.
  \<^item> \<open>Fsutil\<close>: \<open>src/fsutil.rs\<close>. A file written only atomically always holds the last data written (locale \<open>atomic_cell\<close>).
  \<^item> \<open>Replay\<close>: \<open>src/replay.rs\<close>. An accepted nonce is refused until ten thousand others came (locale \<open>replay_protection\<close>).
  \<^item> \<open>Config\<close>: \<open>src/paths.rs\<close>, \<open>src/config.rs\<close>, \<open>src/security.rs\<close>. Loading ends and loses no file. The search for a free backup
    name is a \<open>partial_function\<close> with the 32-bit counter of the code; that it ends with fewer than \<open>2 ^ 32\<close> files is proved.

  \<^bold>\<open>Authority and the old mode.\<close>
  \<^item> \<open>Authority\<close>: \<open>src/authority.rs\<close>, names, record keys, signed records. Signed records verify.
  \<^item> \<open>Store\<close>, \<open>Store_Merge\<close>: \<open>src/store.rs\<close>. Replicas that receive the same changes in any order converge (locale
    \<open>lww_merge\<close>), anti-entropy converges, a restart gives the state back.
  \<^item> \<open>Fresh\<close>, \<open>Admin\<close>: the contract of authenticators with nonces (locale \<open>fresh_auth\<close>) and \<open>src/admin.rs\<close>.
  \<^item> \<open>Replicate\<close>: \<open>src/replicate.rs\<close>. \<open>Join\<close>: \<open>src/join.rs\<close>, fetching the seed with the password: which
    requests are answered, and that nothing else changes.

  \<^bold>\<open>Raft mode.\<close>
  \<^item> \<open>Policy\<close>, \<open>Policy_Inv\<close>, \<open>Policy_Runs\<close>: \<open>src/raft/state_machine.rs\<close> and \<open>src/raft/types.rs\<close>. Well-formedness, exactly-once
    application of requests, bounds on join tokens, refinement of the old store, over any log (by induction on it).
  \<^item> \<open>Admin_V2\<close>: \<open>src/admin_v2.rs\<close>, signed administrator requests.
  \<^item> \<open>Transport\<close>: \<open>src/raft/transport.rs\<close>. \<open>Token\<close>: \<open>src/raft/token.rs\<close>, \<open>src/raft/join.rs\<close>, exactly
    which join requests are accepted. \<open>Seed\<close>: \<open>src/raft/seed.rs\<close>.
  \<^item> \<open>Storage\<close>: \<open>src/raft/storage.rs\<close>. The log store implements a map from indexes to entries and the state machine survives
    restarts and failed transactions (locale \<open>durable_object\<close>).

  \<^bold>\<open>The process.\<close>
  \<^item> \<open>Protocol\<close>: \<open>src/protocol.rs\<close>, frames. \<open>Connection\<close>: \<open>src/connection.rs\<close>, as a step relation on interleaved calls. A
    caller that drops its call while waiting is not a step.
  \<^item> \<open>Sidecar\<close>: \<open>src/context.rs\<close>, the state of the process, actions, and the frame rules (locale \<open>frame\<close>).
  \<^item> \<open>Cluster\<close>: \<open>src/raft/mod.rs\<close>, \<open>src/raft/bootstrap.rs\<close>, the transport of \<open>src/raft/network.rs\<close>. The membership
    changes asked for, from the voters read at the start, are the intended ones. That a node which is no leader refuses a change is
    stated over the metrics the code reads last (\<open>forward_law\<close>): a leadership won between that reading and the call is left out. The wait for a new leader polls \<open>y_polls\<close> times, the number of pauses before the deadline.
  \<^item> \<open>Network\<close>: the calls of \<open>src/raft/network.rs\<close> that openraft makes. Joined to the handler of a peer, a call returns what openraft
    answers there.
  \<^item> \<open>Publisher\<close>: \<open>src/publisher.rs\<close>. The index goes out last. Attempts are bounded by \<open>PUBLISH_ATTEMPTS\<close> and
    \<open>PUBLISH_ROUND_ATTEMPTS\<close>, as in the code.
  \<^item> \<open>Service\<close>, \<open>Service_Props\<close>: \<open>src/service.rs\<close>, every handler and their dispatch. What a request may cause in each mode
    and how the replicated policy moves while requests are served (locale \<open>env_relation\<close>), that verified writes are carried out, published
    and answered by their outcome, and
    which requests are always refused.
  \<^item> \<open>Runtime\<close>: \<open>src/runtime.rs\<close>, the start of \<open>src/main.rs\<close>, the loop of the publisher. Starting is fail-closed; a follower
    publishes nothing. The number of join attempts before the deadline is an argument.
  \<^item> \<open>Backup\<close>: \<open>src/backup.rs\<close>, with every system call fallible. A backup that ends holds what its manifest says, and it ends when no call
    fails. The recursion into directories has fuel; more than the depth of the tree is enough, and is a hypothesis where it matters.
  \<^item> \<open>Ctl\<close>: \<open>src/ctl.rs\<close>, the command line tool from its arguments to its exit code. It never panics, and a dry run sends no write.
    This theory joins it to the state machine: a retried command is applied once.
  \<^item> \<open>Log\<close>: \<open>src/log.rs\<close>, entries, streams and the rotation of the log file, as steps in any order. Rotation loses no line unless an archive
    could not be made.

  \<^bold>\<open>Not modelled.\<close> Sockets, tasks, locks and timers (\<open>src/main.rs\<close> after the start, the accept and read loops, \<open>sync_loop\<close>) are the
  operating system's and tokio's; handlers run one after another, and where the code awaits, the environment may change
  arbitrarily in between. openraft's protocol is a library: proposals, membership changes and metrics are calls with the stated
  laws. Where the handlers write log and audit lines, the lines are left out: they influence nothing. The wrappers of \<open>src/connection.rs\<close> that only
  fill in one control message, the getters of \<open>ConfigHandle\<close> and the trait forwarding of \<open>AdminRaft\<close> are the calls and fields they
  forward to. Texts of error messages are reduced to their causes. Side channels and key zeroing are outside a functional model.
\<close>

section \<open>From the command line to the state machine\<close>

text \<open>
  C3: A command that is sent twice is applied once. When the command line tool sends a write a second time because the first
  connection failed, and both requests reach a leader that verifies them, then the commands the leader proposes for them
  carry the same id and content hash: the second finds the first in the policy, changes nothing and returns the first's
  outcome, epoch and log index - as long as fewer than ten thousand administrator requests were logged in between
  and none of them more than a day later.
\<close>

theorem retry_applied_once:
  assumes "send_request X C rx op service peers m tok i = (r, [q1, q2])"
    and "admin_v2_verify X a1 q1 now1 = (Inr va1, a1')" "admin_v2_verify X a2 q2 now2 = (Inr va2, a2')"
    and "bt_get (ps_dedup p) (rx_request_id rx) = None" "\<forall>(k, e) \<in> set (entries (ps_dedup p)). ar_raft_index e < j"
    and "apply_command_at X (admin_command q1 va1 c) j p = (first, p1)"
    and "list_all (\<lambda>(c, _). within_ttl (rq_ts q1) c) log" "length (filter (is_admin \<circ> fst) log) < DEDUP_MAX_ENTRIES"
    and "p2 = policy_run X log p1"
  shows "\<exists>epoch out. first = ResAdmin (rx_request_id rx) epoch j False out \<and>
    apply_command_at X (admin_command q2 va2 c') k p2 = (ResAdmin (rx_request_id rx) epoch j True out, p2)"
proof -
  obtain n1 t1 where b1: "build_request X (rx_key rx) (rx_kid rx) op service peers (rx_request_id rx) m tok n1 t1 = Inr q1"
    using send_request_sent(2) [OF assms(1), of q1] by auto
  obtain n2 t2 where b2: "build_request X (rx_key rx) (rx_kid rx) op service peers (rx_request_id rx) m tok n2 t2 = Inr q2"
    using send_request_sent(2) [OF assms(1), of q2] by auto
  have "request_hash X q1 = Inr (va_request_hash va1)" "request_hash X q2 = Inr (va_request_hash va2)"
    using assms(2,3) by (auto dest!: admin_v2_verify_ok)
  with request_hash_of_command [OF b1 b2] have hash: "va_request_hash va2 = va_request_hash va1"
    by simp
  have ids: "rq_request_id q1 = rx_request_id rx" "rq_request_id q2 = rx_request_id rx"
    using request_of_command(5) [OF b1] request_of_command(5) [OF b2] by simp_all
  obtain epoch out where e: "first = ResAdmin (rx_request_id rx) epoch j False out"
    and r: "remembered (rx_request_id rx) \<lparr>ar_request_hash = va_request_hash va1, ar_outcome = out, ar_policy_epoch = epoch, ar_raft_index = j,
      ar_request_ts = rq_ts q1\<rparr> 0 p1"
    using first_remembered [OF assms(4,5), of X "va_request_hash va1" "rq_ts q1" c] assms(6) ids by (auto simp: admin_command_def)
  have "bt_get (ps_dedup p2) (rx_request_id rx) = Some \<lparr>ar_request_hash = va_request_hash va1, ar_outcome = out, ar_policy_epoch = epoch,
      ar_raft_index = j, ar_request_ts = rq_ts q1\<rparr>"
    using run_remembered [OF r, of log X] assms(7-9) by simp
  then show ?thesis
    using e hash ids by (simp add: admin_command_def apply_admin_def)
qed

text \<open>A tool whose connections never open, so that both attempts are made.\<close>

definition demo_rx :: request_context where
  "demo_rx = \<lparr>rx_server = ''s'', rx_key = demo_sk, rx_kid = ''ops'', rx_request_id = ''r1'', rx_dry_run = False\<rparr>"

lemma demo_built:
  obtains q where "build_request demo_ext demo_sk ''ops'' ''create_service'' ''cmd'' [''p''] ''r1'' None None [c] 1000 = Inr q"
    "\<exists>va a. admin_v2_verify demo_ext demo_verifier q 1000 = (Inr va, a)"
proof -
  let ?q = "\<lparr>rq_v = ADMIN_REQUEST_VERSION, rq_op = ''create_service'', rq_service = ''cmd'', rq_peers = canonical_peers [''p''], rq_kid = ''ops'',
    rq_request_id = ''r1'', rq_nonce = x_b64url demo_ext [c], rq_ts = 1000, rq_sig = [], rq_member = None, rq_join_token = None\<rparr>"
  obtain b where "signing_bytes demo_ext ?q = Inr b"
    by (rule signing_bytes_total [OF demo_laws(5)])
  then obtain q where q: "sign_request demo_ext demo_sk ?q = Inr q"
    by (auto simp: sign_request_def)
  have "well_formed_request ?q"
    by (simp add: well_formed_request_def demo_nonblank demo_ext_def)
  from signed_accepted [OF _ _ _ this q, of demo_verifier Root 1000] q show ?thesis
    by (intro that [of q]) (auto simp: build_request_def demo_verifier_def guard_default_def abs_diff_def)
qed

theorem retry_applied_once_witness:
  "\<exists>q1 q2 va1 va2 epoch out. send_request demo_ext demo_ctl demo_rx ''create_service'' ''cmd'' [''p''] None None 0 = (Inl CE_Transport, [q1, q2]) \<and>
     fst (apply_command_at demo_ext (admin_command q2 va2 (CreateService ''cmd'' [''p''])) 2
       (snd (apply_command_at demo_ext (admin_command q1 va1 (CreateService ''cmd'' [''p''])) 1 (policy_new ''net'')))) =
     ResAdmin ''r1'' epoch 1 True out"
proof -
  obtain q1 where q1: "build_request demo_ext demo_sk ''ops'' ''create_service'' ''cmd'' [''p''] ''r1'' None None [char_of (0 :: nat)] 1000 = Inr q1"
    "\<exists>va a. admin_v2_verify demo_ext demo_verifier q1 1000 = (Inr va, a)"
    by (rule demo_built)
  obtain q2 where q2: "build_request demo_ext demo_sk ''ops'' ''create_service'' ''cmd'' [''p''] ''r1'' None None [char_of (1 :: nat)] 1000 = Inr q2"
    "\<exists>va a. admin_v2_verify demo_ext demo_verifier q2 1000 = (Inr va, a)"
    by (rule demo_built)
  obtain va1 a1 va2 a2 where v: "admin_v2_verify demo_ext demo_verifier q1 1000 = (Inr va1, a1)" "admin_v2_verify demo_ext demo_verifier q2 1000 = (Inr va2, a2)"
    using q1(2) q2(2) by blast
  have json: "x_json demo_ext v = Some (enc_sval v)" for v
    by (simp add: demo_ext_def)
  have sent: "send_request demo_ext demo_ctl demo_rx ''create_service'' ''cmd'' [''p''] None None 0 = (Inl CE_Transport, [q1, q2])"
    using q1(1) q2(1)
    by (simp add: json send_request_def send_attempt_def demo_ctl_def demo_rx_def call_server_def)
  obtain first p1 where ap: "apply_command_at demo_ext (admin_command q1 va1 (CreateService ''cmd'' [''p''])) 1 (policy_new ''net'') = (first, p1)"
    by fastforce
  have "\<exists>epoch out. first = ResAdmin (rx_request_id demo_rx) epoch 1 False out \<and>
      apply_command_at demo_ext (admin_command q2 va2 (CreateService ''cmd'' [''p''])) 2 p1 = (ResAdmin (rx_request_id demo_rx) epoch 1 True out, p1)"
    by (rule retry_applied_once [OF sent v _ _ ap, of "[]"]) (simp_all add: policy_new_def DEDUP_MAX_ENTRIES_def)
  then obtain epoch out where "fst (apply_command_at demo_ext (admin_command q2 va2 (CreateService ''cmd'' [''p''])) 2
      (snd (apply_command_at demo_ext (admin_command q1 va1 (CreateService ''cmd'' [''p''])) 1 (policy_new ''net'')))) = ResAdmin ''r1'' epoch 1 True out"
    unfolding ap by (auto simp: demo_rx_def)
  then show ?thesis
    by (intro exI conjI) (rule sent)
qed

end
